(* ===== verification/Prelude.thy ===== *)
theory Prelude
  imports Main "HOL-Library.Finite_Map" "HOL-Library.Char_ord" "HOL-Library.List_Lexorder"
begin

text \<open>
  The shared base of the development: the errors a Go function of the operator can return, the
  effect type every stateful operation is written in (explicit state passing over an opaque world,
  with a trace of the requests issued), the combinators that stand for Go's early returns, and the
  two program logics the component proofs use: \<open>emits\<close> (which requests a computation may issue,
  whatever the outside answers) and \<open>hoare\<close> (what it guarantees about the outside).
\<close>

named_theorems effect_defs \<open>definitions of the effect combinators\<close>
named_theorems emits_rules \<open>which requests a computation issues\<close>
named_theorems outcome_rules \<open>which results and errors a computation has\<close>
named_theorems keeps_rules \<open>which part of the outside a computation leaves alone\<close>
named_theorems go_consts \<open>string constants of the Go sources\<close>

section \<open>Go errors\<close>

text \<open>
  An error of the Kubernetes API is represented by its class, which is what
  \<open>apierrors.IsNotFound\<close> and \<open>apierrors.IsConflict\<close> report; the payload is its message.
\<close>

datatype api_error = NotFound string | Conflict string | OtherAPIError string

text \<open>
  \<open>fmt.Errorf\<close> keeps its format and its arguments unrendered: \<open>Errorf\<close> is a call without
  \<open>%w\<close>, \<open>Wrapf\<close> one whose last verb is \<open>%w\<close>. \<open>StdError\<close> is an error of the Go standard
  library (HTTP transport, URL and JSON decoding).
\<close>

datatype error =
    APIError api_error
  | NamespaceConflictError string
  | ErrUserNotFound
  | StdError string
  | Errorf string "string list"
  | Wrapf string "string list" error

text \<open>The classification functions look through every \<open>%w\<close> wrapper (\<open>errors.As\<close>, \<open>errors.Is\<close>).\<close>

fun unwrap_all :: "error \<Rightarrow> error" where
  "unwrap_all (Wrapf _ _ e) = unwrap_all e"
| "unwrap_all e = e"

definition IsNotFound :: "error \<Rightarrow> bool" where
  "IsNotFound e = (case unwrap_all e of APIError (NotFound _) \<Rightarrow> True | _ \<Rightarrow> False)"

definition IsConflict :: "error \<Rightarrow> bool" where
  "IsConflict e = (case unwrap_all e of APIError (Conflict _) \<Rightarrow> True | _ \<Rightarrow> False)"

definition AsNamespaceConflict :: "error \<Rightarrow> string option" where
  "AsNamespaceConflict e = (case unwrap_all e of NamespaceConflictError n \<Rightarrow> Some n | _ \<Rightarrow> None)"

definition IsErrUserNotFound :: "error \<Rightarrow> bool" where
  "IsErrUserNotFound e = (unwrap_all e = ErrUserNotFound)"

text \<open>The failure came from the API server (or the client in front of it), not from the operator.\<close>

definition IsAPIError :: "error \<Rightarrow> bool" where
  "IsAPIError e = (case unwrap_all e of APIError _ \<Rightarrow> True | _ \<Rightarrow> False)"

lemma IsAPIError_simps [simp]:
  "IsAPIError (Wrapf f as e) = IsAPIError e" "IsAPIError (APIError a)"
  by (simp_all add: IsAPIError_def)

lemma IsAPIError_no_conflict: "IsAPIError e \<Longrightarrow> AsNamespaceConflict e = None"
  by (simp add: IsAPIError_def AsNamespaceConflict_def split: error.splits)

lemma classify_Wrapf [simp]:
  "IsNotFound (Wrapf f as e) = IsNotFound e"
  "IsConflict (Wrapf f as e) = IsConflict e"
  "AsNamespaceConflict (Wrapf f as e) = AsNamespaceConflict e"
  "IsErrUserNotFound (Wrapf f as e) = IsErrUserNotFound e"
  by (simp_all add: IsNotFound_def IsConflict_def AsNamespaceConflict_def IsErrUserNotFound_def)

lemma classify_base [simp]:
  "IsNotFound (APIError a) = (case a of NotFound _ \<Rightarrow> True | _ \<Rightarrow> False)"
  "IsConflict (APIError a) = (case a of Conflict _ \<Rightarrow> True | _ \<Rightarrow> False)"
  "AsNamespaceConflict (APIError a) = None"
  "\<not> IsErrUserNotFound (APIError a)"
  "\<not> IsNotFound (NamespaceConflictError n)"
  "\<not> IsConflict (NamespaceConflictError n)"
  "AsNamespaceConflict (NamespaceConflictError n) = Some n"
  "\<not> IsNotFound (Errorf f as)" "\<not> IsConflict (Errorf f as)"
  "AsNamespaceConflict (Errorf f as) = None" "\<not> IsErrUserNotFound (Errorf f as)"
  "\<not> IsNotFound (StdError m)" "\<not> IsConflict (StdError m)"
  "AsNamespaceConflict (StdError m) = None" "\<not> IsErrUserNotFound (StdError m)"
  "\<not> IsNotFound ErrUserNotFound" "\<not> IsConflict ErrUserNotFound"
  "AsNamespaceConflict ErrUserNotFound = None" "IsErrUserNotFound ErrUserNotFound"
  by (simp_all add: IsNotFound_def IsConflict_def AsNamespaceConflict_def IsErrUserNotFound_def)

section \<open>Effects\<close>

text \<open>
  \<open>world\<close> is everything outside the operator (API server, Harbor, clock, randomness) and stays
  opaque; \<open>trace\<close> lists the requests the operator has issued, oldest first.
\<close>

record ('s, 'e) env =
  world :: 's
  trace :: "'e list"

type_synonym ('s, 'e, 'a) eff = "('s, 'e) env \<Rightarrow> 'a \<times> ('s, 'e) env"
type_synonym ('s, 'e, 'a) eio = "('s, 'e, error + 'a) eff"

definition ret :: "'a \<Rightarrow> ('s, 'e, 'a) eio" where
  "ret x = (\<lambda>s. (Inr x, s))"

definition fail :: "error \<Rightarrow> ('s, 'e, 'a) eio" where
  "fail e = (\<lambda>s. (Inl e, s))"

text \<open>\<open>x, err := m; if err != nil { return err }; \<dots>\<close>\<close>

definition andThen :: "('s, 'e, 'a) eio \<Rightarrow> ('a \<Rightarrow> ('s, 'e, 'b) eio) \<Rightarrow> ('s, 'e, 'b) eio" where
  "andThen m f = (\<lambda>s. case m s of (Inl e, s') \<Rightarrow> (Inl e, s') | (Inr x, s') \<Rightarrow> f x s')"

text \<open>\<open>x, err := m; if err != nil { h(err) }; \<dots>\<close>: every use that inspects the error.\<close>

definition onResult ::
    "('s, 'e, 'a) eio \<Rightarrow> (error \<Rightarrow> ('s, 'e, 'b) eff) \<Rightarrow> ('a \<Rightarrow> ('s, 'e, 'b) eff) \<Rightarrow> ('s, 'e, 'b) eff" where
  "onResult m h k = (\<lambda>s. case m s of (Inl e, s') \<Rightarrow> h e s' | (Inr x, s') \<Rightarrow> k x s')"

text \<open>\<open>if err != nil { return fmt.Errorf("\<dots>: %w", \<dots>, err) }\<close>\<close>

definition wrapErr :: "string \<Rightarrow> string list \<Rightarrow> ('s, 'e, 'a) eio \<Rightarrow> ('s, 'e, 'a) eio" where
  "wrapErr f as m = onResult m (\<lambda>e. fail (Wrapf f as e)) ret"

text \<open>\<open>client.IgnoreNotFound(err)\<close>: a NotFound error counts as success.\<close>

definition ignoreNotFound :: "('s, 'e, unit) eio \<Rightarrow> ('s, 'e, unit) eio" where
  "ignoreNotFound m = onResult m (\<lambda>e. if IsNotFound e then ret () else fail e) ret"

text \<open>A \<open>for\<close> loop over a slice that returns at the first error.\<close>

fun forEach :: "('x \<Rightarrow> ('s, 'e, unit) eio) \<Rightarrow> 'x list \<Rightarrow> ('s, 'e, unit) eio" where
  "forEach f [] = ret ()"
| "forEach f (x # xs) = andThen (f x) (\<lambda>_. forEach f xs)"

text \<open>A request to the outside: recorded in the trace, answered by the world.\<close>

definition request :: "'e \<Rightarrow> ('s \<Rightarrow> 'a \<times> 's) \<Rightarrow> ('s, 'e, 'a) eff" where
  "request ev f = (\<lambda>s. let (x, w) = f (world s) in (x, s\<lparr>world := w, trace := trace s @ [ev]\<rparr>))"

definition liftE :: "error + 'a \<Rightarrow> ('s, 'e, 'a) eio" where
  "liftE r = (\<lambda>s. (r, s))"

lemmas [effect_defs] = ret_def fail_def andThen_def onResult_def wrapErr_def ignoreNotFound_def
  request_def liftE_def

lemma andThen_ret [simp]: "andThen (ret x) f = f x"
  by (simp add: effect_defs)

lemma andThen_fail [simp]: "andThen (fail e) f = fail e"
  by (simp add: effect_defs)

lemma onResult_ret [simp]: "onResult (ret x) h k = k x"
  by (simp add: effect_defs)

lemma onResult_fail [simp]: "onResult (fail e) h k = h e"
  by (simp add: effect_defs)

lemma andThen_assoc: "andThen (andThen m f) g = andThen m (\<lambda>x. andThen (f x) g)"
  by (auto simp: effect_defs fun_eq_iff split: prod.splits sum.splits)

lemma forEach_append: "forEach f (xs @ ys) = andThen (forEach f xs) (\<lambda>_. forEach f ys)"
  by (induction xs) (simp_all add: andThen_assoc)

section \<open>Which requests a computation issues\<close>

text \<open>
  \<open>emits P m\<close>: run from any state, against any outside, \<open>m\<close> only appends requests that satisfy
  \<open>P\<close> to the trace. It assumes nothing about the answers, so it covers every fault and every
  interference of other writers.
\<close>

definition emits :: "('e \<Rightarrow> bool) \<Rightarrow> ('s, 'e, 'a) eff \<Rightarrow> bool" where
  "emits P m \<longleftrightarrow> (\<forall>s. \<exists>es. trace (snd (m s)) = trace s @ es \<and> list_all P es)"

lemma emitsI:
  assumes "\<And>s. \<exists>es. trace (snd (m s)) = trace s @ es \<and> list_all P es"
  shows "emits P m"
  using assms by (simp add: emits_def)

lemma emitsD:
  assumes "emits P m" and "m s = (r, s')"
  obtains es where "trace s' = trace s @ es" and "list_all P es"
  using assms by (metis emits_def snd_conv)

lemma emits_ret [emits_rules]: "emits P (ret x)"
  by (simp add: emits_def effect_defs)

lemma emits_fail [emits_rules]: "emits P (fail e)"
  by (simp add: emits_def effect_defs)

lemma emits_pure [emits_rules]: "emits P (\<lambda>s. (x, s))"
  by (simp add: emits_def)

lemma emits_liftE [emits_rules]: "emits P (liftE r)"
  by (simp add: emits_def effect_defs)

lemma emits_request [emits_rules]: "P ev \<Longrightarrow> emits P (request ev f)"
  by (auto simp: emits_def effect_defs split: prod.splits)

lemma emits_onResult [emits_rules]:
  assumes m: "emits P m" and h: "\<And>e. emits P (h e)" and k: "\<And>x. emits P (k x)"
  shows "emits P (onResult m h k)"
proof (rule emitsI)
  fix s
  obtain r s' where r: "m s = (r, s')" by fastforce
  with m obtain es where es: "trace s' = trace s @ es" "list_all P es"
    by (blast elim: emitsD)
  let ?n = "case r of Inl e \<Rightarrow> h e | Inr x \<Rightarrow> k x"
  have "emits P ?n" using h k by (cases r) simp_all
  then obtain es' where "trace (snd (?n s')) = trace s' @ es'" "list_all P es'"
    by (metis emits_def)
  with es r show "\<exists>es. trace (snd (onResult m h k s)) = trace s @ es \<and> list_all P es"
    by (cases r) (auto simp: onResult_def intro!: exI [where x = "es @ es'"])
qed

lemma andThen_onResult: "andThen m f = onResult m fail f"
  by (auto simp: effect_defs fun_eq_iff split: prod.splits sum.splits)

lemma emits_andThen [emits_rules]:
  "emits P m \<Longrightarrow> (\<And>x. emits P (f x)) \<Longrightarrow> emits P (andThen m f)"
  by (simp add: andThen_onResult emits_onResult emits_fail)

lemma emits_wrapErr [emits_rules]: "emits P m \<Longrightarrow> emits P (wrapErr f as m)"
  by (simp add: wrapErr_def emits_onResult emits_fail emits_ret)

lemma emits_ignoreNotFound [emits_rules]: "emits P m \<Longrightarrow> emits P (ignoreNotFound m)"
  by (simp add: ignoreNotFound_def emits_onResult emits_fail emits_ret)

lemma emits_forEach [emits_rules]: "(\<And>x. x \<in> set xs \<Longrightarrow> emits P (f x)) \<Longrightarrow> emits P (forEach f xs)"
  by (induction xs) (simp_all add: emits_ret emits_andThen)

lemma emits_mono: "emits P m \<Longrightarrow> (\<And>e. P e \<Longrightarrow> Q e) \<Longrightarrow> emits Q m"
  unfolding emits_def by (meson list.pred_mono_strong)

lemma emits_if [emits_rules]:
  fixes m n :: "('s, 'e, 'a) eff"
  shows "(b \<Longrightarrow> emits P m) \<Longrightarrow> (\<not> b \<Longrightarrow> emits P n) \<Longrightarrow> emits P (if b then m else n)"
  by simp

lemma emits_option [emits_rules]:
  "emits P m \<Longrightarrow> (\<And>x. emits P (f x)) \<Longrightarrow> emits P (case a of None \<Rightarrow> m | Some x \<Rightarrow> f x)"
  by (cases a) simp_all

section \<open>What a computation guarantees\<close>

text \<open>
  \<open>hoare P m Q E\<close>: from a world satisfying \<open>P\<close>, a normal result and the world it leaves satisfy
  \<open>Q\<close>, an error and the world it leaves satisfy \<open>E\<close>.
\<close>

definition hoare ::
    "('s \<Rightarrow> bool) \<Rightarrow> ('s, 'e, 'a) eio \<Rightarrow> ('a \<Rightarrow> 's \<Rightarrow> bool) \<Rightarrow> (error \<Rightarrow> 's \<Rightarrow> bool) \<Rightarrow> bool" where
  "hoare P m Q E \<longleftrightarrow>
     (\<forall>s. P (world s) \<longrightarrow>
        (case m s of (Inl e, s') \<Rightarrow> E e (world s') | (Inr x, s') \<Rightarrow> Q x (world s')))"

lemma hoareD:
  assumes "hoare P m Q E" and "P (world s)" and "m s = (Inr x, s')"
  shows "Q x (world s')"
proof -
  have "case m s of (Inl e, s') \<Rightarrow> E e (world s') | (Inr x, s') \<Rightarrow> Q x (world s')"
    using assms(1,2) by (simp add: hoare_def)
  with assms(3) show ?thesis by simp
qed

lemma hoare_errD:
  assumes "hoare P m Q E" and "P (world s)" and "m s = (Inl e, s')"
  shows "E e (world s')"
proof -
  have "case m s of (Inl e, s') \<Rightarrow> E e (world s') | (Inr x, s') \<Rightarrow> Q x (world s')"
    using assms(1,2) by (simp add: hoare_def)
  with assms(3) show ?thesis by simp
qed

lemma hoareI:
  assumes "\<And>s x s'. P (world s) \<Longrightarrow> m s = (Inr x, s') \<Longrightarrow> Q x (world s')"
    and "\<And>s e s'. P (world s) \<Longrightarrow> m s = (Inl e, s') \<Longrightarrow> E e (world s')"
  shows "hoare P m Q E"
  using assms by (auto simp: hoare_def split: prod.splits sum.splits)

lemma hoare_ret: "(\<And>w. P w \<Longrightarrow> Q x w) \<Longrightarrow> hoare P (ret x) Q E"
  by (simp add: hoare_def ret_def)

lemma hoare_fail: "(\<And>w. P w \<Longrightarrow> E e w) \<Longrightarrow> hoare P (fail e) Q E"
  by (simp add: hoare_def fail_def)

lemma hoare_conseq:
  assumes "hoare P m Q E" and "\<And>w. P' w \<Longrightarrow> P w" and "\<And>x w. Q x w \<Longrightarrow> Q' x w"
    and "\<And>e w. E e w \<Longrightarrow> E' e w"
  shows "hoare P' m Q' E'"
proof (rule hoareI)
  fix s x s'
  assume "P' (world s)" and "m s = (Inr x, s')"
  then show "Q' x (world s')" using assms(2,3) hoareD [OF assms(1)] by blast
next
  fix s e s'
  assume "P' (world s)" and "m s = (Inl e, s')"
  then show "E' e (world s')" using assms(2,4) hoare_errD [OF assms(1)] by blast
qed

lemma hoare_pure: "(p \<Longrightarrow> hoare P m Q E) \<Longrightarrow> hoare (\<lambda>w. P w \<and> p) m Q E"
  by (auto simp: hoare_def)

lemma hoare_ex: "(\<And>x. hoare (P x) m Q E) \<Longrightarrow> hoare (\<lambda>w. \<exists>x. P x w) m Q E"
  unfolding hoare_def by (intro allI impI, elim exE) simp

lemma hoare_onResult:
  assumes m: "hoare P m R F"
    and h: "\<And>e. hoare (F e) (h e) Q E" and k: "\<And>x. hoare (R x) (k x) Q E"
  shows "hoare P (onResult m h k) Q E"
  unfolding hoare_def
proof (intro allI impI)
  fix s :: "('a, 'b) env"
  assume P: "P (world s)"
  show "case onResult m h k s of (Inl e, s') \<Rightarrow> E e (world s') | (Inr x, s') \<Rightarrow> Q x (world s')"
  proof (cases "m s")
    case (Pair r s')
    show ?thesis
    proof (cases r)
      case (Inl e)
      with Pair have "F e (world s')" using hoare_errD [OF m P] by simp
      with Inl Pair h [of e] show ?thesis by (simp add: onResult_def hoare_def)
    next
      case (Inr x)
      with Pair have "R x (world s')" using hoareD [OF m P] by simp
      with Inr Pair k [of x] show ?thesis by (simp add: onResult_def hoare_def)
    qed
  qed
qed

lemma hoare_andThen:
  assumes "hoare P m R E" and "\<And>x. hoare (R x) (f x) Q E"
  shows "hoare P (andThen m f) Q E"
  unfolding andThen_onResult using assms by (blast intro: hoare_onResult hoare_fail)

lemma hoare_seq:
  assumes "hoare P m R F" and "\<And>e w. F e w \<Longrightarrow> E e w" and "\<And>x. hoare (R x) (f x) Q E"
  shows "hoare P (andThen m f) Q E"
  using hoare_andThen [OF hoare_conseq [OF assms(1)], of P R E f Q] assms(2,3) by blast

lemma hoare_wrapErr:
  assumes "hoare P m Q F" and "\<And>e w. F e w \<Longrightarrow> E (Wrapf f as e) w"
  shows "hoare P (wrapErr f as m) Q E"
  unfolding wrapErr_def
  by (rule hoare_onResult [OF assms(1)]) (auto intro: hoare_fail hoare_ret assms(2))

lemma hoare_wrap: "hoare P m Q (\<lambda>e. E (Wrapf f as e)) \<Longrightarrow> hoare P (wrapErr f as m) Q E"
  by (erule hoare_wrapErr)

lemma hoare_seq_wrapErr:
  assumes "hoare P m R F" and "\<And>e w. F e w \<Longrightarrow> E (Wrapf g as e) w"
    and "\<And>x. hoare (R x) (f x) Q E"
  shows "hoare P (andThen (wrapErr g as m) f) Q E"
  by (rule hoare_andThen [OF hoare_wrapErr [OF assms(1)]]) (use assms(2,3) in blast)+

lemma hoare_ignoreNotFound:
  assumes "hoare P m Q (\<lambda>e w. if IsNotFound e then Q () w else E e w)"
  shows "hoare P (ignoreNotFound m) Q E"
  unfolding ignoreNotFound_def
  by (rule hoare_onResult [OF assms]) (auto intro: hoare_fail hoare_ret)

lemma hoare_conj:
  assumes "hoare P m Q E" and "hoare P' m Q' E'"
  shows "hoare (\<lambda>w. P w \<and> P' w) m (\<lambda>x w. Q x w \<and> Q' x w) (\<lambda>e w. E e w \<and> E' e w)"
  by (rule hoareI) (blast dest: hoareD [OF assms(1)] hoareD [OF assms(2)]
      hoare_errD [OF assms(1)] hoare_errD [OF assms(2)])+

text \<open>For evaluated runs: a result that is not an error.\<close>

lemma run_okE:
  assumes "\<not> isl (fst (m s))"
  obtains x s' where "m s = (Inr x, s')"
  using assms by (metis isl_def prod.collapse sum.exhaust_sel)

lemma run_errE:
  assumes "isl (fst (m s))"
  obtains e s' where "m s = (Inl e, s')"
  using assms by (metis isl_def prod.collapse)

section \<open>Which results and errors a computation has\<close>

text \<open>
  \<open>outcome Q E m\<close>: whatever the outside does, a normal result of \<open>m\<close> satisfies \<open>Q\<close> and an error \<open>E\<close>.
\<close>

definition outcome :: "('a \<Rightarrow> bool) \<Rightarrow> (error \<Rightarrow> bool) \<Rightarrow> ('s, 'e, 'a) eio \<Rightarrow> bool" where
  "outcome Q E m \<longleftrightarrow> hoare (\<lambda>_. True) m (\<lambda>x _. Q x) (\<lambda>e _. E e)"

lemma outcomeD:
  assumes "outcome Q E m"
  shows "m s = (Inr x, s') \<Longrightarrow> Q x" and "m s = (Inl e, s') \<Longrightarrow> E e"
  using hoareD [OF assms [unfolded outcome_def]] hoare_errD [OF assms [unfolded outcome_def]] by simp_all

lemma outcomeI:
  assumes "\<And>s x s'. m s = (Inr x, s') \<Longrightarrow> Q x" and "\<And>s e s'. m s = (Inl e, s') \<Longrightarrow> E e"
  shows "outcome Q E m"
  unfolding outcome_def by (rule hoareI) (rule assms; assumption)+

lemma outcome_ret [outcome_rules]: "Q x \<Longrightarrow> outcome Q E (ret x)"
  by (simp add: outcome_def hoare_ret)

lemma outcome_fail [outcome_rules]: "E e \<Longrightarrow> outcome Q E (fail e)"
  by (simp add: outcome_def hoare_fail)

lemma outcome_onResult:
  assumes m: "outcome R F m" and h: "\<And>e. F e \<Longrightarrow> outcome Q E (h e)" and k: "\<And>x. R x \<Longrightarrow> outcome Q E (k x)"
  shows "outcome Q E (onResult m h k)"
proof (rule outcomeI)
  fix s x s'
  assume r: "onResult m h k s = (Inr x, s')"
  show "Q x"
  proof (cases "m s")
    case (Pair a s1)
    with r show ?thesis
      using outcomeD(1) [OF h] outcomeD(1) [OF k] outcomeD [OF m, of s]
      by (cases a) (auto simp: onResult_def)
  qed
next
  fix s e s'
  assume r: "onResult m h k s = (Inl e, s')"
  show "E e"
  proof (cases "m s")
    case (Pair a s1)
    with r show ?thesis
      using outcomeD(2) [OF h] outcomeD(2) [OF k] outcomeD [OF m, of s]
      by (cases a) (auto simp: onResult_def)
  qed
qed

lemma outcome_andThen:
  assumes "outcome R E m" and "\<And>x. R x \<Longrightarrow> outcome Q E (f x)"
  shows "outcome Q E (andThen m f)"
  unfolding andThen_onResult by (rule outcome_onResult [OF assms(1)]) (simp_all add: assms(2) outcome_fail)

lemma outcome_seq [outcome_rules]:
  "outcome (\<lambda>_. True) E m \<Longrightarrow> (\<And>x. outcome Q E (f x)) \<Longrightarrow> outcome Q E (andThen m f)"
  by (rule outcome_andThen)

lemma outcome_wrapErr [outcome_rules]:
  "outcome Q (\<lambda>e. E (Wrapf f as e)) m \<Longrightarrow> outcome Q E (wrapErr f as m)"
  unfolding wrapErr_def by (erule outcome_onResult) (simp_all add: outcome_fail outcome_ret)

lemma outcome_if [outcome_rules]:
  fixes m n :: "('s, 'e, 'a) eio"
  shows "(b \<Longrightarrow> outcome Q E m) \<Longrightarrow> (\<not> b \<Longrightarrow> outcome Q E n) \<Longrightarrow> outcome Q E (if b then m else n)"
  by simp

lemma outcome_sum [outcome_rules]:
  "(\<And>e. r = Inl e \<Longrightarrow> outcome Q E (f e)) \<Longrightarrow> (\<And>x. r = Inr x \<Longrightarrow> outcome Q E (g x)) \<Longrightarrow>
     outcome Q E (case r of Inl e \<Rightarrow> f e | Inr x \<Rightarrow> g x)"
  by (cases r) simp_all

lemma outcome_option [outcome_rules]:
  "outcome Q E m \<Longrightarrow> (\<And>x. outcome Q E (f x)) \<Longrightarrow> outcome Q E (case a of None \<Rightarrow> m | Some x \<Rightarrow> f x)"
  by (cases a) simp_all

lemma outcome_pair [outcome_rules]: "(\<And>a b. outcome Q E (f a b)) \<Longrightarrow> outcome Q E (case p of (a, b) \<Rightarrow> f a b)"
  by (cases p) simp

lemma outcome_conseq:
  "outcome Q E m \<Longrightarrow> (\<And>x. Q x \<Longrightarrow> Q' x) \<Longrightarrow> (\<And>e. E e \<Longrightarrow> E' e) \<Longrightarrow> outcome Q' E' m"
  unfolding outcome_def by (erule hoare_conseq) simp_all

lemma outcome_forEach [outcome_rules]:
  "(\<And>x. x \<in> set xs \<Longrightarrow> outcome (\<lambda>_. True) E (f x)) \<Longrightarrow> outcome (\<lambda>_. True) E (forEach f xs)"
  by (induction xs) (simp_all add: outcome_ret outcome_seq)

section \<open>What a computation leaves alone\<close>

text \<open>\<open>keeps v m\<close>: the view \<open>v\<close> of the outside is the same before and after \<open>m\<close>.\<close>

definition keeps :: "('s \<Rightarrow> 'v) \<Rightarrow> ('s, 'e, 'a) eff \<Rightarrow> bool" where
  "keeps v m \<longleftrightarrow> (\<forall>s. v (world (snd (m s))) = v (world s))"

lemma keepsD: "keeps v m \<Longrightarrow> m s = (r, s') \<Longrightarrow> v (world s') = v (world s)"
  unfolding keeps_def by (metis snd_conv)

text \<open>Continuations that agree as long as \<open>I\<close> holds of a part of the world the first step leaves alone.\<close>

lemma andThen_cong_kept:
  assumes "I (view (world s))" and "keeps view m" and "\<And>x t. I (view (world t)) \<Longrightarrow> f x t = g x t"
  shows "andThen m f s = andThen m g s"
proof -
  obtain r t where r: "m s = (r, t)" by fastforce
  with assms(1) have "I (view (world t))" by (simp add: keepsD [OF assms(2)])
  with assms(3) r show ?thesis by (cases r) (auto simp: andThen_def)
qed

lemma andThen_cong_first: "m s = m' s \<Longrightarrow> andThen m f s = andThen m' f s"
  by (simp add: andThen_def)

lemma keepsI: "(\<And>s r s'. m s = (r, s') \<Longrightarrow> v (world s') = v (world s)) \<Longrightarrow> keeps v m"
  unfolding keeps_def by (metis prod.collapse)

lemma keeps_hoare: "keeps v m \<Longrightarrow> hoare (\<lambda>w. v w = x) m (\<lambda>_ w. v w = x) (\<lambda>_ w. v w = x)"
  by (rule hoareI) (auto dest: keepsD)

lemma hoare_keeps_outcome:
  "keeps v m \<Longrightarrow> outcome Q E m \<Longrightarrow> hoare (\<lambda>w. v w = x) m (\<lambda>r w. v w = x \<and> Q r) (\<lambda>e w. v w = x \<and> E e)"
  by (rule hoareI) (auto dest: keepsD outcomeD)

lemma keeps_ret [keeps_rules]: "keeps v (ret x)"
  by (simp add: keeps_def ret_def)

lemma keeps_fail [keeps_rules]: "keeps v (fail e)"
  by (simp add: keeps_def fail_def)

lemma keeps_onResult [keeps_rules]:
  assumes "keeps v m" and "\<And>e. keeps v (h e)" and "\<And>x. keeps v (k x)"
  shows "keeps v (onResult m h k)"
proof (rule keepsI)
  fix s r s'
  assume r: "onResult m h k s = (r, s')"
  obtain a s1 where a: "m s = (a, s1)" by fastforce
  with r show "v (world s') = v (world s)"
    using keepsD [OF assms(1) a] keepsD [OF assms(2)] keepsD [OF assms(3)]
    by (cases a) (auto simp: onResult_def)
qed

lemma keeps_andThen [keeps_rules]: "keeps v m \<Longrightarrow> (\<And>x. keeps v (f x)) \<Longrightarrow> keeps v (andThen m f)"
  unfolding andThen_onResult by (intro keeps_onResult keeps_fail)

lemma keeps_wrapErr [keeps_rules]: "keeps v m \<Longrightarrow> keeps v (wrapErr f as m)"
  unfolding wrapErr_def by (intro keeps_onResult keeps_fail keeps_ret)

lemma keeps_forEach [keeps_rules]: "(\<And>x. x \<in> set xs \<Longrightarrow> keeps v (f x)) \<Longrightarrow> keeps v (forEach f xs)"
  by (induction xs) (simp_all add: keeps_ret keeps_andThen)

lemma keeps_request [keeps_rules]: "(\<And>w r w'. f w = (r, w') \<Longrightarrow> v w' = v w) \<Longrightarrow> keeps v (request ev f)"
  by (rule keepsI) (auto simp: request_def split: prod.splits)

lemma keeps_if [keeps_rules]:
  fixes m n :: "('s, 'e, 'a) eff"
  shows "keeps v m \<Longrightarrow> keeps v n \<Longrightarrow> keeps v (if b then m else n)"
  by simp

lemma keeps_option [keeps_rules]:
  "keeps v m \<Longrightarrow> (\<And>x. keeps v (f x)) \<Longrightarrow> keeps v (case a of None \<Rightarrow> m | Some x \<Rightarrow> f x)"
  by (cases a) simp_all

lemma keeps_sum [keeps_rules]:
  "(\<And>e. keeps v (f e)) \<Longrightarrow> (\<And>x. keeps v (g x)) \<Longrightarrow> keeps v (case r of Inl e \<Rightarrow> f e | Inr x \<Rightarrow> g x)"
  by (cases r) simp_all

lemma keeps_pair [keeps_rules]: "(\<And>a b. keeps v (f a b)) \<Longrightarrow> keeps v (case p of (a, b) \<Rightarrow> f a b)"
  by (cases p) simp

section \<open>Go maps\<close>

type_synonym strmap = "(string, string) fmap"

text \<open>Reading an absent key of a \<open>map[string]string\<close> yields the zero value.\<close>

definition mapGet :: "strmap \<Rightarrow> string \<Rightarrow> string" where
  "mapGet m k = (case fmlookup m k of None \<Rightarrow> [] | Some v \<Rightarrow> v)"

lemma mapGet_simps [simp]:
  "mapGet fmempty k = []"
  "mapGet (fmupd a b m) k = (if a = k then b else mapGet m k)"
  by (simp_all add: mapGet_def)

end
