(* ===== verification/Workspace_Types.thy ===== *)
theory Workspace_Types
  imports Prelude
begin

text \<open>
  The Workspace API (\<open>src/api/v1alpha1/workspace_types.go\<close>): its specification, its status, and the
  validation rules its kubebuilder markers put into the CustomResourceDefinition. Metadata is the
  part of \<open>metav1.ObjectMeta\<close> the operator reads or writes. A Go map that is nil and one that is
  empty are the same finite map, a nil slice and an empty one the same list; a pointer is an option.
\<close>

section \<open>Object metadata\<close>

record OwnerReference =
  or_uid :: string
  or_name :: string
  or_controller :: bool

text \<open>A timestamp is a natural number, 0 for the zero time (\<open>IsZero\<close>).\<close>

record ObjectMeta =
  om_name :: string
  om_namespace :: string
  om_uid :: string
  om_labels :: strmap
  om_annotations :: strmap
  om_owners :: "OwnerReference list"
  om_creationTimestamp :: nat
  om_deletionTimestamp :: nat
  om_generation :: int

section \<open>Members and specification\<close>

type_synonym MemberRole = string

definition MemberRoleAdmin :: MemberRole where [go_consts]: "MemberRoleAdmin = ''admin''"
definition MemberRoleEdit :: MemberRole where [go_consts]: "MemberRoleEdit = ''edit''"
definition MemberRoleView :: MemberRole where [go_consts]: "MemberRoleView = ''view''"

definition AllMemberRoles :: "MemberRole list" where
  "AllMemberRoles = [MemberRoleAdmin, MemberRoleEdit, MemberRoleView]"

record WorkspaceMember =
  m_role :: MemberRole
  m_subject :: string
  m_name :: "string option"
  m_serviceAccount :: bool

record NetworkIsolationSpec =
  ni_enabled :: bool
  ni_allowedNamespaces :: "string list"

text \<open>
  \<open>corev1.ResourceQuotaSpec\<close> and \<open>corev1.LimitRangeSpec\<close> are copied whole and never inspected; their
  content is one opaque payload.
\<close>

datatype ResourceQuotaSpec = ResourceQuotaSpec string
datatype LimitRangeSpec = LimitRangeSpec string

record WorkspaceSpec =
  spec_namespace :: string
  spec_members :: "WorkspaceMember list"
  spec_resourceQuota :: "ResourceQuotaSpec option"
  spec_limitRange :: "LimitRangeSpec option"
  spec_networkIsolation :: NetworkIsolationSpec

section \<open>Status\<close>

record ResourceReference =
  ref_name :: string
  ref_namespace :: string

text \<open>
  A status message is either a text or the text of an error, which stays unrendered.
\<close>

datatype message = Text string | ErrorText error

datatype ConditionStatus = ConditionTrue | ConditionFalse | ConditionUnknown

record Condition =
  cond_type :: string
  cond_status :: ConditionStatus
  cond_reason :: string
  cond_message :: message
  cond_observedGeneration :: int
  cond_lastTransitionTime :: nat

record WorkspaceStatus =
  st_observedGeneration :: int
  st_namespaceRef :: "ResourceReference option"
  st_resourceQuotaRef :: "ResourceReference option"
  st_limitRangeRef :: "ResourceReference option"
  st_roleBindingRefs :: "ResourceReference list"
  st_networkPolicyRef :: "ResourceReference option"
  st_imagePullSecretRef :: "ResourceReference option"
  st_helmRepositoryRef :: "ResourceReference option"
  st_conditions :: "Condition list"

record Workspace =
  ws_meta :: ObjectMeta
  ws_spec :: WorkspaceSpec
  ws_status :: WorkspaceStatus

abbreviation ws_name :: "Workspace \<Rightarrow> string" where
  "ws_name w \<equiv> om_name (ws_meta w)"

abbreviation ws_uid :: "Workspace \<Rightarrow> string" where
  "ws_uid w \<equiv> om_uid (ws_meta w)"

abbreviation ws_labels :: "Workspace \<Rightarrow> strmap" where
  "ws_labels w \<equiv> om_labels (ws_meta w)"

abbreviation ws_namespace :: "Workspace \<Rightarrow> string" where
  "ws_namespace w \<equiv> spec_namespace (ws_spec w)"

abbreviation ws_members :: "Workspace \<Rightarrow> WorkspaceMember list" where
  "ws_members w \<equiv> spec_members (ws_spec w)"

section \<open>Validation markers\<close>

definition is_lower :: "char \<Rightarrow> bool" where
  "is_lower c \<longleftrightarrow> CHR ''a'' \<le> c \<and> c \<le> CHR ''z''"

definition is_digit :: "char \<Rightarrow> bool" where
  "is_digit c \<longleftrightarrow> CHR ''0'' \<le> c \<and> c \<le> CHR ''9''"

text \<open>
  \<open>MinLength\<close> and \<open>MaxLength\<close> count code points; a Go string is its UTF-8 bytes, so the code points
  are the bytes that do not continue one (\<open>10xxxxxx\<close>).
\<close>

definition utf8_continuation :: "char \<Rightarrow> bool" where
  "utf8_continuation c \<longleftrightarrow> 128 \<le> (of_char c :: nat) \<and> (of_char c :: nat) < 192"

definition utf8_length :: "string \<Rightarrow> nat" where
  "utf8_length s = length (filter (\<lambda>c. \<not> utf8_continuation c) s)"

text \<open>\<open>^[a-z0-9]([-a-z0-9]*[a-z0-9])?$\<close>\<close>

definition dns_label :: "string \<Rightarrow> bool" where
  "dns_label n \<longleftrightarrow>
     n \<noteq> [] \<and> (is_lower (hd n) \<or> is_digit (hd n)) \<and> (is_lower (last n) \<or> is_digit (last n)) \<and>
     list_all (\<lambda>c. is_lower c \<or> is_digit c \<or> c = CHR ''-'') n"

definition reserved_namespaces :: "string list" where
  "reserved_namespaces =
     [''default'', ''kube-system'', ''kube-public'', ''kube-node-lease'', ''otterscale-system'']"

definition valid_member :: "WorkspaceMember \<Rightarrow> bool" where
  "valid_member m \<longleftrightarrow>
     m_role m \<in> set AllMemberRoles \<and> 1 \<le> utf8_length (m_subject m) \<and>
     utf8_length (m_subject m) \<le> 253"

definition valid_isolation :: "NetworkIsolationSpec \<Rightarrow> bool" where
  "valid_isolation n \<longleftrightarrow>
     (ni_allowedNamespaces n = [] \<or> ni_enabled n) \<and>
     distinct (ni_allowedNamespaces n) \<and> length (ni_allowedNamespaces n) \<le> 64 \<and>
     list_all (\<lambda>a. dns_label a \<and> utf8_length a \<le> 63) (ni_allowedNamespaces n)"

text \<open>
  The rules of the CustomResourceDefinition on a specification by itself, and on an update (the
  transition rule \<open>self == oldSelf\<close> of \<open>spec.namespace\<close>).
\<close>

definition valid_spec :: "WorkspaceSpec \<Rightarrow> bool" where
  "valid_spec s \<longleftrightarrow>
     utf8_length (spec_namespace s) \<le> 63 \<and> (spec_namespace s = [] \<or> dns_label (spec_namespace s)) \<and>
     spec_namespace s \<notin> set reserved_namespaces \<and>
     spec_members s \<noteq> [] \<and> list_all valid_member (spec_members s) \<and>
     list_ex (\<lambda>m. m_role m = MemberRoleAdmin) (spec_members s) \<and>
     valid_isolation (spec_networkIsolation s)"

definition valid_spec_update :: "WorkspaceSpec \<Rightarrow> WorkspaceSpec \<Rightarrow> bool" where
  "valid_spec_update old new \<longleftrightarrow> valid_spec new \<and> spec_namespace new = spec_namespace old"

lemma roles_distinct [simp]:
  "MemberRoleAdmin \<noteq> MemberRoleEdit" "MemberRoleAdmin \<noteq> MemberRoleView"
  "MemberRoleEdit \<noteq> MemberRoleView" "MemberRoleEdit \<noteq> MemberRoleAdmin"
  "MemberRoleView \<noteq> MemberRoleAdmin" "MemberRoleView \<noteq> MemberRoleEdit"
  by (simp_all add: go_consts)

lemma set_AllMemberRoles: "set AllMemberRoles = {MemberRoleAdmin, MemberRoleEdit, MemberRoleView}"
  by (auto simp: AllMemberRoles_def)

lemma distinct_AllMemberRoles: "distinct AllMemberRoles"
  by (simp add: AllMemberRoles_def)

lemma valid_spec_admin:
  assumes "valid_spec s"
  obtains m where "m \<in> set (spec_members s)" and "m_role m = MemberRoleAdmin"
  using assms by (auto simp: valid_spec_def list_ex_iff)

end
