(* ===== verification/Kube_Types.thy ===== *)
theory Kube_Types
  imports Workspace_Types
begin

text \<open>
  The Kubernetes objects the operator manages, as far as it reads or writes them, references to
  them, and the vocabulary of requests it issues. The types belong to the Kubernetes and Flux API
  packages; only the fields the operator touches are present.
\<close>

section \<open>Kinds and references\<close>

datatype kind =
    NamespaceK | ServiceAccountK | RoleBindingK | ResourceQuotaK | LimitRangeK | NetworkPolicyK
  | SecretK | ConfigMapK | HelmRepositoryK

text \<open>Kind, namespace (empty for a cluster-scoped object) and name.\<close>

type_synonym objref = "kind \<times> string \<times> string"

section \<open>Kind-specific content\<close>

datatype subject_kind = UserKind | ServiceAccountKind

text \<open>\<open>RbacGroup\<close> is \<open>rbacv1.GroupName\<close>, \<open>CoreGroup\<close> the empty API group.\<close>

datatype api_group = CoreGroup | RbacGroup

record Subject =
  sub_kind :: subject_kind
  sub_apiGroup :: api_group
  sub_name :: string
  sub_namespace :: string

record RoleRef =
  rr_kind :: string
  rr_apiGroup :: api_group
  rr_name :: string

text \<open>A label selector with \<open>matchLabels\<close> only; the empty one selects everything.\<close>

type_synonym LabelSelector = strmap

record NetworkPolicyPeer =
  peer_podSelector :: "LabelSelector option"
  peer_namespaceSelector :: "LabelSelector option"

datatype policy_type = PolicyTypeIngress | PolicyTypeEgress

record NetworkPolicySpec =
  np_podSelector :: LabelSelector
  np_policyTypes :: "policy_type list"
  np_ingress :: "NetworkPolicyPeer list list"

datatype secret_type = SecretTypeOpaque | SecretTypeDockerConfigJson

datatype helm_repository_type = HelmRepositoryTypeDefault | HelmRepositoryTypeOCI

text \<open>The interval is in seconds.\<close>

record HelmRepositorySpec =
  hr_secretRef :: "string option"
  hr_type :: helm_repository_type
  hr_url :: string
  hr_interval :: nat
  hr_insecure :: bool

datatype body =
    NamespaceB
  | ServiceAccountB "string list"
  | RoleBindingB "Subject list" RoleRef
  | ResourceQuotaB ResourceQuotaSpec
  | LimitRangeB LimitRangeSpec
  | NetworkPolicyB NetworkPolicySpec
  | SecretB secret_type strmap
  | ConfigMapB strmap
  | HelmRepositoryB HelmRepositorySpec

fun body_kind :: "body \<Rightarrow> kind" where
  "body_kind NamespaceB = NamespaceK"
| "body_kind (ServiceAccountB _) = ServiceAccountK"
| "body_kind (RoleBindingB _ _) = RoleBindingK"
| "body_kind (ResourceQuotaB _) = ResourceQuotaK"
| "body_kind (LimitRangeB _) = LimitRangeK"
| "body_kind (NetworkPolicyB _) = NetworkPolicyK"
| "body_kind (SecretB _ _) = SecretK"
| "body_kind (ConfigMapB _) = ConfigMapK"
| "body_kind (HelmRepositoryB _) = HelmRepositoryK"

text \<open>The zero value of each kind, which a freshly declared Go variable holds.\<close>

fun zero_body :: "kind \<Rightarrow> body" where
  "zero_body NamespaceK = NamespaceB"
| "zero_body ServiceAccountK = ServiceAccountB []"
| "zero_body RoleBindingK = RoleBindingB [] \<lparr>rr_kind = [], rr_apiGroup = CoreGroup, rr_name = []\<rparr>"
| "zero_body ResourceQuotaK = ResourceQuotaB (ResourceQuotaSpec [])"
| "zero_body LimitRangeK = LimitRangeB (LimitRangeSpec [])"
| "zero_body NetworkPolicyK =
     NetworkPolicyB \<lparr>np_podSelector = fmempty, np_policyTypes = [], np_ingress = []\<rparr>"
| "zero_body SecretK = SecretB SecretTypeOpaque fmempty"
| "zero_body ConfigMapK = ConfigMapB fmempty"
| "zero_body HelmRepositoryK =
     HelmRepositoryB \<lparr>hr_secretRef = None, hr_type = HelmRepositoryTypeDefault, hr_url = [],
       hr_interval = 0, hr_insecure = False\<rparr>"

fun imagePullSecrets :: "body \<Rightarrow> string list" where
  "imagePullSecrets (ServiceAccountB ips) = ips"
| "imagePullSecrets _ = []"

fun dataOf :: "body \<Rightarrow> strmap" where
  "dataOf (SecretB _ d) = d"
| "dataOf (ConfigMapB d) = d"
| "dataOf _ = fmempty"

section \<open>Objects\<close>

record Object =
  o_meta :: ObjectMeta
  o_body :: body

definition zero_meta :: "string \<Rightarrow> string \<Rightarrow> ObjectMeta" where
  "zero_meta ns n = \<lparr>om_name = n, om_namespace = ns, om_uid = [], om_labels = fmempty,
     om_annotations = fmempty, om_owners = [], om_creationTimestamp = 0, om_deletionTimestamp = 0,
     om_generation = 0\<rparr>"

text \<open>\<open>&T{Name: n, Namespace: ns}\<close>\<close>

definition newObject :: "objref \<Rightarrow> Object" where
  "newObject r = (case r of (k, ns, n) \<Rightarrow> \<lparr>o_meta = zero_meta ns n, o_body = zero_body k\<rparr>)"

definition objref_of :: "Object \<Rightarrow> objref" where
  "objref_of ob = (body_kind (o_body ob), om_namespace (o_meta ob), om_name (o_meta ob))"

abbreviation set_labels :: "strmap \<Rightarrow> Object \<Rightarrow> Object" where
  "set_labels l ob \<equiv> ob\<lparr>o_meta := (o_meta ob)\<lparr>om_labels := l\<rparr>\<rparr>"

lemma zero_body_kind [simp]: "body_kind (zero_body k) = k"
  by (cases k) simp_all

lemma objref_of_newObject [simp]: "objref_of (newObject r) = r"
  by (cases r) (simp add: newObject_def objref_of_def zero_meta_def)

section \<open>HTTP\<close>

datatype http_method = MethodGet | MethodHead | MethodPost | MethodPut | MethodDelete

record http_request =
  rq_method :: http_method
  rq_url :: string
  rq_user :: string
  rq_password :: string
  rq_body :: "string option"

record http_response =
  StatusCode :: int
  Body :: string

section \<open>Requests\<close>

datatype event_type = EventTypeNormal | EventTypeWarning

text \<open>
  One constructor per call that leaves the process. \<open>EvCreateOrUpdate\<close>, \<open>EvDelete\<close>,
  \<open>EvUpdateWorkspace\<close>, \<open>EvPatchStatus\<close> and \<open>EvHTTP\<close> (unless it is a GET or HEAD) may change the
  outside; \<open>EvRecord\<close> is a Kubernetes event.
\<close>

datatype event =
    EvGet objref
  | EvCreateOrUpdate objref
  | EvDelete objref
  | EvGetWorkspace string
  | EvListWorkspaces
  | EvUpdateWorkspace Workspace
  | EvPatchStatus string WorkspaceStatus
  | EvCreateReview string
  | EvHTTP http_request
  | EvRecord string event_type string message
  | EvRandom

type_synonym ('s, 'a) io = "('s, event, 'a) eio"
type_synonym ('s, 'a) op = "('s, event, 'a) eff"
type_synonym 's st = "('s, event) env"

end
