(* ===== verification/Kube_Client.thy ===== *)
theory Kube_Client
  imports Kube_Types
begin

text \<open>
  The boundary to Kubernetes. The API server, controller-runtime's client and \<open>controllerutil\<close> are not
  part of the repository, so they are one parameter: a record of functions over the opaque world,
  which every operation of the model takes as its argument \<open>c\<close>. The wrappers (\<open>kGet\<close>, \<open>kDelete\<close>,
  \<open>kCreateOrUpdate\<close>, \<dots>) record the request and pass it on. The locale \<open>kube_api\<close> states what their
  documentation promises, \<open>kube_api_up\<close> adds that no request fails for outside reasons, and an
  in-memory API server interprets both.
\<close>

section \<open>The client as a parameter\<close>

record UserInfo =
  ui_username :: string
  ui_uid :: string
  ui_groups :: "string list"
  ui_extra :: "(string, string list) fmap"

record SubjectAccessReviewSpec =
  sar_user :: string
  sar_groups :: "string list"
  sar_uid :: string
  sar_extra :: "(string, string list) fmap"
  sar_verb :: string
  sar_group :: string
  sar_resource :: string

text \<open>
  \<open>client_PatchStatus\<close> takes the object the merge patch is computed from and the changed one;
  \<open>client_SetStatusCondition\<close> reads the world for the current time only.
\<close>

record 's client =
  client_Get :: "objref \<Rightarrow> 's \<Rightarrow> (api_error + Object) \<times> 's"
  client_Delete :: "objref \<Rightarrow> 's \<Rightarrow> (api_error + unit) \<times> 's"
  client_CreateOrUpdate :: "Object \<Rightarrow> (Object \<Rightarrow> error + Object) \<Rightarrow> 's \<Rightarrow> (error + unit) \<times> 's"
  client_GetWorkspace :: "string \<Rightarrow> 's \<Rightarrow> (api_error + Workspace) \<times> 's"
  client_ListWorkspaces :: "'s \<Rightarrow> (api_error + Workspace list) \<times> 's"
  client_UpdateWorkspace :: "Workspace \<Rightarrow> 's \<Rightarrow> (api_error + unit) \<times> 's"
  client_PatchStatus :: "Workspace \<Rightarrow> Workspace \<Rightarrow> 's \<Rightarrow> (api_error + unit) \<times> 's"
  client_CreateReview :: "SubjectAccessReviewSpec \<Rightarrow> 's \<Rightarrow> (api_error + bool) \<times> 's"
  client_SetControllerReference :: "Workspace \<Rightarrow> Object \<Rightarrow> error + Object"
  client_SetStatusCondition :: "'s \<Rightarrow> Condition list \<Rightarrow> Condition \<Rightarrow> Condition list"

definition apiCall :: "event \<Rightarrow> ('s \<Rightarrow> (api_error + 'a) \<times> 's) \<Rightarrow> ('s, 'a) io" where
  "apiCall ev f = (\<lambda>s. case request ev f s of (Inl a, s') \<Rightarrow> (Inl (APIError a), s') | (Inr x, s') \<Rightarrow> (Inr x, s'))"

definition kGet :: "'s client \<Rightarrow> objref \<Rightarrow> ('s, Object) io" where
  "kGet c r = apiCall (EvGet r) (client_Get c r)"

definition kDelete :: "'s client \<Rightarrow> objref \<Rightarrow> ('s, unit) io" where
  "kDelete c r = apiCall (EvDelete r) (client_Delete c r)"

definition kCreateOrUpdate :: "'s client \<Rightarrow> objref \<Rightarrow> (Object \<Rightarrow> error + Object) \<Rightarrow> ('s, unit) io" where
  "kCreateOrUpdate c r f = request (EvCreateOrUpdate r) (client_CreateOrUpdate c (newObject r) f)"

definition kGetWorkspace :: "'s client \<Rightarrow> string \<Rightarrow> ('s, Workspace) io" where
  "kGetWorkspace c n = apiCall (EvGetWorkspace n) (client_GetWorkspace c n)"

definition kListWorkspaces :: "'s client \<Rightarrow> ('s, Workspace list) io" where
  "kListWorkspaces c = apiCall EvListWorkspaces (client_ListWorkspaces c)"

definition kUpdateWorkspace :: "'s client \<Rightarrow> Workspace \<Rightarrow> ('s, unit) io" where
  "kUpdateWorkspace c w = apiCall (EvUpdateWorkspace w) (client_UpdateWorkspace c w)"

definition kPatchStatus :: "'s client \<Rightarrow> Workspace \<Rightarrow> Workspace \<Rightarrow> ('s, unit) io" where
  "kPatchStatus c base w = apiCall (EvPatchStatus (ws_name w) (ws_status w)) (client_PatchStatus c base w)"

definition kCreateReview :: "'s client \<Rightarrow> SubjectAccessReviewSpec \<Rightarrow> ('s, bool) io" where
  "kCreateReview c r = apiCall (EvCreateReview (sar_user r)) (client_CreateReview c r)"

lemmas kube_defs = kGet_def kDelete_def kCreateOrUpdate_def kGetWorkspace_def kListWorkspaces_def
  kUpdateWorkspace_def kPatchStatus_def kCreateReview_def apiCall_def

lemma emits_apiCall: "P ev \<Longrightarrow> emits P (apiCall ev f)"
  by (auto simp: apiCall_def emits_def request_def split: prod.splits sum.splits)

lemma emits_kube [emits_rules]:
  "P (EvGet r) \<Longrightarrow> emits P (kGet c r)"
  "P (EvDelete r) \<Longrightarrow> emits P (kDelete c r)"
  "P (EvCreateOrUpdate r) \<Longrightarrow> emits P (kCreateOrUpdate c r f)"
  "P (EvGetWorkspace n) \<Longrightarrow> emits P (kGetWorkspace c n)"
  "P EvListWorkspaces \<Longrightarrow> emits P (kListWorkspaces c)"
  "P (EvUpdateWorkspace w) \<Longrightarrow> emits P (kUpdateWorkspace c w)"
  "P (EvPatchStatus (ws_name w) (ws_status w)) \<Longrightarrow> emits P (kPatchStatus c b w)"
  "P (EvCreateReview (sar_user v)) \<Longrightarrow> emits P (kCreateReview c v)"
  by (simp_all add: kGet_def kDelete_def kCreateOrUpdate_def kGetWorkspace_def kListWorkspaces_def
      kUpdateWorkspace_def kPatchStatus_def kCreateReview_def emits_apiCall emits_request)

section \<open>What the API server promises\<close>

text \<open>
  \<open>persisted ob st\<close>: \<open>st\<close> is \<open>ob\<close> as the server stores it. The server assigns the identity and the
  timestamps and keeps everything the client sent.
\<close>

definition persisted :: "Object \<Rightarrow> Object \<Rightarrow> bool" where
  "persisted ob st \<longleftrightarrow>
     o_body st = o_body ob \<and> om_name (o_meta st) = om_name (o_meta ob) \<and>
     om_namespace (o_meta st) = om_namespace (o_meta ob) \<and>
     om_labels (o_meta st) = om_labels (o_meta ob) \<and>
     om_annotations (o_meta st) = om_annotations (o_meta ob) \<and>
     om_owners (o_meta st) = om_owners (o_meta ob) \<and> om_creationTimestamp (o_meta st) \<noteq> 0"

text \<open>The object \<open>CreateOrUpdate\<close> hands to the mutate function: the stored one, or the given one.\<close>

definition current :: "(objref \<Rightarrow> Object option) \<Rightarrow> Object \<Rightarrow> Object" where
  "current \<sigma> ob = (case \<sigma> (objref_of ob) of None \<Rightarrow> ob | Some cur \<Rightarrow> cur)"

definition owned_by :: "string \<Rightarrow> Object \<Rightarrow> bool" where
  "owned_by uid ob \<longleftrightarrow> list_ex (\<lambda>r. or_uid r = uid \<and> or_controller r) (om_owners (o_meta ob))"

text \<open>No object other than the one with this UID controls \<open>ob\<close>.\<close>

definition controllable_by :: "string \<Rightarrow> Object \<Rightarrow> bool" where
  "controllable_by uid ob \<longleftrightarrow> list_all (\<lambda>r. or_controller r \<longrightarrow> or_uid r = uid) (om_owners (o_meta ob))"

locale kube_api =
  fixes c :: "'s client" and store :: "'s \<Rightarrow> objref \<Rightarrow> Object option"
  assumes get_frame: "client_Get c r s = (res, s') \<Longrightarrow> store s' = store s"
    and get_found: "client_Get c r s = (Inr ob, s') \<Longrightarrow> store s r = Some ob"
    and get_absent: "client_Get c r s = (Inl (NotFound m), s') \<Longrightarrow> store s r = None"
    and delete_ok: "client_Delete c r s = (Inr u, s') \<Longrightarrow> store s' = (store s)(r := None)"
    and delete_failed: "client_Delete c r s = (Inl a, s') \<Longrightarrow> store s' = store s"
    and delete_absent: "client_Delete c r s = (Inl (NotFound m), s') \<Longrightarrow> store s r = None"
    and write_ok: "client_CreateOrUpdate c ob f s = (Inr u, s') \<Longrightarrow>
      \<exists>ob' st. f (current (store s) ob) = Inr ob' \<and> persisted ob' st \<and>
        store s' = (store s)(objref_of ob := Some st)"
    and write_failed: "client_CreateOrUpdate c ob f s = (Inl e, s') \<Longrightarrow> store s' = store s"
    and write_mutate_error: "client_CreateOrUpdate c ob f s = (Inl e, s') \<Longrightarrow>
      f (current (store s) ob) = Inl e' \<Longrightarrow> e = e' \<or> (\<exists>a. e = APIError a)"
    and write_api_error: "client_CreateOrUpdate c ob f s = (Inl e, s') \<Longrightarrow>
      f (current (store s) ob) = Inr ob' \<Longrightarrow> \<exists>a. e = APIError a"
    and owner_set: "client_SetControllerReference c w ob = Inr ob' \<Longrightarrow>
      \<exists>rs. ob' = ob\<lparr>o_meta := (o_meta ob)\<lparr>om_owners := rs\<rparr>\<rparr> \<and> owned_by (ws_uid w) ob'"
    and owner_free: "controllable_by (ws_uid w) ob \<Longrightarrow>
      \<exists>ob'. client_SetControllerReference c w ob = Inr ob'"
    and owner_error: "client_SetControllerReference c w ob = Inl e \<Longrightarrow> AsNamespaceConflict e = None"
    and stored_created: "store s r = Some ob \<Longrightarrow> om_creationTimestamp (o_meta ob) \<noteq> 0"
begin

lemma hoare_kGet:
  "hoare (\<lambda>w. store w = \<sigma>) (kGet c r)
     (\<lambda>ob w. store w = \<sigma> \<and> \<sigma> r = Some ob)
     (\<lambda>e w. store w = \<sigma> \<and> (IsNotFound e \<longrightarrow> \<sigma> r = None) \<and> IsAPIError e)"
  by (auto simp: hoare_def kGet_def apiCall_def request_def
      dest: get_frame get_found get_absent split: prod.splits sum.splits api_error.splits)

lemma hoare_kDelete:
  "hoare (\<lambda>w. store w = \<sigma>) (kDelete c r)
     (\<lambda>_ w. store w = \<sigma>(r := None))
     (\<lambda>e w. store w = \<sigma> \<and> (IsNotFound e \<longrightarrow> \<sigma> r = None) \<and> IsAPIError e)"
  by (auto simp: hoare_def kDelete_def apiCall_def request_def
      dest: delete_ok delete_failed delete_absent split: prod.splits sum.splits api_error.splits)

lemma hoare_delete_ignoring_absence:
  "hoare (\<lambda>w. store w = \<sigma>) (ignoreNotFound (kDelete c r))
     (\<lambda>_ w. store w = \<sigma>(r := None)) (\<lambda>e w. store w = \<sigma> \<and> IsAPIError e)"
  by (rule hoare_ignoreNotFound, rule hoare_conseq [OF hoare_kDelete]) (auto simp: fun_upd_idem)

lemma hoare_kCreateOrUpdate:
  "hoare (\<lambda>w. store w = \<sigma>) (kCreateOrUpdate c r f)
     (\<lambda>_ w. \<exists>ob' st. f (current \<sigma> (newObject r)) = Inr ob' \<and> persisted ob' st \<and>
        store w = \<sigma>(r := Some st))
     (\<lambda>e w. store w = \<sigma> \<and>
        (case f (current \<sigma> (newObject r)) of Inl e' \<Rightarrow> e = e' \<or> (\<exists>a. e = APIError a)
         | Inr _ \<Rightarrow> \<exists>a. e = APIError a))"
proof (rule hoareI)
  fix s :: "'s st" and u s'
  assume "store (world s) = \<sigma>" and "kCreateOrUpdate c r f s = (Inr u, s')"
  then show "\<exists>ob' st. f (current \<sigma> (newObject r)) = Inr ob' \<and> persisted ob' st \<and>
        store (world s') = \<sigma>(r := Some st)"
    using write_ok [of "newObject r" f "world s" u "world s'"]
    by (auto simp: kCreateOrUpdate_def request_def split: prod.splits)
next
  fix s :: "'s st" and e s'
  assume "store (world s) = \<sigma>" and "kCreateOrUpdate c r f s = (Inl e, s')"
  then show "store (world s') = \<sigma> \<and>
        (case f (current \<sigma> (newObject r)) of Inl e' \<Rightarrow> e = e' \<or> (\<exists>a. e = APIError a)
         | Inr _ \<Rightarrow> \<exists>a. e = APIError a)"
    by (auto simp: kCreateOrUpdate_def request_def
        dest: write_failed write_mutate_error write_api_error split: prod.splits sum.splits)
qed

end

text \<open>The calls about workspaces leave the other objects alone.\<close>

locale kube_cluster = kube_api c store
  for c :: "'s client" and store :: "'s \<Rightarrow> objref \<Rightarrow> Object option" +
  assumes get_workspace_frame: "client_GetWorkspace c n s = (r, s') \<Longrightarrow> store s' = store s"
    and update_workspace_frame: "client_UpdateWorkspace c w s = (u, s') \<Longrightarrow> store s' = store s"
    and patch_status_frame: "client_PatchStatus c b w s = (u, s') \<Longrightarrow> store s' = store s"
begin

lemma keeps_workspace_calls [keeps_rules]:
  "keeps store (kGetWorkspace c n)" "keeps store (kUpdateWorkspace c w)" "keeps store (kPatchStatus c b w)"
  by (rule keepsI, auto simp: kube_defs request_def split: prod.splits sum.splits
      dest: get_workspace_frame update_workspace_frame patch_status_frame)+

lemma keeps_kGet [keeps_rules]: "keeps store (kGet c r)"
  by (rule keepsI) (auto simp: kube_defs request_def split: prod.splits sum.splits dest: get_frame)

end

text \<open>
  \<open>meta.SetStatusCondition\<close>: the list holds the new condition afterwards (its transition time aside), keeps one
  entry per type, and is unchanged when an equal condition is there already.
\<close>

definition agrees :: "Condition \<Rightarrow> Condition \<Rightarrow> bool" where
  "agrees a b \<longleftrightarrow> a\<lparr>cond_lastTransitionTime := 0\<rparr> = b\<lparr>cond_lastTransitionTime := 0\<rparr>"

locale condition_api =
  fixes c :: "'s client"
  assumes set_has: "distinct (map cond_type cs) \<Longrightarrow> \<exists>a \<in> set (client_SetStatusCondition c s cs n). agrees a n"
    and set_distinct: "distinct (map cond_type cs) \<Longrightarrow> distinct (map cond_type (client_SetStatusCondition c s cs n))"
    and set_fix: "distinct (map cond_type cs) \<Longrightarrow> a \<in> set cs \<Longrightarrow> agrees a n \<Longrightarrow> client_SetStatusCondition c s cs n = cs"

text \<open>An API server that answers every well-formed request: no outage, no write conflict.\<close>

locale kube_api_up = kube_api c store
  for c :: "'s client" and store :: "'s \<Rightarrow> objref \<Rightarrow> Object option" +
  assumes get_up: "store s r = Some ob \<Longrightarrow> fst (client_Get c r s) = Inr ob"
    and get_up_absent: "store s r = None \<Longrightarrow> \<exists>m. fst (client_Get c r s) = Inl (NotFound m)"
    and delete_up: "fst (client_Delete c r s) = Inr () \<or> (\<exists>m. fst (client_Delete c r s) = Inl (NotFound m))"
    and write_up: "f (current (store s) ob) = Inr ob' \<Longrightarrow>
      om_namespace (o_meta ob) = [] \<or> store s (NamespaceK, [], om_namespace (o_meta ob)) \<noteq> None \<Longrightarrow>
      fst (client_CreateOrUpdate c ob f s) = Inr ()"
begin

lemma kCreateOrUpdate_succeeds:
  assumes "f (current (store (world s)) (newObject (k, ns, n))) = Inr ob'"
    and "ns = [] \<or> store (world s) (NamespaceK, [], ns) \<noteq> None"
  obtains s' where "kCreateOrUpdate c (k, ns, n) f s = (Inr (), s')"
proof -
  have "om_namespace (o_meta (newObject (k, ns, n))) = ns"
    by (simp add: newObject_def zero_meta_def)
  then have "fst (client_CreateOrUpdate c (newObject (k, ns, n)) f (world s)) = Inr ()"
    using write_up [of f "world s" "newObject (k, ns, n)" ob'] assms by metis
  then obtain w where "client_CreateOrUpdate c (newObject (k, ns, n)) f (world s) = (Inr (), w)"
    by (metis prod.collapse)
  then show ?thesis
    by (intro that) (simp add: kCreateOrUpdate_def request_def)
qed

lemma delete_succeeds:
  obtains s' where "ignoreNotFound (kDelete c r) s = (Inr (), s')"
proof -
  obtain res w where d: "client_Delete c r (world s) = (res, w)" by fastforce
  show ?thesis
    using delete_up [of r "world s"] d
    by (intro that) (auto simp: ignoreNotFound_def onResult_def kDelete_def apiCall_def request_def
        ret_def)
qed

end

section \<open>An in-memory API server\<close>

text \<open>
  An executable server that keeps its objects in a finite-support map, its workspaces in a list, and
  numbers the objects it creates. Writing into a namespace that does not exist is refused. The
  record is extensible, so that a Harbor server can share the world.
\<close>

record mem =
  mem_objs :: "objref \<Rightarrow> Object option"
  mem_workspaces :: "Workspace list"
  mem_clock :: nat
  mem_clusterAdmins :: "string list"

definition mem_persist :: "nat \<Rightarrow> Object \<Rightarrow> Object" where
  "mem_persist t ob = (if om_creationTimestamp (o_meta ob) = 0
     then ob\<lparr>o_meta := (o_meta ob)\<lparr>om_creationTimestamp := Suc t\<rparr>\<rparr> else ob)"

text \<open>The objects a server holds have been created.\<close>

definition mem_lookup :: "'x mem_scheme \<Rightarrow> objref \<Rightarrow> Object option" where
  "mem_lookup s r = map_option (mem_persist 0) (mem_objs s r)"

definition mem_Get :: "objref \<Rightarrow> 'x mem_scheme \<Rightarrow> (api_error + Object) \<times> 'x mem_scheme" where
  "mem_Get r s = (case mem_lookup s r of None \<Rightarrow> Inl (NotFound ''object'') | Some ob \<Rightarrow> Inr ob, s)"

definition mem_Delete :: "objref \<Rightarrow> 'x mem_scheme \<Rightarrow> (api_error + unit) \<times> 'x mem_scheme" where
  "mem_Delete r s = (case mem_objs s r of
       None \<Rightarrow> (Inl (NotFound ''object''), s)
     | Some _ \<Rightarrow> (Inr (), s\<lparr>mem_objs := (mem_objs s)(r := None)\<rparr>))"

definition mem_CreateOrUpdate ::
    "Object \<Rightarrow> (Object \<Rightarrow> error + Object) \<Rightarrow> 'x mem_scheme \<Rightarrow> (error + unit) \<times> 'x mem_scheme" where
  "mem_CreateOrUpdate ob f s =
     (case f (current (mem_lookup s) ob) of
        Inl e \<Rightarrow> (Inl e, s)
      | Inr ob' \<Rightarrow>
          if om_namespace (o_meta ob) \<noteq> [] \<and> mem_objs s (NamespaceK, [], om_namespace (o_meta ob)) = None
          then (Inl (APIError (NotFound ''namespace'')), s)
          else (Inr (), s\<lparr>mem_objs := (mem_objs s)(objref_of ob \<mapsto> mem_persist (mem_clock s) ob'),
                          mem_clock := Suc (mem_clock s)\<rparr>))"

definition mem_GetWorkspace :: "string \<Rightarrow> 'x mem_scheme \<Rightarrow> (api_error + Workspace) \<times> 'x mem_scheme" where
  "mem_GetWorkspace n s = (case find (\<lambda>w. ws_name w = n) (mem_workspaces s) of
       None \<Rightarrow> Inl (NotFound n) | Some w \<Rightarrow> Inr w, s)"

definition mem_replace :: "Workspace \<Rightarrow> 'x mem_scheme \<Rightarrow> 'x mem_scheme" where
  "mem_replace w s = s\<lparr>mem_workspaces :=
     map (\<lambda>v. if ws_name v = ws_name w then w else v) (mem_workspaces s)\<rparr>"

definition mem_SetControllerReference :: "Workspace \<Rightarrow> Object \<Rightarrow> error + Object" where
  "mem_SetControllerReference w ob =
     (if controllable_by (ws_uid w) ob
      then Inr (ob\<lparr>o_meta := (o_meta ob)\<lparr>om_owners :=
             filter (\<lambda>r. or_uid r \<noteq> ws_uid w) (om_owners (o_meta ob)) @
             [\<lparr>or_uid = ws_uid w, or_name = ws_name w, or_controller = True\<rparr>]\<rparr>\<rparr>)
      else Inl (Errorf ''already owned'' []))"

fun mem_setCondition :: "nat \<Rightarrow> Condition list \<Rightarrow> Condition \<Rightarrow> Condition list" where
  "mem_setCondition t [] n = [n\<lparr>cond_lastTransitionTime := t\<rparr>]"
| "mem_setCondition t (x # xs) n =
     (if cond_type x = cond_type n
      then n\<lparr>cond_lastTransitionTime :=
               (if cond_status x = cond_status n then cond_lastTransitionTime x else t)\<rparr> # xs
      else x # mem_setCondition t xs n)"

definition mem_client :: "('x mem_scheme) client" where
  "mem_client = \<lparr>client_Get = mem_Get, client_Delete = mem_Delete,
     client_CreateOrUpdate = mem_CreateOrUpdate, client_GetWorkspace = mem_GetWorkspace,
     client_ListWorkspaces = (\<lambda>s. (Inr (mem_workspaces s), s)),
     client_UpdateWorkspace = (\<lambda>w s. (Inr (), mem_replace w s)),
     client_PatchStatus = (\<lambda>b w s. (Inr (), mem_replace w s)),
     client_CreateReview = (\<lambda>r s. (Inr (sar_user r \<in> set (mem_clusterAdmins s)), s)),
     client_SetControllerReference = mem_SetControllerReference,
     client_SetStatusCondition = (\<lambda>s. mem_setCondition (mem_clock s))\<rparr>"

lemma persisted_mem_persist: "persisted ob (mem_persist t ob)"
  by (simp add: persisted_def mem_persist_def)

lemma mem_lookup_upd:
  assumes "om_creationTimestamp (o_meta st) \<noteq> 0" and "mem_objs s' = (mem_objs s)(r := Some st)"
  shows "mem_lookup s' = (mem_lookup s)(r := Some st)"
  using assms by (auto simp: mem_lookup_def mem_persist_def fun_eq_iff)

lemma mem_persist_created: "om_creationTimestamp (o_meta (mem_persist t ob)) \<noteq> 0"
  by (simp add: mem_persist_def)

lemma mem_write:
  assumes "mem_CreateOrUpdate ob f s = (Inr u, s')"
  shows "\<exists>ob' st. f (current (mem_lookup s) ob) = Inr ob' \<and> persisted ob' st \<and>
           mem_lookup s' = (mem_lookup s)(objref_of ob := Some st)"
proof -
  obtain ob' where f: "f (current (mem_lookup s) ob) = Inr ob'"
    and s': "s' = s\<lparr>mem_objs := (mem_objs s)(objref_of ob \<mapsto> mem_persist (mem_clock s) ob'),
                          mem_clock := Suc (mem_clock s)\<rparr>"
    using assms by (auto simp: mem_CreateOrUpdate_def split: sum.splits if_splits)
  then have "mem_lookup s' = (mem_lookup s)(objref_of ob := Some (mem_persist (mem_clock s) ob'))"
    by (intro mem_lookup_upd) (simp_all add: mem_persist_created)
  with f show ?thesis using persisted_mem_persist by blast
qed

lemma mem_write_failed:
  assumes "mem_CreateOrUpdate ob f s = (Inl e, s')"
  shows "s' = s" and "f (current (mem_lookup s) ob) = Inl e' \<Longrightarrow> e = e'"
    and "f (current (mem_lookup s) ob) = Inr ob' \<Longrightarrow> \<exists>a. e = APIError a"
  using assms by (auto simp: mem_CreateOrUpdate_def split: sum.splits if_splits)

lemma mem_delete:
  assumes "mem_Delete r s = (Inr u, s')"
  shows "mem_lookup s' = (mem_lookup s)(r := None)"
  using assms by (auto simp: mem_Delete_def mem_lookup_def fun_eq_iff split: option.splits)

lemma mem_owner:
  assumes "mem_SetControllerReference w ob = Inr ob'"
  shows "\<exists>rs. ob' = ob\<lparr>o_meta := (o_meta ob)\<lparr>om_owners := rs\<rparr>\<rparr> \<and> owned_by (ws_uid w) ob'"
  using assms by (auto simp: mem_SetControllerReference_def owned_by_def split: if_splits)

interpretation mem_server: kube_api_up mem_client mem_lookup
proof
  fix r s res s'
  show "client_Get mem_client r s = (res, s') \<Longrightarrow> mem_lookup s' = mem_lookup s"
    by (simp add: mem_client_def mem_Get_def)
next
  fix ob f s and e :: error and s' e'
  assume "client_CreateOrUpdate mem_client ob f s = (Inl e, s')"
    and "f (current (mem_lookup s) ob) = Inl e'"
  then show "e = e' \<or> (\<exists>a. e = APIError a)"
    by (simp add: mem_client_def mem_write_failed(2))
next
  fix r s
  show "fst (client_Delete mem_client r s) = Inr () \<or>
        (\<exists>m. fst (client_Delete mem_client r s) = Inl (NotFound m))"
    by (auto simp: mem_client_def mem_Delete_def split: option.splits)
next
  fix s r ob
  assume "mem_lookup s r = Some ob"
  then show "om_creationTimestamp (o_meta ob) \<noteq> 0"
    by (auto simp: mem_lookup_def mem_persist_def)
next
  fix f :: "Object \<Rightarrow> error + Object" and s ob ob'
  assume "f (current (mem_lookup s) ob) = Inr ob'"
    and "om_namespace (o_meta ob) = [] \<or>
         mem_lookup s (NamespaceK, [], om_namespace (o_meta ob)) \<noteq> None"
  then show "fst (client_CreateOrUpdate mem_client ob f s) = Inr ()"
    by (auto simp: mem_client_def mem_CreateOrUpdate_def mem_lookup_def)
next
  fix ob f s u s'
  assume "client_CreateOrUpdate mem_client ob f s = (Inr u, s')"
  then show "\<exists>ob' st. f (current (mem_lookup s) ob) = Inr ob' \<and> persisted ob' st \<and>
      mem_lookup s' = (mem_lookup s)(objref_of ob := Some st)"
    by (intro mem_write) (simp add: mem_client_def)
qed (auto simp: mem_client_def mem_Get_def mem_lookup_def mem_persist_created mem_Delete_def
      mem_SetControllerReference_def owned_by_def
      dest: mem_write_failed split: option.splits if_splits)

interpretation mem_cluster: kube_cluster mem_client mem_lookup
  by unfold_locales
     (auto simp: mem_client_def mem_GetWorkspace_def mem_replace_def mem_lookup_def fun_eq_iff)

lemma mem_setCondition_types: "set (map cond_type (mem_setCondition t cs n)) = insert (cond_type n) (set (map cond_type cs))"
  by (induction t cs n rule: mem_setCondition.induct) auto

lemma mem_setCondition_distinct:
  "distinct (map cond_type cs) \<Longrightarrow> distinct (map cond_type (mem_setCondition t cs n))"
  by (induction t cs n rule: mem_setCondition.induct) (auto simp: mem_setCondition_types [simplified])

lemma mem_setCondition_has: "\<exists>a \<in> set (mem_setCondition t cs n). agrees a n"
  by (induction t cs n rule: mem_setCondition.induct) (auto simp: agrees_def)

lemma agreesD: "agrees a n \<Longrightarrow> cond_type a = cond_type n \<and> cond_status a = cond_status n \<and>
    n\<lparr>cond_lastTransitionTime := cond_lastTransitionTime a\<rparr> = a"
  by (cases a; cases n) (simp add: agrees_def)

lemma mem_setCondition_fix:
  "distinct (map cond_type cs) \<Longrightarrow> a \<in> set cs \<Longrightarrow> agrees a n \<Longrightarrow> mem_setCondition t cs n = cs"
proof (induction t cs n rule: mem_setCondition.induct)
  case (2 t x xs n)
  show ?case
  proof (cases "cond_type x = cond_type n")
    case True
    have "cond_type x \<notin> cond_type ` set xs" using 2(2) by simp
    moreover have "cond_type a = cond_type x" using agreesD [OF 2(4)] True by simp
    ultimately have "a \<notin> set xs" by (metis imageI)
    with 2(3) have "a = x" by simp
    with True 2 show ?thesis using agreesD [of x n] by simp
  next
    case False
    with 2 have "a \<in> set xs" using agreesD [of a n] by auto
    with False 2 show ?thesis by simp
  qed
qed simp

interpretation mem_conditions: condition_api mem_client
  by unfold_locales
     (simp_all add: mem_client_def mem_setCondition_has mem_setCondition_distinct mem_setCondition_fix)

end
