(* ===== verification/Helpers.thy ===== *)
theory Helpers
  imports Kube_Client
begin

text \<open>
  The names, labels and lookups every component shares: \<open>src/internal/labels/labels.go\<close>,
  \<open>src/internal/workspace/helpers.go\<close>, \<open>src/internal/workspace/config.go\<close>, and the shape common to the
  components that keep one object in step with the specification.
\<close>

section \<open>labels.go\<close>

definition labels_Name :: string where [go_consts]: "labels_Name = ''app.kubernetes.io/name''"
definition labels_Component :: string where [go_consts]: "labels_Component = ''app.kubernetes.io/component''"
definition labels_PartOf :: string where [go_consts]: "labels_PartOf = ''app.kubernetes.io/part-of''"
definition labels_ManagedBy :: string where [go_consts]: "labels_ManagedBy = ''app.kubernetes.io/managed-by''"
definition labels_Version :: string where [go_consts]: "labels_Version = ''app.kubernetes.io/version''"
definition labels_System :: string where [go_consts]: "labels_System = ''otterscale-system''"
definition labels_Operator :: string where [go_consts]: "labels_Operator = ''tenant-operator''"

definition Standard :: "string \<Rightarrow> string \<Rightarrow> string \<Rightarrow> strmap" where
  "Standard name component version =
     (let m = fmap_of_list [(labels_Name, name), (labels_Component, component),
                (labels_PartOf, labels_System), (labels_ManagedBy, labels_Operator)]
      in if version \<noteq> [] then fmupd labels_Version version m else m)"

section \<open>helpers.go\<close>

definition OperatorNamespace :: string where [go_consts]: "OperatorNamespace = ''otterscale-system''"
definition ServiceAccountName :: string where [go_consts]: "ServiceAccountName = ''workspace-deployer''"
definition RoleBindingName :: string where [go_consts]: "RoleBindingName = ''workspace-role-binding''"
definition ResourceQuotaName :: string where [go_consts]: "ResourceQuotaName = ''workspace-resource-quota''"
definition LimitRangeName :: string where [go_consts]: "LimitRangeName = ''workspace-limit-range''"
definition NetworkPolicyName :: string where [go_consts]: "NetworkPolicyName = ''workspace-network-policy''"
definition ImagePullSecretName :: string where [go_consts]: "ImagePullSecretName = ''workspace-image-pull-secret''"
definition HelmRepositoryName :: string where [go_consts]: "HelmRepositoryName = ''workspace-helm-repository''"
definition HarborDefaultProjectName :: string where [go_consts]: "HarborDefaultProjectName = ''library''"
definition LabelFromHarbor :: string where [go_consts]: "LabelFromHarbor = ''tenant.otterscale.io/from-harbor''"
definition LabelInternal :: string where [go_consts]: "LabelInternal = ''tenant.otterscale.io/internal''"
definition LabelWorkspaceNamespace :: string where
  [go_consts]: "LabelWorkspaceNamespace = ''tenant.otterscale.io/namespace''"
definition UserLabelPrefix :: string where [go_consts]: "UserLabelPrefix = ''user.otterscale.io/''"
definition clusterRoleKind :: string where [go_consts]: "clusterRoleKind = ''ClusterRole''"
definition ConditionTypeReady :: string where [go_consts]: "ConditionTypeReady = ''Ready''"

definition LabelsForWorkspace :: "string \<Rightarrow> string \<Rightarrow> strmap" where
  "LabelsForWorkspace workspace version = Standard workspace ''workspace'' version"

fun IsOwned :: "OwnerReference list \<Rightarrow> string \<Rightarrow> bool" where
  "IsOwned [] uid = False"
| "IsOwned (ref # refs) uid = (if or_uid ref = uid then True else IsOwned refs uid)"

section \<open>config.go\<close>

definition OperatorConfigName :: string where [go_consts]: "OperatorConfigName = ''tenant-operator-config''"

definition operatorConfigRef :: objref where
  "operatorConfigRef = (ConfigMapK, OperatorNamespace, OperatorConfigName)"

definition operatorConfigData :: "'s client \<Rightarrow> ('s, strmap) io" where
  "operatorConfigData c =
     onResult (kGet c operatorConfigRef)
       (\<lambda>err. if IsNotFound err then ret fmempty
              else fail (Wrapf ''reading operator ConfigMap %s: %w'' [OperatorNamespace @ ''/'' @ OperatorConfigName] err))
       (\<lambda>cm. ret (dataOf (o_body cm)))"

text \<open>The argument is the object's metadata, \<open>None\<close> for a nil object.\<close>

definition IsOperatorConfig :: "ObjectMeta option \<Rightarrow> bool" where
  "IsOperatorConfig obj = (case obj of None \<Rightarrow> False
     | Some m \<Rightarrow> om_name m = OperatorConfigName \<and> om_namespace m = OperatorNamespace)"

section \<open>Labels, owners, lookups\<close>

lemma label_keys_distinct [simp]:
  "labels_Name \<noteq> labels_Component" "labels_Name \<noteq> labels_PartOf" "labels_Name \<noteq> labels_ManagedBy"
  "labels_Name \<noteq> labels_Version" "labels_Component \<noteq> labels_Name" "labels_Component \<noteq> labels_PartOf"
  "labels_Component \<noteq> labels_ManagedBy" "labels_Component \<noteq> labels_Version" "labels_PartOf \<noteq> labels_Name"
  "labels_PartOf \<noteq> labels_Component" "labels_PartOf \<noteq> labels_ManagedBy" "labels_PartOf \<noteq> labels_Version"
  "labels_ManagedBy \<noteq> labels_Name" "labels_ManagedBy \<noteq> labels_Component" "labels_ManagedBy \<noteq> labels_PartOf"
  "labels_ManagedBy \<noteq> labels_Version" "labels_Version \<noteq> labels_Name" "labels_Version \<noteq> labels_Component"
  "labels_Version \<noteq> labels_PartOf" "labels_Version \<noteq> labels_ManagedBy"
  by (simp_all add: go_consts)

lemma LabelsForWorkspace_lookup:
  "fmlookup (LabelsForWorkspace w v) k =
     (if k = labels_Version \<and> v \<noteq> [] then Some v
      else if k = labels_Name then Some w
      else if k = labels_Component then Some ''workspace''
      else if k = labels_PartOf then Some labels_System
      else if k = labels_ManagedBy then Some labels_Operator else None)"
  by (simp add: LabelsForWorkspace_def Standard_def Let_def fmlookup_of_list)

lemma IsOwned_iff: "IsOwned refs uid \<longleftrightarrow> (\<exists>r \<in> set refs. or_uid r = uid)"
  by (induction refs) auto

lemma emits_operatorConfigData [emits_rules]:
  "P (EvGet operatorConfigRef) \<Longrightarrow> emits P (operatorConfigData c)"
  unfolding operatorConfigData_def by (intro emits_rules)

definition config_of :: "(objref \<Rightarrow> Object option) \<Rightarrow> strmap" where
  "config_of \<sigma> = (case \<sigma> operatorConfigRef of None \<Rightarrow> fmempty | Some cm \<Rightarrow> dataOf (o_body cm))"

context kube_api
begin

lemma hoare_operatorConfigData:
  "hoare (\<lambda>w. store w = \<sigma>) (operatorConfigData c)
     (\<lambda>m w. store w = \<sigma> \<and> m = config_of \<sigma>)
     (\<lambda>e w. store w = \<sigma> \<and> IsAPIError e)"
  unfolding operatorConfigData_def
  by (rule hoare_onResult [OF hoare_kGet])
     (auto simp: config_of_def intro!: hoare_ret hoare_fail)

end

section \<open>Scope of a component\<close>

text \<open>
  \<open>touches R H ev\<close>: the request only reads, or writes an object referenced in \<open>R\<close>, or is an HTTP
  request in \<open>H\<close>. \<open>only_changes R\<close>: the store differs in \<open>R\<close> at most.
\<close>

fun touches :: "objref set \<Rightarrow> http_request set \<Rightarrow> event \<Rightarrow> bool" where
  "touches R H (EvCreateOrUpdate r) \<longleftrightarrow> r \<in> R"
| "touches R H (EvDelete r) \<longleftrightarrow> r \<in> R"
| "touches R H (EvUpdateWorkspace _) \<longleftrightarrow> False"
| "touches R H (EvPatchStatus _ _) \<longleftrightarrow> False"
| "touches R H (EvHTTP q) \<longleftrightarrow> q \<in> H"
| "touches R H (EvCreateReview _) \<longleftrightarrow> False"
| "touches R H (EvRecord _ _ _ _) \<longleftrightarrow> False"
| "touches R H _ \<longleftrightarrow> True"

lemma touches_mono: "touches R H ev \<Longrightarrow> R \<subseteq> S \<Longrightarrow> H \<subseteq> G \<Longrightarrow> touches S G ev"
  by (cases ev) auto

definition only_changes ::
    "objref set \<Rightarrow> (objref \<Rightarrow> Object option) \<Rightarrow> (objref \<Rightarrow> Object option) \<Rightarrow> bool" where
  "only_changes R \<sigma> \<tau> \<longleftrightarrow> (\<forall>r. r \<notin> R \<longrightarrow> \<tau> r = \<sigma> r)"

lemma only_changes_refl [simp]: "only_changes R \<sigma> \<sigma>"
  by (simp add: only_changes_def)

lemma only_changes_upd [simp]: "r \<in> R \<Longrightarrow> only_changes R \<sigma> (\<sigma>(r := x))"
  by (auto simp: only_changes_def)

lemma only_changes_trans:
  "only_changes R \<sigma> \<tau> \<Longrightarrow> only_changes S \<tau> \<upsilon> \<Longrightarrow> only_changes (R \<union> S) \<sigma> \<upsilon>"
  by (auto simp: only_changes_def)

lemma only_changes_mono: "only_changes R \<sigma> \<tau> \<Longrightarrow> R \<subseteq> S \<Longrightarrow> only_changes S \<sigma> \<tau>"
  by (auto simp: only_changes_def)

lemma only_changesD: "only_changes R \<sigma> \<tau> \<Longrightarrow> r \<notin> R \<Longrightarrow> \<tau> r = \<sigma> r"
  unfolding only_changes_def by blast

text \<open>A statement about the store that changes inside \<open>R\<close> cannot invalidate.\<close>

definition stable :: "objref set \<Rightarrow> ((objref \<Rightarrow> Object option) \<Rightarrow> bool) \<Rightarrow> bool" where
  "stable R I \<longleftrightarrow> (\<forall>\<sigma> \<tau>. only_changes R \<sigma> \<tau> \<longrightarrow> I \<sigma> \<longrightarrow> I \<tau>)"

lemma stableI: "(\<And>\<sigma> \<tau>. only_changes R \<sigma> \<tau> \<Longrightarrow> I \<sigma> \<Longrightarrow> I \<tau>) \<Longrightarrow> stable R I"
  unfolding stable_def by blast

lemma stableD: "stable R I \<Longrightarrow> only_changes R \<sigma> \<tau> \<Longrightarrow> I \<sigma> \<Longrightarrow> I \<tau>"
  unfolding stable_def by blast

lemma stable_conj [intro]: "stable R I \<Longrightarrow> stable R J \<Longrightarrow> stable R (\<lambda>\<sigma>. I \<sigma> \<and> J \<sigma>)"
  unfolding stable_def by blast

lemma stable_only_changes [intro]: "R \<subseteq> S \<Longrightarrow> stable R (only_changes S \<sigma>)"
proof (rule stableI)
  fix \<sigma>' \<tau>
  assume "R \<subseteq> S" and "only_changes R \<sigma>' \<tau>" and "only_changes S \<sigma> \<sigma>'"
  then have "only_changes (S \<union> R) \<sigma> \<tau>" and "S \<union> R = S" by (auto intro: only_changes_trans)
  then show "only_changes S \<sigma> \<tau>" by simp
qed

text \<open>What every object the operator manages for a workspace carries.\<close>

definition managed :: "Workspace \<Rightarrow> strmap \<Rightarrow> Object \<Rightarrow> bool" where
  "managed w labels ob \<longleftrightarrow> om_labels (o_meta ob) = labels \<and> owned_by (ws_uid w) ob"

section \<open>Writing a managed object\<close>

text \<open>
  Every component that keeps an object in step hands \<open>CreateOrUpdate\<close> a closure that overwrites the
  labels, sets the content and calls \<open>SetControllerReference\<close>. \<open>stamp\<close> is that closure, for the
  labels \<open>l\<close> and the assignment \<open>g\<close> to the content.
\<close>

definition stamp :: "'s client \<Rightarrow> Workspace \<Rightarrow> strmap \<Rightarrow> (body \<Rightarrow> body) \<Rightarrow> Object \<Rightarrow> error + Object" where
  "stamp c w l g ob = client_SetControllerReference c w
     (ob\<lparr>o_meta := (o_meta ob)\<lparr>om_labels := l\<rparr>, o_body := g (o_body ob)\<rparr>)"

lemma newObject_simps [simp]:
  "om_creationTimestamp (o_meta (newObject r)) = 0" "om_owners (o_meta (newObject r)) = []"
  "om_labels (o_meta (newObject r)) = fmempty" "o_body (newObject (k, ns, n)) = zero_body k"
  by (cases r; simp add: newObject_def zero_meta_def)+

lemma current_cases:
  obtains (absent) "\<sigma> r = None" "current \<sigma> (newObject r) = newObject r"
        | (present) "\<sigma> r = Some (current \<sigma> (newObject r))"
  by (cases "\<sigma> r") (simp_all add: current_def)

lemma current_newObject: "current \<sigma> (newObject r) = (case \<sigma> r of None \<Rightarrow> newObject r | Some ob \<Rightarrow> ob)"
  by (simp add: current_def)

text \<open>Every stored object has a creation time.\<close>

definition created :: "(objref \<Rightarrow> Object option) \<Rightarrow> bool" where
  "created \<sigma> \<longleftrightarrow> (\<forall>r ob. \<sigma> r = Some ob \<longrightarrow> om_creationTimestamp (o_meta ob) \<noteq> 0)"

lemma createdD: "created \<sigma> \<Longrightarrow> \<sigma> r = Some ob \<Longrightarrow> om_creationTimestamp (o_meta ob) \<noteq> 0"
  unfolding created_def by blast

context kube_api
begin

lemma created_store: "created (store s)"
  unfolding created_def using stored_created by blast

lemma stamp_result:
  assumes "stamp c w l g ob = Inr ob'"
  shows "managed w l ob' \<and> o_body ob' = g (o_body ob)"
  using owner_set [OF assms [unfolded stamp_def]] by (auto simp: managed_def)

lemma hoare_stamp:
  "hoare (\<lambda>w'. store w' = \<sigma>) (kCreateOrUpdate c r (stamp c w l g))
     (\<lambda>_ w'. \<exists>st. store w' = \<sigma>(r := Some st) \<and> managed w l st \<and>
        o_body st = g (o_body (current \<sigma> (newObject r))))
     (\<lambda>e w'. store w' = \<sigma> \<and> AsNamespaceConflict e = None)"
proof (rule hoare_conseq [OF hoare_kCreateOrUpdate])
  fix w'
  assume "\<exists>ob' st. stamp c w l g (current \<sigma> (newObject r)) = Inr ob' \<and> persisted ob' st \<and>
    store w' = \<sigma>(r := Some st)"
  then obtain ob' st where "stamp c w l g (current \<sigma> (newObject r)) = Inr ob'"
    and p: "persisted ob' st" and s: "store w' = \<sigma>(r := Some st)" by blast
  then have "managed w l ob' \<and> o_body ob' = g (o_body (current \<sigma> (newObject r)))"
    by (blast dest: stamp_result)
  with p s show "\<exists>st. store w' = \<sigma>(r := Some st) \<and> managed w l st \<and>
      o_body st = g (o_body (current \<sigma> (newObject r)))"
    by (auto simp: persisted_def managed_def owned_by_def)
next
  fix e w'
  assume "store w' = \<sigma> \<and> (case stamp c w l g (current \<sigma> (newObject r)) of
      Inl e' \<Rightarrow> e = e' \<or> (\<exists>a. e = APIError a) | Inr _ \<Rightarrow> \<exists>a. e = APIError a)"
  then show "store w' = \<sigma> \<and> AsNamespaceConflict e = None"
    by (auto simp: stamp_def owner_error split: sum.splits)
qed simp

text \<open>A loop that brings one object after another into its wanted state.\<close>

lemma hoare_forEach_objects:
  assumes step: "\<And>\<sigma> x. hoare (\<lambda>v. store v = \<sigma>) (f x)
       (\<lambda>_ v. \<exists>y. store v = \<sigma>(ref x := y) \<and> good x y) (\<lambda>_ v. store v = \<sigma>)"
    and "distinct (map ref xs)"
  shows "hoare (\<lambda>v. store v = \<sigma>) (forEach f xs)
     (\<lambda>_ v. list_all (\<lambda>x. good x (store v (ref x))) xs \<and> only_changes (ref ` set xs) \<sigma> (store v))
     (\<lambda>_ v. only_changes (ref ` set xs) \<sigma> (store v))"
  using assms(2)
proof (induction xs arbitrary: \<sigma>)
  case Nil
  show ?case by (auto intro: hoare_ret)
next
  case (Cons x xs)
  show ?case
    unfolding forEach.simps
  proof (rule hoare_seq [OF step [of \<sigma> x]])
    fix u :: unit
    let ?post = "\<lambda>v. list_all (\<lambda>x. good x (store v (ref x))) (x # xs) \<and> only_changes (ref ` set (x # xs)) \<sigma> (store v)"
    show "hoare (\<lambda>v. \<exists>y. store v = \<sigma>(ref x := y) \<and> good x y) (forEach f xs)
       (\<lambda>_. ?post) (\<lambda>_ v. only_changes (ref ` set (x # xs)) \<sigma> (store v))"
    proof (rule hoare_ex, rule hoare_pure, rule hoare_conseq [OF Cons.IH])
      fix y and u :: unit and v
      assume ok: "good x y"
        and v: "list_all (\<lambda>x. good x (store v (ref x))) xs \<and> only_changes (ref ` set xs) (\<sigma>(ref x := y)) (store v)"
      with Cons.prems have "store v (ref x) = y"
        using only_changesD [of "ref ` set xs" "\<sigma>(ref x := y)" "store v" "ref x"] by auto
      with ok v show "?post v" by (auto simp: only_changes_def)
    qed (use Cons.prems in \<open>auto simp: only_changes_def\<close>)
  qed auto
qed

end

context kube_api_up
begin

lemma stamp_succeeds:
  assumes "controllable_by (ws_uid w) (current (store (world s)) (newObject (k, ns, n)))"
    and "ns = [] \<or> store (world s) (NamespaceK, [], ns) \<noteq> None"
  obtains s' where "kCreateOrUpdate c (k, ns, n) (stamp c w l g) s = (Inr (), s')"
proof -
  let ?ob = "current (store (world s)) (newObject (k, ns, n))"
  have "controllable_by (ws_uid w) (?ob\<lparr>o_meta := (o_meta ?ob)\<lparr>om_labels := l\<rparr>, o_body := g (o_body ?ob)\<rparr>)"
    using assms(1) by (simp add: controllable_by_def)
  then obtain ob' where "stamp c w l g ?ob = Inr ob'"
    using owner_free unfolding stamp_def by blast
  with assms(2) that show ?thesis by (blast elim: kCreateOrUpdate_succeeds)
qed

end

section \<open>The contract of a component\<close>

text \<open>
  What the controller relies on in each resource component it runs: the component writes only inside
  its scope, whatever the API server answers; every reference in its scope belongs to the workspace's
  namespace or is that namespace; and against an API server that keeps its promises, a successful run
  establishes \<open>ok\<close>, a statement about the objects in \<open>reads\<close> only.
\<close>

definition own_ref :: "Workspace \<Rightarrow> objref \<Rightarrow> bool" where
  "own_ref w r = (case r of (k, ns, n) \<Rightarrow>
     ns = ws_namespace w \<and> k \<noteq> NamespaceK \<or> k = NamespaceK \<and> ns = [] \<and> n = ws_namespace w)"

locale resource_component =
  fixes step :: "'s client \<Rightarrow> Workspace \<Rightarrow> string \<Rightarrow> ('s, unit) io"
    and scope :: "Workspace \<Rightarrow> objref set"
    and reads :: "Workspace \<Rightarrow> objref set"
    and ok :: "Workspace \<Rightarrow> string \<Rightarrow> (objref \<Rightarrow> Object option) \<Rightarrow> bool"
  assumes writes_in_scope: "emits (touches (scope w) {}) (step c w version)"
    and scope_own: "r \<in> scope w \<Longrightarrow> own_ref w r"
    and establishes: "kube_api c store \<Longrightarrow> created \<sigma> \<Longrightarrow>
      hoare (\<lambda>v. store v = \<sigma>) (step c w version)
        (\<lambda>_ v. ok w version (store v) \<and> only_changes (scope w) \<sigma> (store v))
        (\<lambda>_ v. only_changes (scope w) \<sigma> (store v))"
    and ok_local: "ok w version \<sigma> \<Longrightarrow> (\<And>r. r \<in> reads w \<Longrightarrow> \<tau> r = \<sigma> r) \<Longrightarrow> ok w version \<tau>"
begin

text \<open>Running the component keeps any fact about objects outside its scope and adds \<open>ok\<close>.\<close>

lemma run_keeping:
  assumes api: "kube_api c store" and I: "stable (scope w) I"
  shows "hoare (\<lambda>v. I (store v)) (step c w version)
     (\<lambda>_ v. I (store v) \<and> ok w version (store v)) (\<lambda>_ v. I (store v))"
proof (rule hoareI)
  fix s :: "'s st" and u s'
  assume "I (store (world s))" and "step c w version s = (Inr u, s')"
  then show "I (store (world s')) \<and> ok w version (store (world s'))"
    using hoareD [OF establishes [OF api kube_api.created_store [OF api], of "world s"]] stableD [OF I] by blast
next
  fix s :: "'s st" and e s'
  assume "I (store (world s))" and "step c w version s = (Inl e, s')"
  then show "I (store (world s'))"
    using hoare_errD [OF establishes [OF api kube_api.created_store [OF api], of "world s"]] stableD [OF I] by blast
qed

lemma ok_outside:
  assumes "ok w version \<sigma>" and "only_changes R \<sigma> \<tau>" and "reads w \<inter> R = {}"
  shows "ok w version \<tau>"
  using assms(1) by (rule ok_local) (use assms(2,3) only_changesD in blast)

lemma stable_ok: "reads w \<inter> R = {} \<Longrightarrow> stable R (ok w version)"
  by (rule stableI) (rule ok_outside)

lemma frame:
  assumes "kube_api c store" and "step c w version s = (res, s')" and "\<not> own_ref w r"
  shows "store (world s') r = store (world s) r"
proof -
  note E = establishes [OF assms(1) kube_api.created_store [OF assms(1)], of "world s" w version]
  have "only_changes (scope w) (store (world s)) (store (world s'))"
    using hoareD [OF E refl] hoare_errD [OF E refl] assms(2) by (cases res) auto
  then show ?thesis using assms(3) scope_own by (blast dest: only_changesD)
qed

end

end
