(* ===== verification/Samples.thy ===== *)
theory Samples
  imports Helpers
begin

text \<open>
  Concrete inputs for the witnesses: a workspace in the shape of
  \<open>src/config/samples/tenant_v1alpha1_workspace.yaml\<close>, and in-memory clusters.
\<close>

definition alice :: WorkspaceMember where
  "alice = \<lparr>m_role = MemberRoleAdmin, m_subject = ''alice'', m_name = Some ''Alice'', m_serviceAccount = False\<rparr>"

definition bob :: WorkspaceMember where
  "bob = \<lparr>m_role = MemberRoleEdit, m_subject = ''bob'', m_name = None, m_serviceAccount = False\<rparr>"

definition reporter :: WorkspaceMember where
  "reporter = \<lparr>m_role = MemberRoleView, m_subject = ''ci-reporter'', m_name = None, m_serviceAccount = True\<rparr>"

definition empty_status :: WorkspaceStatus where
  "empty_status = \<lparr>st_observedGeneration = 0, st_namespaceRef = None, st_resourceQuotaRef = None,
     st_limitRangeRef = None, st_roleBindingRefs = [], st_networkPolicyRef = None,
     st_imagePullSecretRef = None, st_helmRepositoryRef = None, st_conditions = []\<rparr>"

definition sample_spec :: WorkspaceSpec where
  "sample_spec = \<lparr>spec_namespace = ''team-alpha'', spec_members = [alice, bob, reporter],
     spec_resourceQuota = Some (ResourceQuotaSpec ''requests.cpu=4''), spec_limitRange = None,
     spec_networkIsolation = \<lparr>ni_enabled = True, ni_allowedNamespaces = [''monitoring'']\<rparr>\<rparr>"

definition sample_meta :: ObjectMeta where
  "sample_meta = \<lparr>om_name = ''sample'', om_namespace = [], om_uid = ''uid-1'',
     om_labels = fmap_of_list [(LabelWorkspaceNamespace, ''team-alpha'')], om_annotations = fmempty,
     om_owners = [], om_creationTimestamp = 1, om_deletionTimestamp = 0, om_generation = 1\<rparr>"

definition sample_ws :: Workspace where
  "sample_ws = \<lparr>ws_meta = sample_meta, ws_spec = sample_spec, ws_status = empty_status\<rparr>"

lemma sample_simps [simp]:
  "ws_name sample_ws = ''sample''" "ws_uid sample_ws = ''uid-1''"
  "spec_namespace sample_spec = ''team-alpha''" "spec_members sample_spec = [alice, bob, reporter]"
  "ws_spec sample_ws = sample_spec" "om_owners (ws_meta sample_ws) = []"
  "spec_resourceQuota sample_spec = Some (ResourceQuotaSpec ''requests.cpu=4'')"
  "spec_limitRange sample_spec = None"
  "ni_enabled (spec_networkIsolation sample_spec) = True"
  "ni_allowedNamespaces (spec_networkIsolation sample_spec) = [''monitoring'']"
  by (simp_all add: sample_ws_def sample_meta_def sample_spec_def)

definition mem_world :: "(objref \<times> Object) list \<Rightarrow> mem" where
  "mem_world obs = \<lparr>mem_objs = map_of obs, mem_workspaces = [sample_ws], mem_clock = 1,
     mem_clusterAdmins = []\<rparr>"

definition start :: "(objref \<times> Object) list \<Rightarrow> mem st" where
  "start obs = \<lparr>world = mem_world obs, trace = []\<rparr>"

text \<open>A namespace some other controller created.\<close>

definition foreign_namespace :: Object where
  "foreign_namespace = \<lparr>o_meta = (zero_meta [] ''team-alpha'')\<lparr>om_uid := ''uid-9'', om_creationTimestamp := 5\<rparr>,
     o_body = NamespaceB\<rparr>"

text \<open>The namespace of the sample workspace as a restore puts it back: labelled, ownerless.\<close>

definition restored_namespace :: Object where
  "restored_namespace = \<lparr>o_meta = (zero_meta [] ''team-alpha'')\<lparr>om_uid := ''uid-8'',
       om_labels := LabelsForWorkspace ''sample'' ''v1'', om_creationTimestamp := 5\<rparr>,
     o_body = NamespaceB\<rparr>"

lemma start_simps [simp]:
  "world (start obs) = mem_world obs" "trace (start obs) = []"
  "mem_lookup (mem_world obs) r = map_option (mem_persist 0) (map_of obs r)"
  "mem_workspaces (mem_world obs) = [sample_ws]"
  by (simp_all add: start_def mem_world_def mem_lookup_def)

end
