(* ===== verification/Namespaces.thy ===== *)
theory Namespaces
  imports Samples
begin

text \<open>
  \<open>src/internal/workspace/namespace.go\<close>: the tenant namespace, its ownership and its adoption after a
  restore. Admission (\<open>ValidateNamespaceAvailable\<close>) and reconcile (\<open>ReconcileNamespace\<close>) must agree on
  which existing namespaces a workspace may take.
\<close>

section \<open>Definitions\<close>

definition rancherProjectIDAnnotation :: string where
  [go_consts]: "rancherProjectIDAnnotation = ''field.cattle.io/projectId''"
definition RancherProjectIDKey :: string where [go_consts]: "RancherProjectIDKey = ''RancherProjectID''"

definition podSecurityLabels :: strmap where
  "podSecurityLabels = fmap_of_list
     [(''pod-security.kubernetes.io/enforce'', ''baseline''),
      (''pod-security.kubernetes.io/warn'', ''restricted''),
      (''pod-security.kubernetes.io/audit'', ''restricted'')]"

abbreviation namespaceRef :: "string \<Rightarrow> objref" where
  "namespaceRef ns \<equiv> (NamespaceK, [], ns)"

definition hasWorkspaceIdentityLabels :: "strmap \<Rightarrow> string \<Rightarrow> bool" where
  "hasWorkspaceIdentityLabels namespaceLabels workspace =
     fmpred (\<lambda>key val. mapGet namespaceLabels key = val) (LabelsForWorkspace workspace [])"

definition ValidateNamespaceAvailable :: "'s client \<Rightarrow> Workspace \<Rightarrow> ('s, unit) io" where
  "ValidateNamespaceAvailable reader ws =
     onResult (kGet reader (namespaceRef (ws_namespace ws)))
       (\<lambda>err. if IsNotFound err then ret ()
              else fail (Wrapf ''checking whether namespace %q is available: %w'' [ws_namespace ws] err))
       (\<lambda>namespace.
          if om_deletionTimestamp (o_meta namespace) \<noteq> 0
          then fail (Errorf ''namespace %q is terminating: wait for the deletion to finish, then retry''
                       [ws_namespace ws])
          else if om_owners (o_meta namespace) = [] \<and>
                  hasWorkspaceIdentityLabels (om_labels (o_meta namespace)) (ws_name ws)
          then ret ()
          else fail (Errorf ''namespace %q already exists: a workspace creates its own namespace, so choose a different spec.namespace or leave it empty to have one generated''
                       [ws_namespace ws]))"

text \<open>The closure \<open>ReconcileNamespace\<close> passes to \<open>CreateOrUpdate\<close>.\<close>

definition namespaceMutate :: "'s client \<Rightarrow> Workspace \<Rightarrow> string \<Rightarrow> string \<Rightarrow> Object \<Rightarrow> error + Object" where
  "namespaceMutate c w version rancherProjectID namespace =
     (let m = o_meta namespace;
          adoptable = om_owners m = [] \<and> hasWorkspaceIdentityLabels (om_labels m) (ws_name w)
      in if \<not> IsOwned (om_owners m) (ws_uid w) \<and> om_creationTimestamp m \<noteq> 0 \<and> \<not> adoptable
         then Inl (NamespaceConflictError (om_name m))
         else
           let m1 = m\<lparr>om_labels := om_labels m ++\<^sub>f LabelsForWorkspace (ws_name w) version ++\<^sub>f podSecurityLabels\<rparr>;
               m2 = (if rancherProjectID \<noteq> []
                     then m1\<lparr>om_annotations := fmupd rancherProjectIDAnnotation rancherProjectID (om_annotations m1)\<rparr>
                     else m1)
           in client_SetControllerReference c w (namespace\<lparr>o_meta := m2\<rparr>))"

definition ReconcileNamespace :: "'s client \<Rightarrow> Workspace \<Rightarrow> string \<Rightarrow> ('s, unit) io" where
  "ReconcileNamespace c w version =
     andThen (operatorConfigData c) (\<lambda>globalConfig.
       let rancherProjectID = mapGet globalConfig RancherProjectIDKey in
       wrapErr ''reconciling Namespace %q: %w'' [ws_namespace w]
         (kCreateOrUpdate c (namespaceRef (ws_namespace w)) (namespaceMutate c w version rancherProjectID)))"

section \<open>Identity labels\<close>

lemma hasWorkspaceIdentityLabels_iff:
  "hasWorkspaceIdentityLabels l n \<longleftrightarrow>
     mapGet l labels_Name = n \<and> mapGet l labels_Component = ''workspace'' \<and>
     mapGet l labels_PartOf = labels_System \<and> mapGet l labels_ManagedBy = labels_Operator"
  (is "?L \<longleftrightarrow> ?R")
proof
  assume ?L
  then have *: "mapGet l k = v" if "fmlookup (LabelsForWorkspace n []) k = Some v" for k v
    using that unfolding hasWorkspaceIdentityLabels_def by (rule fmpredD)
  show ?R
    using * [of labels_Name] * [of labels_Component] * [of labels_PartOf] * [of labels_ManagedBy]
    by (simp add: LabelsForWorkspace_lookup)
next
  assume ?R
  then show ?L
    unfolding hasWorkspaceIdentityLabels_def
    by (intro fmpredI) (simp add: LabelsForWorkspace_lookup split: if_splits)
qed

lemma podSecurityLabels_lookup:
  "fmlookup podSecurityLabels k =
     (if k = ''pod-security.kubernetes.io/enforce'' then Some ''baseline''
      else if k = ''pod-security.kubernetes.io/warn'' then Some ''restricted''
      else if k = ''pod-security.kubernetes.io/audit'' then Some ''restricted'' else None)"
  by (auto simp: podSecurityLabels_def fmlookup_of_list)

text \<open>
  A namespace that exists and that reconcile must leave alone: some owner reference but not this
  workspace's UID, or no owner and not this workspace's labels.
\<close>

definition foreign :: "Workspace \<Rightarrow> Object \<Rightarrow> bool" where
  "foreign w ob \<longleftrightarrow> \<not> IsOwned (om_owners (o_meta ob)) (ws_uid w) \<and>
     \<not> (om_owners (o_meta ob) = [] \<and> hasWorkspaceIdentityLabels (om_labels (o_meta ob)) (ws_name w))"

text \<open>What reconcile guarantees of the namespace.\<close>

definition namespace_ready :: "Workspace \<Rightarrow> string \<Rightarrow> string \<Rightarrow> Object \<Rightarrow> bool" where
  "namespace_ready w version project ob \<longleftrightarrow>
     owned_by (ws_uid w) ob \<and>
     (\<forall>k v. fmlookup (LabelsForWorkspace (ws_name w) version) k = Some v \<longrightarrow>
        fmlookup (om_labels (o_meta ob)) k = Some v) \<and>
     (\<forall>k v. fmlookup podSecurityLabels k = Some v \<longrightarrow> fmlookup (om_labels (o_meta ob)) k = Some v) \<and>
     (project \<noteq> [] \<longrightarrow> fmlookup (om_annotations (o_meta ob)) rancherProjectIDAnnotation = Some project)"

lemma namespaceMutate_foreign:
  "foreign w ob \<Longrightarrow> om_creationTimestamp (o_meta ob) \<noteq> 0 \<Longrightarrow>
     namespaceMutate c w version p ob = Inl (NamespaceConflictError (om_name (o_meta ob)))"
  by (auto simp: namespaceMutate_def foreign_def Let_def)

lemma labels_disjoint:
  "fmlookup (LabelsForWorkspace n version) k = Some v \<Longrightarrow> fmlookup podSecurityLabels k = None"
  by (auto simp: LabelsForWorkspace_lookup podSecurityLabels_lookup go_consts split: if_splits)

context kube_api
begin

lemma namespaceMutate_ok:
  assumes "namespaceMutate c w version p ob = Inr ob'"
  shows "namespace_ready w version p ob'"
    and "\<not> foreign w ob \<or> om_creationTimestamp (o_meta ob) = 0"
    and "\<And>k. fmlookup (LabelsForWorkspace (ws_name w) version) k = None \<Longrightarrow>
           fmlookup podSecurityLabels k = None \<Longrightarrow>
           fmlookup (om_labels (o_meta ob')) k = fmlookup (om_labels (o_meta ob)) k"
proof -
  let ?l = "om_labels (o_meta ob) ++\<^sub>f LabelsForWorkspace (ws_name w) version ++\<^sub>f podSecurityLabels"
  let ?m1 = "(o_meta ob)\<lparr>om_labels := ?l\<rparr>"
  let ?m2 = "if p \<noteq> [] then ?m1\<lparr>om_annotations := fmupd rancherProjectIDAnnotation p (om_annotations ?m1)\<rparr> else ?m1"
  have f: "\<not> foreign w ob \<or> om_creationTimestamp (o_meta ob) = 0"
    using assms namespaceMutate_foreign [of w ob c version p] by auto
  then show "\<not> foreign w ob \<or> om_creationTimestamp (o_meta ob) = 0" .
  from assms f have "client_SetControllerReference c w (ob\<lparr>o_meta := ?m2\<rparr>) = Inr ob'"
    by (auto simp: namespaceMutate_def Let_def foreign_def split: if_splits)
  then obtain rs where ob': "ob' = ob\<lparr>o_meta := ?m2\<lparr>om_owners := rs\<rparr>\<rparr>" and o: "owned_by (ws_uid w) ob'"
    using owner_set by force
  then have l: "om_labels (o_meta ob') = ?l"
    and a: "p \<noteq> [] \<Longrightarrow> fmlookup (om_annotations (o_meta ob')) rancherProjectIDAnnotation = Some p"
    by simp_all
  show "namespace_ready w version p ob'"
    using o a by (auto simp: namespace_ready_def l labels_disjoint fmlookup_dom_iff
        dest: labels_disjoint)
  fix k
  assume "fmlookup (LabelsForWorkspace (ws_name w) version) k = None"
    and "fmlookup podSecurityLabels k = None"
  then show "fmlookup (om_labels (o_meta ob')) k = fmlookup (om_labels (o_meta ob)) k"
    by (simp add: l fmdom_notI)
qed

lemma hoare_namespaceMutate:
  assumes "created \<sigma>"
  shows "hoare (\<lambda>w'. store w' = \<sigma>)
     (kCreateOrUpdate c (namespaceRef (ws_namespace w)) (namespaceMutate c w version p))
     (\<lambda>_ w'. \<exists>st. store w' = \<sigma>(namespaceRef (ws_namespace w) := Some st) \<and>
        namespace_ready w version p st \<and>
        (\<forall>ob. \<sigma> (namespaceRef (ws_namespace w)) = Some ob \<longrightarrow> \<not> foreign w ob))
     (\<lambda>e w'. store w' = \<sigma> \<and>
        (if \<exists>ob. \<sigma> (namespaceRef (ws_namespace w)) = Some ob \<and> foreign w ob
         then AsNamespaceConflict e \<noteq> None \<or> IsAPIError e else AsNamespaceConflict e = None))"
  (is "hoare _ (kCreateOrUpdate c ?r ?f) _ _")
proof (rule hoare_conseq [OF hoare_kCreateOrUpdate])
  let ?cur = "current \<sigma> (newObject ?r)"
  fix w'
  assume "\<exists>ob' st. ?f ?cur = Inr ob' \<and> persisted ob' st \<and> store w' = \<sigma>(?r := Some st)"
  then obtain ob' st where f: "?f ?cur = Inr ob'" and st: "persisted ob' st"
    and w': "store w' = \<sigma>(?r := Some st)" by blast
  from namespaceMutate_ok(1) [OF f] st have "namespace_ready w version p st"
    by (simp add: namespace_ready_def persisted_def owned_by_def)
  moreover have "\<not> foreign w ob" if "\<sigma> ?r = Some ob" for ob
    using that namespaceMutate_ok(2) [OF f] createdD [OF assms that]
    by (cases rule: current_cases [of \<sigma> ?r]) auto
  ultimately show "\<exists>st. store w' = \<sigma>(?r := Some st) \<and> namespace_ready w version p st \<and>
      (\<forall>ob. \<sigma> ?r = Some ob \<longrightarrow> \<not> foreign w ob)" using w' by blast
next
  let ?cur = "current \<sigma> (newObject ?r)"
  fix e w'
  assume "store w' = \<sigma> \<and> (case ?f ?cur of Inl e' \<Rightarrow> e = e' \<or> (\<exists>a. e = APIError a)
      | Inr _ \<Rightarrow> \<exists>a. e = APIError a)"
  moreover have "if \<exists>ob. \<sigma> ?r = Some ob \<and> foreign w ob
      then AsNamespaceConflict e \<noteq> None \<or> IsAPIError e else AsNamespaceConflict e = None"
    if "?f ?cur = Inl e" for e
    using that owner_error createdD [OF assms]
    by (cases rule: current_cases [of \<sigma> ?r])
       (auto simp: namespaceMutate_def Let_def foreign_def split: if_splits)
  moreover have "\<not> (\<exists>ob. \<sigma> ?r = Some ob \<and> foreign w ob)" if "?f ?cur = Inr ob'" for ob'
    using namespaceMutate_ok(2) [OF that] createdD [OF assms]
    by (cases rule: current_cases [of \<sigma> ?r]) auto
  ultimately show "store w' = \<sigma> \<and> (if \<exists>ob. \<sigma> ?r = Some ob \<and> foreign w ob
      then AsNamespaceConflict e \<noteq> None \<or> IsAPIError e else AsNamespaceConflict e = None)"
    by (auto split: sum.splits)
qed simp

lemma hoare_ReconcileNamespace:
  assumes "created \<sigma>"
  shows "hoare (\<lambda>w'. store w' = \<sigma>) (ReconcileNamespace c w version)
     (\<lambda>_ w'. \<exists>st. store w' = \<sigma>(namespaceRef (ws_namespace w) := Some st) \<and>
        namespace_ready w version (mapGet (config_of \<sigma>) RancherProjectIDKey) st \<and>
        (\<forall>ob. \<sigma> (namespaceRef (ws_namespace w)) = Some ob \<longrightarrow> \<not> foreign w ob))
     (\<lambda>e w'. store w' = \<sigma> \<and>
        (if \<exists>ob. \<sigma> (namespaceRef (ws_namespace w)) = Some ob \<and> foreign w ob
         then AsNamespaceConflict e \<noteq> None \<or> IsAPIError e else AsNamespaceConflict e = None))"
  unfolding ReconcileNamespace_def Let_def
  by (rule hoare_seq [OF hoare_operatorConfigData], simp add: IsAPIError_no_conflict,
      rule hoare_pure, rule hoare_wrapErr, simp, rule hoare_namespaceMutate [OF assms])
     (simp cong: if_cong)

end

section \<open>The component contract\<close>

definition namespace_ok :: "Workspace \<Rightarrow> string \<Rightarrow> (objref \<Rightarrow> Object option) \<Rightarrow> bool" where
  "namespace_ok w version \<sigma> \<longleftrightarrow>
     (\<exists>st. \<sigma> (namespaceRef (ws_namespace w)) = Some st \<and>
        namespace_ready w version (mapGet (config_of \<sigma>) RancherProjectIDKey) st)"

lemma config_of_upd: "r \<noteq> operatorConfigRef \<Longrightarrow> config_of (\<sigma>(r := x)) = config_of \<sigma>"
  by (simp add: config_of_def)

lemma namespaceRef_not_config [simp]: "namespaceRef n \<noteq> operatorConfigRef"
  by (simp add: operatorConfigRef_def)

interpretation tenant_namespace: resource_component ReconcileNamespace
    "\<lambda>w. {namespaceRef (ws_namespace w)}" "\<lambda>w. {namespaceRef (ws_namespace w), operatorConfigRef}" namespace_ok
proof
  fix w version and c :: "'a client"
  show "emits (touches {namespaceRef (ws_namespace w)} {}) (ReconcileNamespace c w version)"
    unfolding ReconcileNamespace_def Let_def by (intro emits_rules) simp_all
next
  fix w version \<sigma> and c :: "'a client" and store
  assume api: "kube_api c store" "created \<sigma>"
  show "hoare (\<lambda>v. store v = \<sigma>) (ReconcileNamespace c w version)
      (\<lambda>_ v. namespace_ok w version (store v) \<and> only_changes {namespaceRef (ws_namespace w)} \<sigma> (store v))
      (\<lambda>_ v. only_changes {namespaceRef (ws_namespace w)} \<sigma> (store v))"
    by (rule hoare_conseq [OF kube_api.hoare_ReconcileNamespace [OF api]])
       (auto simp: namespace_ok_def config_of_upd)
qed (auto simp: own_ref_def namespace_ok_def config_of_def)

section \<open>Properties\<close>

text \<open>
  C7: a namespace that already exists and belongs to someone else is never taken over. Whatever the
  run does, the cluster is left as it was and the result is an error: the permanent conflict the
  controller does not retry, or a failure of the API itself.
\<close>

theorem namespace_never_taken_over:
  assumes "kube_api c store"
    and "store (world s) (namespaceRef (ws_namespace w)) = Some ob" and "foreign w ob"
    and "ReconcileNamespace c w version s = (res, s')"
  shows "\<exists>e. res = Inl e \<and> store (world s') = store (world s) \<and>
           (AsNamespaceConflict e \<noteq> None \<or> IsAPIError e)"
proof -
  note H = kube_api.hoare_ReconcileNamespace [OF assms(1) kube_api.created_store [OF assms(1)],
      of "world s" w version]
  show ?thesis
  proof (cases res)
    case (Inl e)
    then show ?thesis using hoare_errD [OF H, of s] assms(2-4) by (auto split: if_splits)
  next
    case (Inr u)
    then show ?thesis using hoareD [OF H, of s] assms(2-4) by auto
  qed
qed

theorem namespace_never_taken_over_witness:
  "\<exists>e s'. ReconcileNamespace mem_client sample_ws ''v1'' (start [(namespaceRef ''team-alpha'', foreign_namespace)])
            = (Inl e, s') \<and> mem_lookup (world s') = mem_lookup (mem_world [(namespaceRef ''team-alpha'', foreign_namespace)])"
proof -
  let ?s = "start [(namespaceRef ''team-alpha'', foreign_namespace)]"
  obtain res s' where r: "ReconcileNamespace mem_client sample_ws ''v1'' ?s = (res, s')" by fastforce
  have "foreign sample_ws (mem_persist 0 foreign_namespace)"
    by (simp add: foreign_def foreign_namespace_def zero_meta_def mem_persist_def
        hasWorkspaceIdentityLabels_iff)
  then show ?thesis
    using namespace_never_taken_over [OF mem_server.kube_api_axioms _ _ r] r by auto
qed

text \<open>
  When the run succeeds, the namespace exists, is controlled by the workspace, carries the
  standard labels, the Pod Security labels and (when one is configured) the Rancher project
  annotation; it was not foreign before, and no other object changed.
\<close>

theorem namespace_reconciled:
  assumes "kube_api c store" and "ReconcileNamespace c w version s = (Inr u, s')"
  shows "\<exists>st. store (world s') = (store (world s))(namespaceRef (ws_namespace w) := Some st) \<and>
           namespace_ready w version (mapGet (config_of (store (world s))) RancherProjectIDKey) st \<and>
           (\<forall>ob. store (world s) (namespaceRef (ws_namespace w)) = Some ob \<longrightarrow> \<not> foreign w ob)"
  using hoareD [OF kube_api.hoare_ReconcileNamespace [OF assms(1) kube_api.created_store [OF assms(1)],
      of "world s" w version] refl assms(2)] .

theorem namespace_reconciled_witness:
  "\<exists>s' st. ReconcileNamespace mem_client sample_ws ''v1'' (start [(namespaceRef ''team-alpha'', restored_namespace)]) = (Inr (), s') \<and>
     mem_lookup (world s') (namespaceRef ''team-alpha'') = Some st \<and> namespace_ready sample_ws ''v1'' [] st"
proof -
  let ?s = "start [(namespaceRef ''team-alpha'', restored_namespace)]"
  have "\<not> isl (fst (ReconcileNamespace mem_client sample_ws ''v1'' ?s))" by code_simp
  then obtain u s' where r: "ReconcileNamespace mem_client sample_ws ''v1'' ?s = (Inr u, s')" by (rule run_okE)
  have "mapGet (config_of (mem_lookup (world ?s))) RancherProjectIDKey = []"
    by (simp add: config_of_def operatorConfigRef_def)
  with namespace_reconciled [OF mem_server.kube_api_axioms r] r show ?thesis by auto
qed

text \<open>
  C26: admission and reconcile agree. Once \<open>ValidateNamespaceAvailable\<close> has let a workspace through,
  no reconcile that finds the cluster as admission saw it ends in the permanent namespace conflict.
\<close>

theorem admitted_namespace_never_conflicts:
  assumes "kube_api c store" and "ValidateNamespaceAvailable c ws s = (Inr (), s')"
    and "store (world t) = store (world s')"
    and "ws_name w = ws_name ws" and "ws_namespace w = ws_namespace ws"
    and "ReconcileNamespace c w version t = (res, t')"
  shows "case res of Inl e \<Rightarrow> AsNamespaceConflict e = None | Inr _ \<Rightarrow> True"
proof -
  have *: "hoare (\<lambda>v. store v = store (world s)) (ValidateNamespaceAvailable c ws)
     (\<lambda>_ v. store v = store (world s) \<and>
        (\<forall>ob. store (world s) (namespaceRef (ws_namespace ws)) = Some ob \<longrightarrow> \<not> foreign w ob))
     (\<lambda>_ _. True)"
    unfolding ValidateNamespaceAvailable_def
    by (rule hoare_onResult [OF kube_api.hoare_kGet [OF assms(1)]])
       (auto simp: foreign_def assms(4) intro!: hoare_ret hoare_fail)
  have "store (world t) = store (world s)"
    and "\<And>ob. store (world s) (namespaceRef (ws_namespace w)) = Some ob \<Longrightarrow> \<not> foreign w ob"
    using hoareD [OF * refl assms(2)] assms(3,5) by simp_all
  then show ?thesis
    using hoare_errD [OF kube_api.hoare_ReconcileNamespace [OF assms(1) kube_api.created_store [OF assms(1)],
        of "world t" w version] refl] assms(6) by (cases res) (auto split: if_splits)
qed

theorem admitted_namespace_never_conflicts_witness:
  "\<exists>res t'. ReconcileNamespace mem_client sample_ws ''v1'' (start [(namespaceRef ''team-alpha'', restored_namespace)]) = (res, t') \<and>
     (case res of Inl e \<Rightarrow> AsNamespaceConflict e = None | Inr _ \<Rightarrow> True)"
proof -
  let ?s = "start [(namespaceRef ''team-alpha'', restored_namespace)]"
  have "\<not> isl (fst (ValidateNamespaceAvailable mem_client sample_ws ?s))" by code_simp
  then obtain u s' where v: "ValidateNamespaceAvailable mem_client sample_ws ?s = (Inr (), s')" by (auto elim: run_okE)
  have "world s' = world ?s"
    using v by (auto simp: ValidateNamespaceAvailable_def onResult_def kGet_def apiCall_def request_def mem_client_def mem_Get_def
        ret_def fail_def split: if_splits option.splits)
  then have w: "mem_lookup (world ?s) = mem_lookup (world s')" by simp
  obtain res t' where r: "ReconcileNamespace mem_client sample_ws ''v1'' ?s = (res, t')" by fastforce
  from admitted_namespace_never_conflicts [OF mem_server.kube_api_axioms v w refl refl r] r show ?thesis by blast
qed

end
