(* ===== verification/Rbac.thy ===== *)
theory Rbac
  imports Samples
begin

text \<open>
  \<open>src/internal/workspace/rbac.go\<close> and \<open>src/internal/workspace/service_account.go\<close>: one RoleBinding per
  role in use, and the service account Flux impersonates together with its binding.
\<close>

section \<open>rbac.go\<close>

definition roleBindingRef :: "Workspace \<Rightarrow> MemberRole \<Rightarrow> objref" where
  "roleBindingRef w role = (RoleBindingK, ws_namespace w, RoleBindingName @ ''-'' @ role)"

definition memberSubject :: "WorkspaceMember \<Rightarrow> Subject" where
  "memberSubject m = \<lparr>sub_kind = UserKind, sub_apiGroup = RbacGroup, sub_name = m_subject m, sub_namespace = []\<rparr>"

definition clusterRoleRef :: "string \<Rightarrow> RoleRef" where
  "clusterRoleRef n = \<lparr>rr_kind = clusterRoleKind, rr_apiGroup = RbacGroup, rr_name = n\<rparr>"

definition reconcileRoleBinding ::
    "'s client \<Rightarrow> Workspace \<Rightarrow> string \<Rightarrow> MemberRole \<Rightarrow> WorkspaceMember list \<Rightarrow> ('s, unit) io" where
  "reconcileRoleBinding c w version role members =
     (let binding = roleBindingRef w role in
      if length members = 0
      then wrapErr ''deleting RoleBinding for role %q: %w'' [role] (ignoreNotFound (kDelete c binding))
      else wrapErr ''reconciling RoleBinding for role %q: %w'' [role]
             (kCreateOrUpdate c binding
                (stamp c w (LabelsForWorkspace (ws_name w) version)
                   (\<lambda>_. RoleBindingB (map memberSubject members) (clusterRoleRef role)))))"

fun groupMembers ::
    "WorkspaceMember list \<Rightarrow> (MemberRole, WorkspaceMember list) fmap \<Rightarrow> (MemberRole, WorkspaceMember list) fmap" where
  "groupMembers [] m = m"
| "groupMembers (member # rest) m =
     groupMembers rest (fmupd (m_role member)
       ((case fmlookup m (m_role member) of None \<Rightarrow> [] | Some ms \<Rightarrow> ms) @ [member]) m)"

definition ReconcileRoleBindings :: "'s client \<Rightarrow> Workspace \<Rightarrow> string \<Rightarrow> ('s, unit) io" where
  "ReconcileRoleBindings c w version =
     (let membersByRole = groupMembers (ws_members w) fmempty in
      forEach (\<lambda>role. reconcileRoleBinding c w version role
                 (case fmlookup membersByRole role of None \<Rightarrow> [] | Some ms \<Rightarrow> ms)) AllMemberRoles)"

section \<open>service\_account.go\<close>

definition serviceAccountRef :: "Workspace \<Rightarrow> objref" where
  "serviceAccountRef w = (ServiceAccountK, ws_namespace w, ServiceAccountName)"

definition serviceAccountBindingRef :: "Workspace \<Rightarrow> objref" where
  "serviceAccountBindingRef w = (RoleBindingK, ws_namespace w, ServiceAccountName)"

definition deployerSubject :: "Workspace \<Rightarrow> Subject" where
  "deployerSubject w = \<lparr>sub_kind = ServiceAccountKind, sub_apiGroup = CoreGroup,
     sub_name = ServiceAccountName, sub_namespace = ws_namespace w\<rparr>"

definition ReconcileServiceAccount :: "'s client \<Rightarrow> Workspace \<Rightarrow> string \<Rightarrow> ('s, unit) io" where
  "ReconcileServiceAccount c w version =
     andThen
       (wrapErr ''reconciling ServiceAccount %q: %w'' [ServiceAccountName]
          (kCreateOrUpdate c (serviceAccountRef w)
             (stamp c w (LabelsForWorkspace (ws_name w) version) (\<lambda>b. b))))
       (\<lambda>_. wrapErr ''reconciling RoleBinding %q: %w'' [ServiceAccountName]
          (kCreateOrUpdate c (serviceAccountBindingRef w)
             (stamp c w (LabelsForWorkspace (ws_name w) version)
                (\<lambda>_. RoleBindingB [deployerSubject w] (clusterRoleRef MemberRoleAdmin)))))"

section \<open>Grouping\<close>

abbreviation with_role :: "MemberRole \<Rightarrow> WorkspaceMember list \<Rightarrow> WorkspaceMember list" where
  "with_role role ms \<equiv> filter (\<lambda>m. m_role m = role) ms"

lemma groupMembers_lookup:
  "(case fmlookup (groupMembers ms g) role of None \<Rightarrow> [] | Some xs \<Rightarrow> xs) =
     (case fmlookup g role of None \<Rightarrow> [] | Some xs \<Rightarrow> xs) @ with_role role ms"
  by (induction ms arbitrary: g) (auto split: option.splits)

lemma ReconcileRoleBindings_alt:
  "ReconcileRoleBindings c w version =
     forEach (\<lambda>role. reconcileRoleBinding c w version role (with_role role (ws_members w))) AllMemberRoles"
  by (simp add: ReconcileRoleBindings_def groupMembers_lookup)

lemma roleBindingRef_inj [simp]: "roleBindingRef w r = roleBindingRef w r' \<longleftrightarrow> r = r'"
  by (simp add: roleBindingRef_def)

lemma roleBindingRef_image [simp]: "roleBindingRef w r \<in> roleBindingRef w ` A \<longleftrightarrow> r \<in> A"
  by auto

text \<open>
  The binding of a role as the specification wants it: absent when nobody has the role, otherwise
  exactly the members with that role, in specification order, bound to the ClusterRole of its name.
\<close>

definition binding_ok :: "Workspace \<Rightarrow> string \<Rightarrow> MemberRole \<Rightarrow> Object option \<Rightarrow> bool" where
  "binding_ok w version role ob \<longleftrightarrow>
     (if with_role role (ws_members w) = [] then ob = None
      else \<exists>st. ob = Some st \<and> managed w (LabelsForWorkspace (ws_name w) version) st \<and>
        o_body st = RoleBindingB (map memberSubject (with_role role (ws_members w))) (clusterRoleRef role))"

definition bindings_ok :: "Workspace \<Rightarrow> string \<Rightarrow> (objref \<Rightarrow> Object option) \<Rightarrow> bool" where
  "bindings_ok w version \<sigma> \<longleftrightarrow>
     list_all (\<lambda>role. binding_ok w version role (\<sigma> (roleBindingRef w role))) AllMemberRoles"

definition bindings_scope :: "Workspace \<Rightarrow> objref set" where
  "bindings_scope w = roleBindingRef w ` set AllMemberRoles"

definition deployer_scope :: "Workspace \<Rightarrow> objref set" where
  "deployer_scope w = {serviceAccountRef w, serviceAccountBindingRef w}"

definition deployer_ok :: "Workspace \<Rightarrow> string \<Rightarrow> (objref \<Rightarrow> Object option) \<Rightarrow> bool" where
  "deployer_ok w version \<sigma> \<longleftrightarrow>
     (\<exists>sa. \<sigma> (serviceAccountRef w) = Some sa \<and> managed w (LabelsForWorkspace (ws_name w) version) sa) \<and>
     (\<exists>b. \<sigma> (serviceAccountBindingRef w) = Some b \<and> managed w (LabelsForWorkspace (ws_name w) version) b \<and>
        o_body b = RoleBindingB [deployerSubject w] (clusterRoleRef MemberRoleAdmin))"

context kube_api
begin

lemma hoare_reconcileRoleBinding:
  "hoare (\<lambda>v. store v = \<sigma>) (reconcileRoleBinding c w version role (with_role role (ws_members w)))
     (\<lambda>_ v. \<exists>x. store v = \<sigma>(roleBindingRef w role := x) \<and> binding_ok w version role x)
     (\<lambda>_ v. store v = \<sigma>)"
proof (cases "with_role role (ws_members w) = []")
  case True
  then show ?thesis
    unfolding reconcileRoleBinding_def Let_def
    by (simp, intro hoare_wrap hoare_conseq [OF hoare_delete_ignoring_absence [of \<sigma>]])
       (auto simp: binding_ok_def)
next
  case False
  then show ?thesis
    unfolding reconcileRoleBinding_def Let_def
    by (simp, intro hoare_wrap hoare_conseq [OF hoare_stamp [of \<sigma>]]) (auto simp: binding_ok_def)
qed

lemma hoare_ReconcileRoleBindings:
  "hoare (\<lambda>v. store v = \<sigma>) (ReconcileRoleBindings c w version)
     (\<lambda>_ v. bindings_ok w version (store v) \<and> only_changes (bindings_scope w) \<sigma> (store v))
     (\<lambda>_ v. only_changes (bindings_scope w) \<sigma> (store v))"
  unfolding ReconcileRoleBindings_alt bindings_ok_def bindings_scope_def
  by (rule hoare_forEach_objects [OF hoare_reconcileRoleBinding])
     (simp add: distinct_map distinct_AllMemberRoles inj_on_def)

lemma hoare_ReconcileServiceAccount:
  "hoare (\<lambda>v. store v = \<sigma>) (ReconcileServiceAccount c w version)
     (\<lambda>_ v. deployer_ok w version (store v) \<and> only_changes (deployer_scope w) \<sigma> (store v))
     (\<lambda>_ v. only_changes (deployer_scope w) \<sigma> (store v))"
  unfolding ReconcileServiceAccount_def
  by (rule hoare_seq_wrapErr [OF hoare_stamp [of \<sigma>]], simp, rule hoare_ex, rule hoare_pure,
      rule hoare_wrap, rule hoare_conseq [OF hoare_stamp])
     (auto simp: deployer_ok_def deployer_scope_def only_changes_def serviceAccountRef_def
        serviceAccountBindingRef_def)

end

section \<open>The component contracts\<close>

lemma RoleBindingName_not_deployer: "RoleBindingName @ ''-'' @ role \<noteq> ServiceAccountName"
  by (simp add: go_consts)

interpretation role_bindings: resource_component ReconcileRoleBindings bindings_scope bindings_scope bindings_ok
proof
  fix w version and c :: "'a client"
  show "emits (touches (bindings_scope w) {}) (ReconcileRoleBindings c w version)"
    unfolding ReconcileRoleBindings_alt reconcileRoleBinding_def Let_def
    by (intro emits_rules) (auto simp: bindings_scope_def)
qed (rule kube_api.hoare_ReconcileRoleBindings, assumption |
     (auto simp: bindings_scope_def bindings_ok_def own_ref_def roleBindingRef_def list_all_iff)[1])+

interpretation deployer: resource_component ReconcileServiceAccount deployer_scope deployer_scope deployer_ok
proof
  fix w version and c :: "'a client"
  show "emits (touches (deployer_scope w) {}) (ReconcileServiceAccount c w version)"
    unfolding ReconcileServiceAccount_def
    by (intro emits_rules) (auto simp: deployer_scope_def)
qed (rule kube_api.hoare_ReconcileServiceAccount, assumption |
     (auto simp: deployer_ok_def deployer_scope_def own_ref_def serviceAccountRef_def
       serviceAccountBindingRef_def)[1])+

section \<open>Properties\<close>

text \<open>Who holds a ClusterRole in the workspace namespace through the operator's member bindings.\<close>

definition granted :: "(objref \<Rightarrow> Object option) \<Rightarrow> Workspace \<Rightarrow> MemberRole \<Rightarrow> string \<Rightarrow> bool" where
  "granted \<sigma> w role user = (case \<sigma> (roleBindingRef w role) of
       Some ob \<Rightarrow> (case o_body ob of
           RoleBindingB subjects ref \<Rightarrow> ref = clusterRoleRef role \<and>
             list_ex (\<lambda>s. sub_kind s = UserKind \<and> sub_name s = user) subjects
         | _ \<Rightarrow> False)
     | None \<Rightarrow> False)"

lemma granted_binding_ok:
  "binding_ok w version role (\<sigma> (roleBindingRef w role)) \<Longrightarrow>
     granted \<sigma> w role user \<longleftrightarrow> (\<exists>m \<in> set (ws_members w). m_role m = role \<and> m_subject m = user)"
  by (auto simp: granted_def binding_ok_def list_ex_iff memberSubject_def filter_empty_conv
      split: if_splits)

text \<open>
  C8: after a successful run, for each of the three roles the users bound to it are exactly the
  members the specification lists with that role. A member that was removed or re-roled loses the
  old grant, a role nobody has keeps no binding, and no other object changed.
\<close>

theorem members_hold_exactly_their_roles:
  assumes "kube_api c store" and "ReconcileRoleBindings c w version s = (Inr u, s')"
    and "role \<in> set AllMemberRoles"
  shows "(granted (store (world s')) w role user \<longleftrightarrow>
            (\<exists>m \<in> set (ws_members w). m_role m = role \<and> m_subject m = user)) \<and>
         ((\<forall>m \<in> set (ws_members w). m_role m \<noteq> role) \<longrightarrow> store (world s') (roleBindingRef w role) = None) \<and>
         only_changes (bindings_scope w) (store (world s)) (store (world s'))"
proof -
  have "bindings_ok w version (store (world s')) \<and>
      only_changes (bindings_scope w) (store (world s)) (store (world s'))"
    using hoareD [OF role_bindings.establishes [OF assms(1) kube_api.created_store [OF assms(1)]] refl assms(2)] .
  then have "binding_ok w version role (store (world s') (roleBindingRef w role))"
    and "only_changes (bindings_scope w) (store (world s)) (store (world s'))"
    using assms(3) by (auto simp: bindings_ok_def list_all_iff)
  then show ?thesis
    using granted_binding_ok by (auto simp: binding_ok_def filter_empty_conv split: if_splits)
qed

theorem members_hold_exactly_their_roles_witness:
  "\<exists>s'. ReconcileRoleBindings mem_client sample_ws ''v1'' (start [((NamespaceK, [], ''team-alpha''), restored_namespace)])
          = (Inr (), s') \<and>
        granted (mem_lookup (world s')) sample_ws MemberRoleAdmin ''alice'' \<and>
        \<not> granted (mem_lookup (world s')) sample_ws MemberRoleAdmin ''bob''"
proof -
  let ?s = "start [((NamespaceK, [], ''team-alpha''), restored_namespace)]"
  have "\<not> isl (fst (ReconcileRoleBindings mem_client sample_ws ''v1'' ?s))" by code_simp
  then obtain u s' where r: "ReconcileRoleBindings mem_client sample_ws ''v1'' ?s = (Inr u, s')"
    by (rule run_okE)
  have a: "MemberRoleAdmin \<in> set AllMemberRoles" by (simp add: set_AllMemberRoles)
  show ?thesis
    using members_hold_exactly_their_roles [OF mem_server.kube_api_axioms r a] r
    by (auto simp: alice_def bob_def reporter_def)
qed

end
