(* ===== verification/Constraints.thy ===== *)
theory Constraints
  imports Samples
begin

text \<open>
  \<open>src/internal/workspace/resource_constraints.go\<close> and \<open>src/internal/workspace/network_isolation.go\<close>:
  quota, limit range and network policy, each present exactly when the specification asks for it.
\<close>

section \<open>resource\_constraints.go\<close>

definition resourceQuotaRef :: "Workspace \<Rightarrow> objref" where
  "resourceQuotaRef w = (ResourceQuotaK, ws_namespace w, ResourceQuotaName)"

definition ReconcileResourceQuota :: "'s client \<Rightarrow> Workspace \<Rightarrow> string \<Rightarrow> ('s, unit) io" where
  "ReconcileResourceQuota c w version =
     (case spec_resourceQuota (ws_spec w) of
        None \<Rightarrow> wrapErr ''deleting ResourceQuota: %w'' [] (ignoreNotFound (kDelete c (resourceQuotaRef w)))
      | Some quotaSpec \<Rightarrow>
          wrapErr ''reconciling ResourceQuota: %w'' []
            (kCreateOrUpdate c (resourceQuotaRef w)
               (stamp c w (LabelsForWorkspace (ws_name w) version) (\<lambda>_. ResourceQuotaB quotaSpec))))"

definition limitRangeRef :: "Workspace \<Rightarrow> objref" where
  "limitRangeRef w = (LimitRangeK, ws_namespace w, LimitRangeName)"

definition ReconcileLimitRange :: "'s client \<Rightarrow> Workspace \<Rightarrow> string \<Rightarrow> ('s, unit) io" where
  "ReconcileLimitRange c w version =
     (case spec_limitRange (ws_spec w) of
        None \<Rightarrow> wrapErr ''deleting LimitRange: %w'' [] (ignoreNotFound (kDelete c (limitRangeRef w)))
      | Some limitsSpec \<Rightarrow>
          wrapErr ''reconciling LimitRange: %w'' []
            (kCreateOrUpdate c (limitRangeRef w)
               (stamp c w (LabelsForWorkspace (ws_name w) version) (\<lambda>_. LimitRangeB limitsSpec))))"

section \<open>network\_isolation.go\<close>

definition networkPolicyRef :: "Workspace \<Rightarrow> objref" where
  "networkPolicyRef w = (NetworkPolicyK, ws_namespace w, NetworkPolicyName)"

definition metadataNameLabel :: string where
  [go_consts]: "metadataNameLabel = ''kubernetes.io/metadata.name''"

text \<open>The first rule admits every pod of the policy's own namespace; one more rule per allowed one.\<close>

fun appendAllowed :: "string list \<Rightarrow> NetworkPolicyPeer list list \<Rightarrow> NetworkPolicyPeer list list" where
  "appendAllowed [] ingressRules = ingressRules"
| "appendAllowed (namespace # rest) ingressRules =
     appendAllowed rest (ingressRules @
       [[\<lparr>peer_podSelector = None,
          peer_namespaceSelector = Some (fmap_of_list [(metadataNameLabel, namespace)])\<rparr>]])"

definition isolationPolicy :: "Workspace \<Rightarrow> NetworkPolicySpec" where
  "isolationPolicy w =
     (let ingressRules = [[\<lparr>peer_podSelector = Some fmempty, peer_namespaceSelector = None\<rparr>]]
      in \<lparr>np_podSelector = fmempty, np_policyTypes = [PolicyTypeIngress],
          np_ingress = appendAllowed (ni_allowedNamespaces (spec_networkIsolation (ws_spec w))) ingressRules\<rparr>)"

definition ReconcileNetworkIsolation :: "'s client \<Rightarrow> Workspace \<Rightarrow> string \<Rightarrow> ('s, unit) io" where
  "ReconcileNetworkIsolation c w version =
     (if \<not> ni_enabled (spec_networkIsolation (ws_spec w))
      then wrapErr ''deleting NetworkPolicy: %w'' [] (ignoreNotFound (kDelete c (networkPolicyRef w)))
      else wrapErr ''reconciling NetworkPolicy: %w'' []
             (kCreateOrUpdate c (networkPolicyRef w)
                (stamp c w (LabelsForWorkspace (ws_name w) version) (\<lambda>_. NetworkPolicyB (isolationPolicy w)))))"

section \<open>One optional object\<close>

text \<open>
  The three operations have one shape: an object of fixed name that is written with the wanted
  content, or deleted when none is wanted.
\<close>

definition syncOptional :: "string \<Rightarrow> string \<Rightarrow> 's client \<Rightarrow> Workspace \<Rightarrow> string \<Rightarrow> objref \<Rightarrow> body option \<Rightarrow> ('s, unit) io" where
  "syncOptional del upd c w version r wanted =
     (case wanted of
        None \<Rightarrow> wrapErr del [] (ignoreNotFound (kDelete c r))
      | Some b \<Rightarrow> wrapErr upd []
          (kCreateOrUpdate c r (stamp c w (LabelsForWorkspace (ws_name w) version) (\<lambda>_. b))))"

definition optional_ok :: "Workspace \<Rightarrow> string \<Rightarrow> objref \<Rightarrow> body option \<Rightarrow> (objref \<Rightarrow> Object option) \<Rightarrow> bool" where
  "optional_ok w version r wanted \<sigma> =
     (case wanted of None \<Rightarrow> \<sigma> r = None
      | Some b \<Rightarrow> (\<exists>st. \<sigma> r = Some st \<and> managed w (LabelsForWorkspace (ws_name w) version) st \<and> o_body st = b))"

definition wantedQuota :: "Workspace \<Rightarrow> body option" where
  "wantedQuota w = map_option ResourceQuotaB (spec_resourceQuota (ws_spec w))"

definition wantedLimits :: "Workspace \<Rightarrow> body option" where
  "wantedLimits w = map_option LimitRangeB (spec_limitRange (ws_spec w))"

definition wantedPolicy :: "Workspace \<Rightarrow> body option" where
  "wantedPolicy w = (if ni_enabled (spec_networkIsolation (ws_spec w)) then Some (NetworkPolicyB (isolationPolicy w)) else None)"

lemma syncOptional_unfold:
  "ReconcileResourceQuota c w version = syncOptional ''deleting ResourceQuota: %w'' ''reconciling ResourceQuota: %w''
     c w version (resourceQuotaRef w) (wantedQuota w)"
  "ReconcileLimitRange c w version = syncOptional ''deleting LimitRange: %w'' ''reconciling LimitRange: %w''
     c w version (limitRangeRef w) (wantedLimits w)"
  "ReconcileNetworkIsolation c w version = syncOptional ''deleting NetworkPolicy: %w'' ''reconciling NetworkPolicy: %w''
     c w version (networkPolicyRef w) (wantedPolicy w)"
  by (simp_all add: ReconcileResourceQuota_def ReconcileLimitRange_def ReconcileNetworkIsolation_def
      syncOptional_def wantedQuota_def wantedLimits_def wantedPolicy_def split: option.splits)

lemma emits_syncOptional: "r \<in> R \<Longrightarrow> emits (touches R H) (syncOptional del upd c w version r wanted)"
  unfolding syncOptional_def by (intro emits_rules) simp_all

context kube_api
begin

lemma hoare_syncOptional:
  "hoare (\<lambda>v. store v = \<sigma>) (syncOptional del upd c w version r wanted)
     (\<lambda>_ v. optional_ok w version r wanted (store v) \<and> only_changes {r} \<sigma> (store v))
     (\<lambda>_ v. only_changes {r} \<sigma> (store v))"
proof (cases wanted)
  case None
  then show ?thesis
    unfolding syncOptional_def
    by (simp, intro hoare_wrap hoare_conseq [OF hoare_delete_ignoring_absence [of \<sigma>]])
       (auto simp: optional_ok_def)
next
  case (Some b)
  then show ?thesis
    unfolding syncOptional_def
    by (simp, intro hoare_wrap hoare_conseq [OF hoare_stamp [of \<sigma>]]) (auto simp: optional_ok_def)
qed

end

locale optional_object =
  fixes ref :: "Workspace \<Rightarrow> objref" and wanted :: "Workspace \<Rightarrow> body option"
    and del upd :: string
  assumes ref_own: "own_ref w (ref w)"
begin

lemma component:
  "resource_component (\<lambda>c w version. syncOptional del upd c w version (ref w) (wanted w))
     (\<lambda>w. {ref w}) (\<lambda>w. {ref w}) (\<lambda>w version. optional_ok w version (ref w) (wanted w))"
proof
  show "emits (touches {ref w} {}) (syncOptional del upd c w version (ref w) (wanted w))" for c w version
    by (simp add: emits_syncOptional)
  show "r \<in> {ref w} \<Longrightarrow> own_ref w r" for r w
    using ref_own by simp
qed (auto simp: kube_api.hoare_syncOptional, simp add: optional_ok_def split: option.splits)

end

interpretation quota_object: optional_object resourceQuotaRef wantedQuota
    "''deleting ResourceQuota: %w''" "''reconciling ResourceQuota: %w''"
  by unfold_locales (simp add: own_ref_def resourceQuotaRef_def)

interpretation limits_object: optional_object limitRangeRef wantedLimits
    "''deleting LimitRange: %w''" "''reconciling LimitRange: %w''"
  by unfold_locales (simp add: own_ref_def limitRangeRef_def)

interpretation policy_object: optional_object networkPolicyRef wantedPolicy
    "''deleting NetworkPolicy: %w''" "''reconciling NetworkPolicy: %w''"
  by unfold_locales (simp add: own_ref_def networkPolicyRef_def)

interpretation quota: resource_component ReconcileResourceQuota "\<lambda>w. {resourceQuotaRef w}" "\<lambda>w. {resourceQuotaRef w}"
    "\<lambda>w version. optional_ok w version (resourceQuotaRef w) (wantedQuota w)"
  using quota_object.component by (simp only: syncOptional_unfold [abs_def, symmetric])

interpretation limits: resource_component ReconcileLimitRange "\<lambda>w. {limitRangeRef w}" "\<lambda>w. {limitRangeRef w}"
    "\<lambda>w version. optional_ok w version (limitRangeRef w) (wantedLimits w)"
  using limits_object.component by (simp only: syncOptional_unfold [abs_def, symmetric])

interpretation isolation: resource_component ReconcileNetworkIsolation "\<lambda>w. {networkPolicyRef w}" "\<lambda>w. {networkPolicyRef w}"
    "\<lambda>w version. optional_ok w version (networkPolicyRef w) (wantedPolicy w)"
  using policy_object.component by (simp only: syncOptional_unfold [abs_def, symmetric])

section \<open>What a NetworkPolicy admits\<close>

text \<open>
  The documented meaning of an ingress policy: a connection is admitted when some peer of some rule
  matches its source. A peer without a namespace selector only matches sources in the policy's own
  namespace; a selector matches when every label it lists is present with that value.
\<close>

definition selects :: "LabelSelector \<Rightarrow> strmap \<Rightarrow> bool" where
  "selects sel labels \<longleftrightarrow> fmpred (\<lambda>k v. fmlookup labels k = Some v) sel"

definition peer_admits :: "string \<Rightarrow> NetworkPolicyPeer \<Rightarrow> string \<Rightarrow> strmap \<Rightarrow> strmap \<Rightarrow> bool" where
  "peer_admits policyNs peer srcNs srcNsLabels podLabels \<longleftrightarrow>
     (case peer_namespaceSelector peer of None \<Rightarrow> srcNs = policyNs | Some sel \<Rightarrow> selects sel srcNsLabels) \<and>
     (case peer_podSelector peer of None \<Rightarrow> True | Some sel \<Rightarrow> selects sel podLabels)"

definition ingress_admitted :: "string \<Rightarrow> NetworkPolicySpec \<Rightarrow> string \<Rightarrow> strmap \<Rightarrow> strmap \<Rightarrow> bool" where
  "ingress_admitted policyNs p srcNs srcNsLabels podLabels \<longleftrightarrow>
     PolicyTypeIngress \<notin> set (np_policyTypes p) \<or>
     list_ex (list_ex (\<lambda>peer. peer_admits policyNs peer srcNs srcNsLabels podLabels)) (np_ingress p)"

lemma selects_single [simp]: "selects (fmupd k v fmempty) labels \<longleftrightarrow> fmlookup labels k = Some v"
  by (auto simp: selects_def fmpred_iff)

lemma selects_empty [simp]: "selects fmempty labels"
  by (simp add: selects_def)

lemma appendAllowed_eq:
  "appendAllowed nss rules = rules @
     map (\<lambda>ns. [\<lparr>peer_podSelector = None,
                 peer_namespaceSelector = Some (fmap_of_list [(metadataNameLabel, ns)])\<rparr>]) nss"
  by (induction nss arbitrary: rules) simp_all

lemma isolationPolicy_admits:
  assumes "fmlookup srcNsLabels metadataNameLabel = Some srcNs"
  shows "ingress_admitted (ws_namespace w) (isolationPolicy w) srcNs srcNsLabels podLabels \<longleftrightarrow>
     srcNs = ws_namespace w \<or> srcNs \<in> set (ni_allowedNamespaces (spec_networkIsolation (ws_spec w)))"
  using assms
  by (auto simp: ingress_admitted_def isolationPolicy_def appendAllowed_eq peer_admits_def
      list_ex_iff Let_def)

text \<open>
  C9: after a successful run the workspace's network policy enforces the specification. With
  isolation enabled the policy is in place and admits exactly the sources in the workspace's own
  namespace and in the allowed namespaces (a source namespace carries its own name as the
  \<open>kubernetes.io/metadata.name\<close> label, which the API server sets); disabled, there is no policy.
\<close>

theorem isolation_admits_exactly_allowed:
  assumes "kube_api c store" and "ReconcileNetworkIsolation c w version s = (Inr u, s')"
    and "fmlookup srcNsLabels metadataNameLabel = Some srcNs"
  shows "if ni_enabled (spec_networkIsolation (ws_spec w))
         then \<exists>st p. store (world s') (networkPolicyRef w) = Some st \<and> o_body st = NetworkPolicyB p \<and>
                np_podSelector p = fmempty \<and> owned_by (ws_uid w) st \<and>
                (ingress_admitted (ws_namespace w) p srcNs srcNsLabels podLabels \<longleftrightarrow>
                   srcNs = ws_namespace w \<or>
                   srcNs \<in> set (ni_allowedNamespaces (spec_networkIsolation (ws_spec w))))
         else store (world s') (networkPolicyRef w) = None"
proof -
  have "optional_ok w version (networkPolicyRef w) (wantedPolicy w) (store (world s'))"
    using hoareD [OF isolation.establishes [OF assms(1) kube_api.created_store [OF assms(1)]] refl assms(2)] by simp
  then show ?thesis
    using isolationPolicy_admits [OF assms(3)]
    by (auto simp: optional_ok_def wantedPolicy_def managed_def isolationPolicy_def Let_def split: if_splits)
qed

theorem isolation_admits_exactly_allowed_witness:
  "\<exists>s' st p. ReconcileNetworkIsolation mem_client sample_ws ''v1''
        (start [((NamespaceK, [], ''team-alpha''), restored_namespace)]) = (Inr (), s') \<and>
      mem_lookup (world s') (networkPolicyRef sample_ws) = Some st \<and> o_body st = NetworkPolicyB p \<and>
      ingress_admitted ''team-alpha'' p ''monitoring'' (fmap_of_list [(metadataNameLabel, ''monitoring'')]) fmempty"
proof -
  let ?s = "start [((NamespaceK, [], ''team-alpha''), restored_namespace)]"
  have "\<not> isl (fst (ReconcileNetworkIsolation mem_client sample_ws ''v1'' ?s))" by code_simp
  then obtain u s' where r: "ReconcileNetworkIsolation mem_client sample_ws ''v1'' ?s = (Inr u, s')"
    by (rule run_okE)
  show ?thesis
    using isolation_admits_exactly_allowed [OF mem_server.kube_api_axioms r,
        of "fmap_of_list [(metadataNameLabel, ''monitoring'')]" "''monitoring''" fmempty] r
    by (auto simp: fmlookup_of_list)
qed

text \<open>
  After successful runs the quota and the limit range are exactly what the specification says:
  present with the specified content, labelled and controlled by the workspace, or absent.
\<close>

theorem constraints_match_spec:
  assumes "kube_api c store"
    and "ReconcileResourceQuota c w version s = (Inr u, s1)"
    and "ReconcileLimitRange c w version s1 = (Inr v, s2)"
  shows "optional_ok w version (resourceQuotaRef w) (wantedQuota w) (store (world s2)) \<and>
         optional_ok w version (limitRangeRef w) (wantedLimits w) (store (world s2)) \<and>
         only_changes {resourceQuotaRef w, limitRangeRef w} (store (world s)) (store (world s2))"
proof -
  note created = kube_api.created_store [OF assms(1)]
  have q: "optional_ok w version (resourceQuotaRef w) (wantedQuota w) (store (world s1)) \<and>
      only_changes {resourceQuotaRef w} (store (world s)) (store (world s1))"
    using hoareD [OF quota.establishes [OF assms(1) created] refl assms(2)] .
  have l: "optional_ok w version (limitRangeRef w) (wantedLimits w) (store (world s2)) \<and>
      only_changes {limitRangeRef w} (store (world s1)) (store (world s2))"
    using hoareD [OF limits.establishes [OF assms(1) created] refl assms(3)] .
  have "optional_ok w version (resourceQuotaRef w) (wantedQuota w) (store (world s2))"
    by (rule quota.ok_outside) (use q l in \<open>auto simp: resourceQuotaRef_def limitRangeRef_def\<close>)
  moreover have "only_changes ({resourceQuotaRef w} \<union> {limitRangeRef w}) (store (world s)) (store (world s2))"
    using q l by (blast intro: only_changes_trans)
  ultimately show ?thesis using l by (simp add: insert_commute)
qed

theorem constraints_match_spec_witness:
  "\<exists>s1 s2 st. ReconcileResourceQuota mem_client sample_ws ''v1''
        (start [((NamespaceK, [], ''team-alpha''), restored_namespace)]) = (Inr (), s1) \<and>
      ReconcileLimitRange mem_client sample_ws ''v1'' s1 = (Inr (), s2) \<and>
      mem_lookup (world s2) (resourceQuotaRef sample_ws) = Some st \<and>
      o_body st = ResourceQuotaB (ResourceQuotaSpec ''requests.cpu=4'') \<and>
      mem_lookup (world s2) (limitRangeRef sample_ws) = None"
proof -
  let ?s = "start [((NamespaceK, [], ''team-alpha''), restored_namespace)]"
  have "\<not> isl (fst (ReconcileResourceQuota mem_client sample_ws ''v1'' ?s))" by code_simp
  then obtain u s1 where r1: "ReconcileResourceQuota mem_client sample_ws ''v1'' ?s = (Inr u, s1)" by (rule run_okE)
  have "\<not> isl (fst (ReconcileLimitRange mem_client sample_ws ''v1''
      (snd (ReconcileResourceQuota mem_client sample_ws ''v1'' ?s))))" by code_simp
  with r1 have "\<not> isl (fst (ReconcileLimitRange mem_client sample_ws ''v1'' s1))" by simp
  then obtain v s2 where r2: "ReconcileLimitRange mem_client sample_ws ''v1'' s1 = (Inr v, s2)" by (rule run_okE)
  from constraints_match_spec [OF mem_server.kube_api_axioms r1 r2] r1 r2 show ?thesis
    by (auto simp: optional_ok_def wantedQuota_def wantedLimits_def managed_def)
qed

end
