(* ===== verification/Go_Text.thy ===== *)
theory Go_Text
  imports Prelude
begin

text \<open>
  What the operator uses of Go's \<open>strings\<close>, \<open>strconv\<close>, \<open>net/url\<close> (escaping) and \<open>encoding/base64\<close>. A Go
  string is its bytes, one \<open>char\<close> each. The decoders at the end of each section are references: the
  operator only encodes, its peers decode.
\<close>

named_theorems byte_simps \<open>bytes of characters\<close>

abbreviation byte :: "char \<Rightarrow> nat" where
  "byte c \<equiv> of_char c"

abbreviation chr_of :: "nat \<Rightarrow> char" where
  "chr_of n \<equiv> char_of n"

lemma byte_less [simp]: "byte c < 256"
proof -
  have "byte c mod 256 < 256" by (rule mod_less_divisor) simp
  then show ?thesis by (simp only: of_char_mod_256)
qed

lemma chr_of_byte [simp]: "chr_of (byte c) = c"
  by (rule char_of_char)

lemma byte_chr_of: "n < 256 \<Longrightarrow> byte (chr_of n) = n"
  by (simp add: of_char_of)

lemma byte_eqI: "byte c = byte d \<Longrightarrow> c = d"
  by (metis char_of_char)

lemma all_bytes:
  assumes "list_all (\<lambda>n. P (chr_of n)) [0..<256]"
  shows "P c"
proof -
  have "byte c \<in> set [0..<256]" by simp
  with assms have "P (chr_of (byte c))" unfolding list_all_iff by blast
  then show ?thesis by simp
qed

section \<open>strings\<close>

definition TrimRight :: "string \<Rightarrow> string \<Rightarrow> string" where
  "TrimRight s cutset = rev (dropWhile (\<lambda>c. c \<in> set cutset) (rev s))"

fun HasPrefix :: "string \<Rightarrow> string \<Rightarrow> bool" where
  "HasPrefix s [] = True"
| "HasPrefix [] (p # ps) = False"
| "HasPrefix (c # s) (p # ps) = (c = p \<and> HasPrefix s ps)"

fun Join :: "string list \<Rightarrow> string \<Rightarrow> string" where
  "Join [] sep = []"
| "Join [x] sep = x"
| "Join (x # y # xs) sep = x @ sep @ Join (y # xs) sep"

text \<open>\<open>strings.Cut\<close> at the first occurrence of a byte.\<close>

fun Cut :: "string \<Rightarrow> char \<Rightarrow> string \<times> string \<times> bool" where
  "Cut [] c = ([], [], False)"
| "Cut (x # s) c =
     (if x = c then ([], s, True) else (case Cut s c of (a, b, found) \<Rightarrow> (x # a, b, found)))"

text \<open>The text after the last occurrence of a byte, and the text before it.\<close>

definition cutLast :: "string \<Rightarrow> char \<Rightarrow> (string \<times> string) option" where
  "cutLast s c = (case Cut (rev s) c of (b, a, found) \<Rightarrow> if found then Some (rev a, rev b) else None)"

lemma HasPrefix_iff: "HasPrefix s p \<longleftrightarrow> (\<exists>r. s = p @ r)"
  by (induction s p rule: HasPrefix.induct) auto

lemma TrimRight_no_suffix: "TrimRight s cutset = [] \<or> last (TrimRight s cutset) \<notin> set cutset"
proof (cases "dropWhile (\<lambda>c. c \<in> set cutset) (rev s)")
  case (Cons x xs)
  then have "x \<notin> set cutset" by (metis hd_dropWhile list.distinct(1) list.sel(1))
  with Cons show ?thesis by (simp add: TrimRight_def)
qed (simp add: TrimRight_def)

lemma TrimRight_prefix: "\<exists>r. s = TrimRight s cutset @ r \<and> set r \<subseteq> set cutset"
proof -
  have "rev s = takeWhile (\<lambda>c. c \<in> set cutset) (rev s) @ dropWhile (\<lambda>c. c \<in> set cutset) (rev s)"
    by simp
  then have "s = TrimRight s cutset @ rev (takeWhile (\<lambda>c. c \<in> set cutset) (rev s))"
    unfolding TrimRight_def by (metis rev_append rev_rev_ident)
  moreover have "set (rev (takeWhile (\<lambda>c. c \<in> set cutset) (rev s))) \<subseteq> set cutset"
    using set_takeWhileD by fastforce
  ultimately show ?thesis by blast
qed

lemma Cut_found: "c \<notin> set a \<Longrightarrow> Cut (a @ c # b) c = (a, b, True)"
  by (induction a) auto

lemma Cut_missing: "c \<notin> set s \<Longrightarrow> Cut s c = (s, [], False)"
  by (induction s) auto

section \<open>strconv\<close>

definition digit_char :: "nat \<Rightarrow> char" where
  "digit_char n = chr_of (48 + n mod 10)"

fun utoa :: "nat \<Rightarrow> string" where
  "utoa n = (if n < 10 then [digit_char n] else utoa (n div 10) @ [digit_char n])"

declare utoa.simps [simp del]

definition itoa :: "int \<Rightarrow> string" where
  "itoa i = (if i < 0 then CHR ''-'' # utoa (nat (- i)) else utoa (nat i))"

definition isDigit :: "char \<Rightarrow> bool" where
  "isDigit c \<longleftrightarrow> 48 \<le> byte c \<and> byte c \<le> 57"

definition digits_value :: "string \<Rightarrow> nat" where
  "digits_value s = foldl (\<lambda>n c. n * 10 + (byte c - 48)) 0 s"

text \<open>\<open>ParseInt(s, 10, 64)\<close>\<close>

definition ParseInt :: "string \<Rightarrow> int option" where
  "ParseInt s =
     (let (neg, ds) = (case s of c # r \<Rightarrow> if c = CHR ''-'' then (True, r) else if c = CHR ''+'' then (False, r) else (False, s)
                       | [] \<Rightarrow> (False, [])) in
      if ds = [] \<or> \<not> list_all isDigit ds then None
      else let i = (if neg then - int (digits_value ds) else int (digits_value ds)) in
           if - (2 ^ 63) \<le> i \<and> i < 2 ^ 63 then Some i else None)"

lemma byte_digit_char [simp]: "byte (digit_char n) = 48 + n mod 10"
  by (simp add: digit_char_def byte_chr_of)

lemma isDigit_digit_char [simp]: "isDigit (digit_char n)"
  by (simp add: isDigit_def)

lemma utoa_digits: "list_all isDigit (utoa n)"
  by (induction n rule: utoa.induct) (subst utoa.simps, simp)

lemma utoa_nonempty [simp]: "utoa n \<noteq> []"
  by (subst utoa.simps) simp

lemma digits_value_snoc: "digits_value (s @ [c]) = digits_value s * 10 + (byte c - 48)"
  by (simp add: digits_value_def)

lemma digits_value_utoa [simp]: "digits_value (utoa n) = n"
proof (induction n rule: utoa.induct)
  case (1 n)
  then show ?case
    by (subst utoa.simps) (auto simp: digits_value_snoc digits_value_def)
qed

lemma isDigit_not_sign: "isDigit c \<Longrightarrow> c \<noteq> CHR ''-'' \<and> c \<noteq> CHR ''+''"
  by (auto simp: isDigit_def)

lemma utoa_hd: "isDigit (hd (utoa n))"
  using utoa_digits [of n] utoa_nonempty [of n] by (metis list.pred_inject(2) list.collapse)

lemma ParseInt_itoa:
  assumes "- (2 ^ 63) \<le> i" and "i < 2 ^ 63"
  shows "ParseInt (itoa i) = Some i"
proof (cases "i < 0")
  case True
  then show ?thesis using assms by (simp add: ParseInt_def itoa_def utoa_digits)
next
  case False
  obtain c r where u: "utoa (nat i) = c # r" by (meson list.exhaust utoa_nonempty)
  with utoa_hd [of "nat i"] have "c \<noteq> CHR ''-''" "c \<noteq> CHR ''+''"
    using isDigit_not_sign by auto
  with False u assms utoa_digits [of "nat i"] digits_value_utoa [of "nat i"] show ?thesis
    by (simp add: ParseInt_def itoa_def)
qed

lemma itoa_inj: "itoa i = itoa j \<Longrightarrow> i = j"
proof -
  have neg: "hd (utoa n) \<noteq> CHR ''-''" for n using utoa_hd isDigit_not_sign by blast
  assume e: "itoa i = itoa j"
  show ?thesis
  proof (cases "i < 0")
    case True
    with e neg [of "nat j"] have "j < 0" by (auto simp: itoa_def split: if_splits) (metis list.sel(1))
    with True e have "utoa (nat (- i)) = utoa (nat (- j))" by (simp add: itoa_def)
    then have "nat (- i) = nat (- j)" by (metis digits_value_utoa)
    with True \<open>j < 0\<close> show ?thesis by simp
  next
    case False
    with e neg [of "nat i"] have "\<not> j < 0" by (auto simp: itoa_def split: if_splits)
    with False e have "utoa (nat i) = utoa (nat j)" by (simp add: itoa_def)
    then have "nat i = nat j" by (metis digits_value_utoa)
    with False \<open>\<not> j < 0\<close> show ?thesis by simp
  qed
qed

section \<open>net/url escaping\<close>

datatype escape_mode = PathSegment | QueryComponent

definition isAlnum :: "char \<Rightarrow> bool" where
  "isAlnum c \<longleftrightarrow> (97 \<le> byte c \<and> byte c \<le> 122) \<or> (65 \<le> byte c \<and> byte c \<le> 90) \<or> isDigit c"

definition shouldEscape :: "char \<Rightarrow> escape_mode \<Rightarrow> bool" where
  "shouldEscape c mode =
     (if isAlnum c \<or> c \<in> set ''-_.~'' then False
      else if c \<in> set ''$&+,/:;=?@''
      then (case mode of PathSegment \<Rightarrow> c \<in> set ''/;,?'' | QueryComponent \<Rightarrow> True)
      else True)"

definition hexUp :: "nat \<Rightarrow> char" where
  "hexUp n = ''0123456789ABCDEF'' ! (n mod 16)"

definition escapeByte :: "escape_mode \<Rightarrow> char \<Rightarrow> string" where
  "escapeByte mode c =
     (if mode = QueryComponent \<and> c = CHR '' '' then ''+''
      else if shouldEscape c mode then [CHR ''%'', hexUp (byte c div 16), hexUp (byte c mod 16)]
      else [c])"

definition urlEscape :: "escape_mode \<Rightarrow> string \<Rightarrow> string" where
  "urlEscape mode s = concat (map (escapeByte mode) s)"

definition QueryEscape :: "string \<Rightarrow> string" where
  "QueryEscape s = urlEscape QueryComponent s"

definition PathEscape :: "string \<Rightarrow> string" where
  "PathEscape s = urlEscape PathSegment s"

definition unhex :: "char \<Rightarrow> nat option" where
  "unhex c =
     (if isDigit c then Some (byte c - 48)
      else if 97 \<le> byte c \<and> byte c \<le> 102 then Some (byte c - 87)
      else if 65 \<le> byte c \<and> byte c \<le> 70 then Some (byte c - 55) else None)"

text \<open>The reference decoder (\<open>url.QueryUnescape\<close>), which the server on the other side applies.\<close>

fun QueryUnescape :: "string \<Rightarrow> string option" where
  "QueryUnescape [] = Some []"
| "QueryUnescape (c # r) =
     (if c = CHR ''%'' then
        (case r of a # b # r' \<Rightarrow>
           (case (unhex a, unhex b) of
              (Some x, Some y) \<Rightarrow> map_option (\<lambda>s. chr_of (16 * x + y) # s) (QueryUnescape r')
            | _ \<Rightarrow> None)
         | _ \<Rightarrow> None)
      else if c = CHR ''+'' then map_option (\<lambda>s. CHR '' '' # s) (QueryUnescape r)
      else map_option (\<lambda>s. c # s) (QueryUnescape r))"

lemma unhex_hexUp: "n < 16 \<Longrightarrow> unhex (hexUp n) = Some n"
proof -
  have *: "list_all (\<lambda>n. unhex (hexUp n) = Some n) [0..<16]" by code_simp
  assume "n < 16"
  then have "n \<in> set [0..<16]" by simp
  with * show ?thesis unfolding list_all_iff by blast
qed

lemma QueryUnescape_escapeByte:
  "QueryUnescape (escapeByte QueryComponent c @ r) = map_option (\<lambda>s. c # s) (QueryUnescape r)"
proof (cases "shouldEscape c QueryComponent")
  case True
  have "byte c div 16 < 16" and "byte c mod 16 < 16"
    using byte_less [of c] by linarith+
  with True show ?thesis by (simp add: escapeByte_def unhex_hexUp)
next
  case False
  then have "c \<noteq> CHR ''%''" and "c \<noteq> CHR ''+''" and "c \<noteq> CHR '' ''"
    by (auto simp: shouldEscape_def isAlnum_def isDigit_def)
  with False show ?thesis by (simp add: escapeByte_def)
qed

lemma QueryUnescape_QueryEscape [simp]: "QueryUnescape (QueryEscape s) = Some s"
  by (induction s) (simp_all add: QueryEscape_def urlEscape_def QueryUnescape_escapeByte)

text \<open>Names that are DNS labels pass through path escaping unchanged.\<close>

lemma PathEscape_plain: "list_all (\<lambda>c. isAlnum c \<or> c \<in> set ''-_.~'') s \<Longrightarrow> PathEscape s = s"
  unfolding PathEscape_def urlEscape_def
  by (induction s) (auto simp: escapeByte_def shouldEscape_def)

section \<open>encoding/base64\<close>

text \<open>The standard alphabet: \<open>A-Z\<close>, \<open>a-z\<close>, \<open>0-9\<close>, \<open>+\<close>, \<open>/\<close>.\<close>

definition b64char :: "nat \<Rightarrow> char" where
  "b64char n =
     (if n < 26 then chr_of (65 + n) else if n < 52 then chr_of (71 + n)
      else if n < 62 then chr_of (n - 4) else if n = 62 then CHR ''+'' else CHR ''/'')"

text \<open>\<open>base64.StdEncoding.EncodeToString\<close>\<close>

definition sextet1 :: "char \<Rightarrow> nat" where "sextet1 a = byte a div 4"
definition sextet2 :: "char \<Rightarrow> nat \<Rightarrow> nat" where "sextet2 a b = byte a mod 4 * 16 + b div 16"
definition sextet3 :: "char \<Rightarrow> nat \<Rightarrow> nat" where "sextet3 b c = byte b mod 16 * 4 + c div 64"
definition sextet4 :: "char \<Rightarrow> nat" where "sextet4 c = byte c mod 64"

fun b64encode :: "string \<Rightarrow> string" where
  "b64encode [] = []"
| "b64encode [a] = [b64char (sextet1 a), b64char (sextet2 a 0), CHR ''='', CHR ''='']"
| "b64encode [a, b] =
     [b64char (sextet1 a), b64char (sextet2 a (byte b)), b64char (sextet3 b 0), CHR ''='']"
| "b64encode (a # b # c # r) =
     b64char (sextet1 a) # b64char (sextet2 a (byte b)) # b64char (sextet3 b (byte c)) #
     b64char (sextet4 c) # b64encode r"

definition unb64 :: "char \<Rightarrow> nat option" where
  "unb64 c =
     (if 65 \<le> byte c \<and> byte c \<le> 90 then Some (byte c - 65)
      else if 97 \<le> byte c \<and> byte c \<le> 122 then Some (byte c - 71)
      else if isDigit c then Some (byte c + 4)
      else if c = CHR ''+'' then Some 62 else if c = CHR ''/'' then Some 63 else None)"

definition octet1 :: "nat \<Rightarrow> nat \<Rightarrow> char" where "octet1 a b = chr_of (a * 4 + b div 16)"
definition octet2 :: "nat \<Rightarrow> nat \<Rightarrow> char" where "octet2 b c = chr_of (b mod 16 * 16 + c div 4)"
definition octet3 :: "nat \<Rightarrow> nat \<Rightarrow> char" where "octet3 c d = chr_of (c mod 4 * 64 + d)"

fun b64decode :: "string \<Rightarrow> string option" where
  "b64decode [] = Some []"
| "b64decode (w # x # y # z # r) =
     (case (unb64 w, unb64 x) of
        (Some a, Some b) \<Rightarrow>
          (if y = CHR ''='' then (if z = CHR ''='' \<and> r = [] then Some [octet1 a b] else None)
           else case unb64 y of
              None \<Rightarrow> None
            | Some c \<Rightarrow>
                (if z = CHR ''='' then (if r = [] then Some [octet1 a b, octet2 b c] else None)
                 else case unb64 z of
                    None \<Rightarrow> None
                  | Some d \<Rightarrow> map_option (\<lambda>s. octet1 a b # octet2 b c # octet3 c d # s) (b64decode r)))
      | _ \<Rightarrow> None)"
| "b64decode _ = None"

lemma unb64_b64char [simp]: "n < 64 \<Longrightarrow> unb64 (b64char n) = Some n \<and> b64char n \<noteq> CHR ''=''"
  by (auto simp: b64char_def unb64_def isDigit_def byte_chr_of char_of_eq_iff take_bit_eq_mod)

lemma sextet_bounds [simp]:
  "sextet1 a < 64" "b < 256 \<Longrightarrow> sextet2 a b < 64" "c < 256 \<Longrightarrow> sextet3 a c < 64" "sextet4 a < 64"
proof -
  have m: "byte a mod 4 * 16 \<le> 48" "byte a mod 16 * 4 \<le> 60" by simp_all
  show "sextet1 a < 64" unfolding sextet1_def using byte_less [of a] by linarith
  show "sextet2 a b < 64" if "b < 256" unfolding sextet2_def using m(1) that by linarith
  show "sextet3 a c < 64" if "c < 256" unfolding sextet3_def using m(2) that by linarith
  show "sextet4 a < 64" unfolding sextet4_def by simp
qed

lemma octets [simp]:
  "b < 256 \<Longrightarrow> octet1 (sextet1 x) (sextet2 x b) = x"
  "c < 256 \<Longrightarrow> octet2 (sextet2 a (byte x)) (sextet3 x c) = x"
  "octet3 (sextet3 a (byte x)) (sextet4 x) = x"
proof -
  have e1: "y div 4 * 4 + (y mod 4 * 16 + b div 16) div 16 = y" if "b < 256" for y b :: nat
  proof -
    from that have "b div 16 < 16" by linarith
    then have "(y mod 4 * 16 + b div 16) div 16 = y mod 4" by (simp add: div_add1_eq)
    then show ?thesis by simp
  qed
  have e2: "(a * 16 + y div 16) mod 16 * 16 + (y mod 16 * 4 + c div 64) div 4 = y"
    if "c < 256" "y < 256" for a y c :: nat
  proof -
    from that have "c div 64 < 4" and "y div 16 < 16" by linarith+
    then have "(y mod 16 * 4 + c div 64) div 4 = y mod 16" and "(a * 16 + y div 16) mod 16 = y div 16"
      by (simp_all add: div_add1_eq)
    then show ?thesis by simp
  qed
  have e3: "(a * 4 + y div 64) mod 4 * 64 + y mod 64 = y" if "y < 256" for a y :: nat
  proof -
    from that have "y div 64 < 4" by linarith
    then have "(a * 4 + y div 64) mod 4 = y div 64" by simp
    then show ?thesis by simp
  qed
  show "octet1 (sextet1 x) (sextet2 x b) = x" if "b < 256"
    unfolding octet1_def sextet1_def sextet2_def e1 [OF that] by (rule chr_of_byte)
  show "octet2 (sextet2 a (byte x)) (sextet3 x c) = x" if "c < 256"
    unfolding octet2_def sextet2_def sextet3_def e2 [OF that byte_less] by (rule chr_of_byte)
  show "octet3 (sextet3 a (byte x)) (sextet4 x) = x"
    unfolding octet3_def sextet3_def sextet4_def e3 [OF byte_less] by (rule chr_of_byte)
qed

lemma b64decode_b64encode [simp]: "b64decode (b64encode s) = Some s"
  by (induction s rule: b64encode.induct) simp_all

text \<open>The encoding uses only characters that JSON strings carry unescaped.\<close>

lemma b64encode_ascii: "list_all (\<lambda>c. byte c < 128) (b64encode s)"
proof -
  have "byte (b64char n) < 128" for n
    by (auto simp: b64char_def byte_chr_of)
  then show ?thesis by (induction s rule: b64encode.induct) simp_all
qed

end
