(* ===== verification/Go_Json.thy ===== *)
theory Go_Json
  imports Go_Text
begin

text \<open>
  What the operator uses of Go's \<open>encoding/json\<close>: \<open>json.Marshal\<close> of maps, slices, strings, integers and
  booleans, and \<open>json.NewDecoder(r).Decode(&v)\<close> into structs of strings and integers. Strings are
  bytes; both directions replace invalid UTF-8 by U+FFFD, as the package does. The parser is one pass
  with an explicit stack, like the scanner of the package, and stops at the end of the first value.
\<close>

datatype json =
    JNull
  | JBool bool
  | JNum string
  | JStr string
  | JArr "json list"
  | JObj "(string \<times> json) list"

section \<open>UTF-8\<close>

definition cont_byte :: "char \<Rightarrow> bool" where
  "cont_byte c \<longleftrightarrow> 128 \<le> byte c \<and> byte c < 192"

text \<open>
  The size of the well-formed encoding at the head of a string, 0 when there is none
  (\<open>utf8.DecodeRune\<close>): no overlong forms, no surrogates, nothing above U+10FFFF.
\<close>

fun rune_size :: "string \<Rightarrow> nat" where
  "rune_size [] = 0"
| "rune_size (a # s) =
     (if byte a < 128 then 1
      else if byte a < 194 then 0
      else if byte a < 224 then (case s of b # _ \<Rightarrow> if cont_byte b then 2 else 0 | _ \<Rightarrow> 0)
      else if byte a < 240 then
        (case s of b # c # _ \<Rightarrow>
           if cont_byte b \<and> (byte a = 224 \<longrightarrow> 160 \<le> byte b) \<and> (byte a = 237 \<longrightarrow> byte b < 160) \<and> cont_byte c
           then 3 else 0 | _ \<Rightarrow> 0)
      else if byte a < 245 then
        (case s of b # c # d # _ \<Rightarrow>
           if cont_byte b \<and> (byte a = 240 \<longrightarrow> 144 \<le> byte b) \<and> (byte a = 244 \<longrightarrow> byte b < 144) \<and>
              cont_byte c \<and> cont_byte d
           then 4 else 0 | _ \<Rightarrow> 0)
      else 0)"

function valid_utf8 :: "string \<Rightarrow> bool" where
  "valid_utf8 [] = True"
| "valid_utf8 (c # s) = (rune_size (c # s) \<noteq> 0 \<and> valid_utf8 (drop (rune_size (c # s) - 1) s))"
  by pat_completeness auto
termination by (relation "measure length") auto

definition replacement :: string where
  "replacement = [chr_of 239, chr_of 191, chr_of 189]"

text \<open>\<open>utf8.AppendRune\<close>, for a code point that is no surrogate.\<close>

definition encodeRune :: "nat \<Rightarrow> string" where
  "encodeRune n =
     (if n < 128 then [chr_of n]
      else if n < 2048 then [chr_of (192 + n div 64), chr_of (128 + n mod 64)]
      else if n < 65536 then
        [chr_of (224 + n div 4096), chr_of (128 + n div 64 mod 64), chr_of (128 + n mod 64)]
      else [chr_of (240 + n div 262144), chr_of (128 + n div 4096 mod 64),
            chr_of (128 + n div 64 mod 64), chr_of (128 + n mod 64)])"

section \<open>Marshal\<close>

definition hexLow :: "nat \<Rightarrow> char" where
  "hexLow n = ''0123456789abcdef'' ! (n mod 16)"

definition bslash :: char where "bslash = CHR 0x5C"
definition quote :: char where "quote = CHR 0x22"

text \<open>An ASCII byte inside a string literal, with the HTML-safe escapes \<open>json.Marshal\<close> applies.\<close>

definition escapeAscii :: "char \<Rightarrow> string" where
  "escapeAscii c =
     (if c = quote \<or> c = bslash then [bslash, c]
      else if byte c = 8 then [bslash, CHR ''b'']
      else if byte c = 12 then [bslash, CHR ''f'']
      else if byte c = 10 then [bslash, CHR ''n'']
      else if byte c = 13 then [bslash, CHR ''r'']
      else if byte c = 9 then [bslash, CHR ''t'']
      else if byte c < 32 \<or> c \<in> set ''<>&''
      then [bslash, CHR ''u'', CHR ''0'', CHR ''0'', hexLow (byte c div 16), hexLow (byte c mod 16)]
      else [c])"

text \<open>U+2028 and U+2029.\<close>

definition line_separator :: "string \<Rightarrow> bool" where
  "line_separator r \<longleftrightarrow> r = [chr_of 226, chr_of 128, chr_of 168] \<or> r = [chr_of 226, chr_of 128, chr_of 169]"

definition escapeRune :: "string \<Rightarrow> string" where
  "escapeRune r =
     (if r = [chr_of 226, chr_of 128, chr_of 168] then bslash # ''u2028''
      else if r = [chr_of 226, chr_of 128, chr_of 169] then bslash # ''u2029'' else r)"

function escapeString :: "string \<Rightarrow> string" where
  "escapeString [] = []"
| "escapeString (c # s) =
     (if byte c < 128 then escapeAscii c @ escapeString s
      else if rune_size (c # s) = 0 then bslash # ''ufffd'' @ escapeString s
      else escapeRune (take (rune_size (c # s)) (c # s)) @
           escapeString (drop (rune_size (c # s) - 1) s))"
  by pat_completeness auto
termination by (relation "measure length") auto

definition quoteString :: "string \<Rightarrow> string" where
  "quoteString s = quote # escapeString s @ [quote]"

fun Marshal :: "json \<Rightarrow> string" and
    MarshalElems :: "json list \<Rightarrow> string" and
    MarshalMembers :: "(string \<times> json) list \<Rightarrow> string" where
  "Marshal JNull = ''null''"
| "Marshal (JBool b) = (if b then ''true'' else ''false'')"
| "Marshal (JNum l) = l"
| "Marshal (JStr s) = quoteString s"
| "Marshal (JArr vs) = CHR ''['' # MarshalElems vs @ '']''"
| "Marshal (JObj kvs) = CHR ''{'' # MarshalMembers kvs @ ''}''"
| "MarshalElems [] = []"
| "MarshalElems (v # vs) = Marshal v @ (if vs = [] then [] else CHR '','' # MarshalElems vs)"
| "MarshalMembers [] = []"
| "MarshalMembers ((k, v) # kvs) =
     quoteString k @ CHR '':'' # Marshal v @ (if kvs = [] then [] else CHR '','' # MarshalMembers kvs)"

text \<open>A Go map literal as \<open>Marshal\<close> sees it: the members in key order.\<close>

definition goMap :: "(string \<times> json) list \<Rightarrow> json" where
  "goMap kvs = JObj (sort_key fst kvs)"

definition JInt :: "int \<Rightarrow> json" where
  "JInt i = JNum (itoa i)"

section \<open>Scanning\<close>

definition isSpace :: "char \<Rightarrow> bool" where
  "isSpace c \<longleftrightarrow> byte c \<in> {32, 9, 13, 10}"

definition hex4 :: "char \<Rightarrow> char \<Rightarrow> char \<Rightarrow> char \<Rightarrow> nat option" where
  "hex4 a b c d =
     (case (unhex a, unhex b, unhex c, unhex d) of
        (Some w, Some x, Some y, Some z) \<Rightarrow> Some (4096 * w + 256 * x + 16 * y + z)
      | _ \<Rightarrow> None)"

text \<open>The code point of a \<open>\\uXXXX\<close> escape that starts the string, and the rest.\<close>

fun getu4 :: "string \<Rightarrow> (nat \<times> string) option" where
  "getu4 (s # u # a # b # c # d # r) =
     (if s = bslash \<and> u = CHR ''u'' then map_option (\<lambda>n. (n, r)) (hex4 a b c d) else None)"
| "getu4 _ = None"

definition isSurrogate :: "nat \<Rightarrow> bool" where
  "isSurrogate n \<longleftrightarrow> 55296 \<le> n \<and> n < 57344"

text \<open>The code point of a \<open>\\u\<close> escape: a surrogate pair is one rune, a lone surrogate is U+FFFD.\<close>

definition runeEscape :: "string \<Rightarrow> (string \<times> string) option" where
  "runeEscape s = (case getu4 s of
       None \<Rightarrow> None
     | Some (n, r) \<Rightarrow>
         if \<not> isSurrogate n then Some (encodeRune n, r)
         else (case getu4 r of
             Some (m, r') \<Rightarrow>
               if n < 56320 \<and> 56320 \<le> m \<and> m < 57344
               then Some (encodeRune (65536 + (n - 55296) * 1024 + (m - 56320)), r')
               else Some (replacement, r)
           | None \<Rightarrow> Some (replacement, r)))"

definition simpleEscape :: "char \<Rightarrow> char option" where
  "simpleEscape e =
     (if e = quote \<or> e = bslash \<or> e = CHR ''/'' then Some e
      else if e = CHR ''b'' then Some (chr_of 8) else if e = CHR ''f'' then Some (chr_of 12)
      else if e = CHR ''n'' then Some (chr_of 10) else if e = CHR ''r'' then Some (chr_of 13)
      else if e = CHR ''t'' then Some (chr_of 9) else None)"

lemma getu4_length: "getu4 s = Some (n, r) \<Longrightarrow> length r < length s"
  by (induction s rule: getu4.induct) (auto split: if_splits)

lemma runeEscape_length: "runeEscape s = Some (x, r) \<Longrightarrow> length r < length s"
  by (auto simp: runeEscape_def dest!: getu4_length split: option.splits if_splits)

text \<open>The body of a string literal, after the opening quote.\<close>

function scanString :: "string \<Rightarrow> (string \<times> string) option" where
  "scanString [] = None"
| "scanString (c # s) =
     (if c = quote then Some ([], s)
      else if c = bslash then
        (case s of
           [] \<Rightarrow> None
         | e # r \<Rightarrow>
             (case simpleEscape e of
                Some x \<Rightarrow> map_option (apfst (Cons x)) (scanString r)
              | None \<Rightarrow>
                  (case runeEscape (c # s) of
                     None \<Rightarrow> None
                   | Some (x, r') \<Rightarrow> map_option (apfst (append x)) (scanString r'))))
      else if byte c < 32 then None
      else if byte c < 128 then map_option (apfst (Cons c)) (scanString s)
      else if rune_size (c # s) = 0 then map_option (apfst (append replacement)) (scanString s)
      else map_option (apfst (append (take (rune_size (c # s)) (c # s))))
             (scanString (drop (rune_size (c # s) - 1) s)))"
  by pat_completeness auto
termination by (relation "measure length") (auto dest!: runeEscape_length)

text \<open>Number literals: the longest prefix of the given shape.\<close>

definition spanDigits :: "string \<Rightarrow> string \<times> string" where
  "spanDigits s = (takeWhile isDigit s, dropWhile isDigit s)"

definition scanInt :: "string \<Rightarrow> (string \<times> string) option" where
  "scanInt s = (case s of
       [] \<Rightarrow> None
     | c # r \<Rightarrow> if c = CHR ''0'' then Some ([c], r)
               else if isDigit c then Some (spanDigits s) else None)"

definition scanFrac :: "string \<Rightarrow> (string \<times> string) option" where
  "scanFrac s = (case s of
       c # r \<Rightarrow> if c = CHR ''.''
               then (case spanDigits r of (ds, r') \<Rightarrow> if ds = [] then None else Some (c # ds, r'))
               else Some ([], s)
     | [] \<Rightarrow> Some ([], s))"

definition scanExp :: "string \<Rightarrow> (string \<times> string) option" where
  "scanExp s = (case s of
       c # r \<Rightarrow> if c \<in> set ''eE''
               then (let (sg, r1) = (case r of d # r' \<Rightarrow> if d \<in> set ''+-'' then ([d], r') else ([], r) | [] \<Rightarrow> ([], r))
                     in case spanDigits r1 of (ds, r2) \<Rightarrow> if ds = [] then None else Some (c # sg @ ds, r2))
               else Some ([], s)
     | [] \<Rightarrow> Some ([], s))"

definition scanNumber :: "string \<Rightarrow> (string \<times> string) option" where
  "scanNumber s =
     (let (sg, r0) = (case s of c # r \<Rightarrow> if c = CHR ''-'' then ([c], r) else ([], s) | [] \<Rightarrow> ([], s)) in
      case scanInt r0 of None \<Rightarrow> None | Some (i, r1) \<Rightarrow>
      (case scanFrac r1 of None \<Rightarrow> None | Some (f, r2) \<Rightarrow>
      (case scanExp r2 of None \<Rightarrow> None | Some (e, r3) \<Rightarrow> Some (sg @ i @ f @ e, r3))))"

text \<open>One token: a punctuation byte or a scalar.\<close>

datatype token = Punct char | Scalar json

definition scanToken :: "string \<Rightarrow> (token \<times> string) option" where
  "scanToken s0 =
     (let s = dropWhile isSpace s0 in
      case s of
        [] \<Rightarrow> None
      | c # r \<Rightarrow>
          if c \<in> set ''[]{},:'' then Some (Punct c, r)
          else if c = quote then map_option (apfst (Scalar \<circ> JStr)) (scanString r)
          else if HasPrefix s ''null'' then Some (Scalar JNull, drop 4 s)
          else if HasPrefix s ''true'' then Some (Scalar (JBool True), drop 4 s)
          else if HasPrefix s ''false'' then Some (Scalar (JBool False), drop 5 s)
          else map_option (apfst (Scalar \<circ> JNum)) (scanNumber s))"

lemma scanString_length: "scanString s = Some (x, r) \<Longrightarrow> length r < length s"
proof (induction "length s" arbitrary: s x r rule: less_induct)
  case less
  have IH: "length r' < length t" if "scanString t = Some (y, r')" "length t < length s" for t y r'
    using less.hyps that by blast
  from less.prems obtain c s' where s: "s = c # s'" by (cases s) auto
  have d: "length (drop (rune_size (c # s') - 1) s') < length s" by (simp add: s)
  from less.prems show ?case
    unfolding s
    by (auto split: if_splits list.splits option.splits simp del: rune_size.simps
        dest!: IH [unfolded s] runeEscape_length dest: order.strict_trans)
qed

lemma spanDigits_length: "spanDigits s = (a, r) \<Longrightarrow> length s = length a + length r"
  by (auto simp: spanDigits_def simp flip: length_append)

lemma scanInt_length: "scanInt s = Some (x, r) \<Longrightarrow> length r < length s"
  by (auto simp: scanInt_def spanDigits_def length_dropWhile_le le_imp_less_Suc
      split: list.splits if_splits)

lemma scanFrac_length: "scanFrac s = Some (x, r) \<Longrightarrow> length r \<le> length s"
  by (auto simp: scanFrac_def dest!: spanDigits_length split: list.splits if_splits prod.splits)

lemma scanExp_length: "scanExp s = Some (x, r) \<Longrightarrow> length r \<le> length s"
  by (auto simp: scanExp_def Let_def dest!: spanDigits_length split: list.splits if_splits prod.splits)

lemma scanNumber_length: "scanNumber s = Some (x, r) \<Longrightarrow> length r < length s"
  by (auto simp: scanNumber_def Let_def split: list.splits if_splits option.splits
      dest!: scanInt_length scanFrac_length scanExp_length)

lemma scanToken_length:
  assumes "scanToken s = Some (t, r)"
  shows "length r < length s"
proof -
  obtain c s' where d: "dropWhile isSpace s = c # s'"
    using assms by (cases "dropWhile isSpace s") (auto simp: scanToken_def)
  have "length (c # s') \<le> length s" using length_dropWhile_le [of isSpace s] d by simp
  moreover have "length r < length (c # s')"
    using assms by (auto simp: scanToken_def d Let_def split: if_splits dest!: scanString_length scanNumber_length)
  ultimately show ?thesis by linarith
qed

section \<open>Parsing\<close>

text \<open>
  The enclosing containers of a value under construction, innermost first; members and elements are
  collected in reverse.
\<close>

datatype frame = InArr "json list" | InObj "(string \<times> json) list" string

datatype expect =
    WantValue
  | WantElemOrEnd
  | WantKeyOrEnd
  | WantKey "(string \<times> json) list"
  | WantColon "(string \<times> json) list" string
  | HaveValue json

definition maxNestingDepth :: nat where "maxNestingDepth = 10000"

function parse :: "expect \<Rightarrow> frame list \<Rightarrow> string \<Rightarrow> (json \<times> string) option" where
  "parse (HaveValue v) [] s = Some (v, s)"
| "parse (HaveValue v) (InArr vs # fs) s = (case scanToken s of
     Some (Punct c, r) \<Rightarrow>
       if c = CHR '','' then parse WantValue (InArr (v # vs) # fs) r
       else if c = CHR '']'' then parse (HaveValue (JArr (rev (v # vs)))) fs r else None
   | _ \<Rightarrow> None)"
| "parse (HaveValue v) (InObj kvs k # fs) s = (case scanToken s of
     Some (Punct c, r) \<Rightarrow>
       if c = CHR '','' then parse (WantKey ((k, v) # kvs)) fs r
       else if c = CHR ''}'' then parse (HaveValue (JObj (rev ((k, v) # kvs)))) fs r else None
   | _ \<Rightarrow> None)"
| "parse WantValue fs s = (case scanToken s of
     Some (Scalar v, r) \<Rightarrow> parse (HaveValue v) fs r
   | Some (Punct c, r) \<Rightarrow>
       if length fs < maxNestingDepth \<and> c = CHR ''['' then parse WantElemOrEnd fs r
       else if length fs < maxNestingDepth \<and> c = CHR ''{'' then parse WantKeyOrEnd fs r else None
   | None \<Rightarrow> None)"
| "parse WantElemOrEnd fs s = (case scanToken s of
     Some (Punct c, r) \<Rightarrow>
       if c = CHR '']'' then parse (HaveValue (JArr [])) fs r else parse WantValue (InArr [] # fs) s
   | _ \<Rightarrow> parse WantValue (InArr [] # fs) s)"
| "parse WantKeyOrEnd fs s = (case scanToken s of
     Some (Punct c, r) \<Rightarrow>
       if c = CHR ''}'' then parse (HaveValue (JObj [])) fs r else None
   | _ \<Rightarrow> parse (WantKey []) fs s)"
| "parse (WantKey kvs) fs s = (case scanToken s of
     Some (Scalar (JStr k), r) \<Rightarrow> parse (WantColon kvs k) fs r
   | _ \<Rightarrow> None)"
| "parse (WantColon kvs k) fs s = (case scanToken s of
     Some (Punct c, r) \<Rightarrow> if c = CHR '':'' then parse WantValue (InObj kvs k # fs) r else None
   | _ \<Rightarrow> None)"
  by pat_completeness auto
termination
  by (relation "measure (\<lambda>(e, fs, s). 2 * length s + (if e = WantElemOrEnd \<or> e = WantKeyOrEnd then 1 else 0))")
     (auto dest!: scanToken_length)

text \<open>The first value of a stream, as \<open>json.Decoder\<close> reads it.\<close>

definition parseValue :: "string \<Rightarrow> (json \<times> string) option" where
  "parseValue s = parse WantValue [] s"

section \<open>Decoding into Go values\<close>

definition decodeError :: "string \<Rightarrow> error" where
  "decodeError what = StdError (''json: '' @ what)"

text \<open>A string or an \<open>int\<close> variable; \<open>null\<close> leaves the variable as it is.\<close>

definition decodeString :: "json \<Rightarrow> string \<Rightarrow> error + string" where
  "decodeString j old = (case j of JNull \<Rightarrow> Inr old | JStr s \<Rightarrow> Inr s
     | _ \<Rightarrow> Inl (decodeError ''cannot unmarshal into Go value of type string''))"

definition decodeInt :: "json \<Rightarrow> int \<Rightarrow> error + int" where
  "decodeInt j old = (case j of JNull \<Rightarrow> Inr old
     | JNum l \<Rightarrow> (case ParseInt l of Some i \<Rightarrow> Inr i
          | None \<Rightarrow> Inl (decodeError ''cannot unmarshal number into Go value of type int''))
     | _ \<Rightarrow> Inl (decodeError ''cannot unmarshal into Go value of type int''))"

text \<open>
  Case folding of a member name against an ASCII field name: ASCII letters, and the two non-ASCII
  code points whose folding orbit has an ASCII letter, U+017F (long s) and U+212A (Kelvin sign).
\<close>

fun foldName :: "string \<Rightarrow> string" where
  "foldName (a # b # c # s) =
     (if byte a = 226 \<and> byte b = 132 \<and> byte c = 170 then CHR ''K'' # foldName s
      else if byte a = 197 \<and> byte b = 191 then CHR ''S'' # foldName (c # s)
      else (if 97 \<le> byte a \<and> byte a \<le> 122 then chr_of (byte a - 32) else a) # foldName (b # c # s))"
| "foldName [a, b] =
     (if byte a = 197 \<and> byte b = 191 then ''S''
      else (if 97 \<le> byte a \<and> byte a \<le> 122 then chr_of (byte a - 32) else a) # foldName [b])"
| "foldName [a] = [if 97 \<le> byte a \<and> byte a \<le> 122 then chr_of (byte a - 32) else a]"
| "foldName [] = []"

text \<open>
  The fields of a struct, each with its JSON name and its assignment. An exact name wins over a name
  that only matches after folding; a member that matches no field is skipped.
\<close>

type_synonym 'r fields = "(string \<times> (json \<Rightarrow> 'r \<Rightarrow> error + 'r)) list"

definition fieldFor :: "'r fields \<Rightarrow> string \<Rightarrow> (json \<Rightarrow> 'r \<Rightarrow> error + 'r) option" where
  "fieldFor flds k = (case find (\<lambda>f. fst f = k) flds of
       Some f \<Rightarrow> Some (snd f)
     | None \<Rightarrow> map_option snd (find (\<lambda>f. foldName (fst f) = foldName k) flds))"

fun decodeMembers :: "'r fields \<Rightarrow> (string \<times> json) list \<Rightarrow> 'r \<Rightarrow> error + 'r" where
  "decodeMembers flds [] r = Inr r"
| "decodeMembers flds ((k, v) # kvs) r =
     (case fieldFor flds k of
        None \<Rightarrow> decodeMembers flds kvs r
      | Some assign \<Rightarrow> (case assign v r of Inl e \<Rightarrow> Inl e | Inr r' \<Rightarrow> decodeMembers flds kvs r'))"

definition decodeStruct :: "'r fields \<Rightarrow> 'r \<Rightarrow> json \<Rightarrow> error + 'r" where
  "decodeStruct flds zero j = (case j of JNull \<Rightarrow> Inr zero
     | JObj kvs \<Rightarrow> decodeMembers flds kvs zero
     | _ \<Rightarrow> Inl (decodeError ''cannot unmarshal into Go struct''))"

fun decodeElems :: "(json \<Rightarrow> error + 'r) \<Rightarrow> json list \<Rightarrow> error + 'r list" where
  "decodeElems f [] = Inr []"
| "decodeElems f (j # js) = (case f j of Inl e \<Rightarrow> Inl e
     | Inr x \<Rightarrow> (case decodeElems f js of Inl e \<Rightarrow> Inl e | Inr xs \<Rightarrow> Inr (x # xs)))"

definition decodeSlice :: "(json \<Rightarrow> error + 'r) \<Rightarrow> json \<Rightarrow> error + 'r list" where
  "decodeSlice f j = (case j of JNull \<Rightarrow> Inr [] | JArr js \<Rightarrow> decodeElems f js
     | _ \<Rightarrow> Inl (decodeError ''cannot unmarshal into Go slice''))"

text \<open>\<open>json.NewDecoder(body).Decode(&v)\<close>\<close>

definition Decode :: "(json \<Rightarrow> error + 'r) \<Rightarrow> string \<Rightarrow> error + 'r" where
  "Decode f body = (case parseValue body of
       None \<Rightarrow> Inl (decodeError ''invalid character or unexpected EOF'')
     | Some (j, _) \<Rightarrow> f j)"

section \<open>Round trip\<close>

lemma rune_size_bounds: "rune_size s \<noteq> 0 \<Longrightarrow> rune_size s \<le> length s"
  by (cases s) (auto split: list.splits if_splits)

lemma rune_size_take:
  assumes "rune_size s \<noteq> 0"
  shows "rune_size (take (rune_size s) s @ t) = rune_size s"
proof -
  obtain a s' where s: "s = a # s'" using assms by (cases s) auto
  consider "byte a < 128" | b r where "s' = b # r" "\<not> byte a < 128" "byte a < 224" "rune_size s = 2"
    | b c r where "s' = b # c # r" "\<not> byte a < 224" "byte a < 240" "rune_size s = 3"
    | b c d r where "s' = b # c # d # r" "\<not> byte a < 240" "rune_size s = 4"
    using assms unfolding s by (auto split: list.splits if_splits)
  then show ?thesis
    by cases (use assms in \<open>auto simp: s numeral_2_eq_2 numeral_3_eq_3 split: if_splits\<close>)
qed

lemma unhex_hexLow: "n < 16 \<Longrightarrow> unhex (hexLow n) = Some n"
proof -
  have *: "list_all (\<lambda>n. unhex (hexLow n) = Some n) [0..<16]" by code_simp
  assume "n < 16"
  then have "n \<in> set [0..<16]" by simp
  with * show ?thesis unfolding list_all_iff by blast
qed

lemma json_escapes [simp]:
  "quote \<noteq> bslash" "bslash \<noteq> quote" "byte quote = 34" "byte bslash = 92"
  "simpleEscape (CHR ''u'') = None" "simpleEscape quote = Some quote" "simpleEscape bslash = Some bslash"
  "simpleEscape (CHR ''b'') = Some (chr_of 8)" "simpleEscape (CHR ''f'') = Some (chr_of 12)"
  "simpleEscape (CHR ''n'') = Some (chr_of 10)" "simpleEscape (CHR ''r'') = Some (chr_of 13)"
  "simpleEscape (CHR ''t'') = Some (chr_of 9)"
  by (simp_all add: simpleEscape_def quote_def bslash_def)

lemma byte_iff: "n < 256 \<Longrightarrow> byte c = n \<longleftrightarrow> c = chr_of n"
  by (auto simp: byte_chr_of)

lemma runeEscape_ascii:
  assumes "byte c < 128"
  shows "runeEscape (bslash # CHR ''u'' # CHR ''0'' # CHR ''0'' # hexLow (byte c div 16) # hexLow (byte c mod 16) # t)
    = Some ([c], t)"
proof -
  have "byte c div 16 < 16" "byte c mod 16 < 16" using assms by linarith+
  moreover have "unhex (CHR ''0'') = Some 0" by (simp add: unhex_def isDigit_def)
  ultimately have "hex4 (CHR ''0'') (CHR ''0'') (hexLow (byte c div 16)) (hexLow (byte c mod 16)) = Some (byte c)"
    by (simp add: hex4_def unhex_hexLow)
  then show ?thesis using assms by (simp add: runeEscape_def isSurrogate_def encodeRune_def)
qed

lemma scanString_escapeAscii:
  assumes "byte c < 128"
  shows "scanString (escapeAscii c @ t) = map_option (apfst (Cons c)) (scanString t)"
proof -
  have "map_option (apfst (append [c])) x = map_option (apfst (Cons c)) x" for x :: "(string \<times> string) option"
    by (cases x) auto
  then show ?thesis
    using assms by (auto simp: escapeAscii_def runeEscape_ascii byte_iff)
qed

lemma separators: 
  "runeEscape (bslash # CHR ''u'' # CHR ''2'' # CHR ''0'' # CHR ''2'' # CHR ''8'' # t) =
     Some ([chr_of 226, chr_of 128, chr_of 168], t)"
  "runeEscape (bslash # CHR ''u'' # CHR ''2'' # CHR ''0'' # CHR ''2'' # CHR ''9'' # t) =
     Some ([chr_of 226, chr_of 128, chr_of 169], t)"
  by (simp_all add: runeEscape_def hex4_def unhex_def isDigit_def isSurrogate_def encodeRune_def)

lemma scanString_rune:
  assumes "rune_size (c # s) = Suc m" and "\<not> byte c < 128"
  shows "scanString (c # take m s @ t) = map_option (apfst (append (c # take m s))) (scanString t)"
proof -
  have c: "c \<noteq> quote" "c \<noteq> bslash" "\<not> byte c < 32" using assms(2) by auto
  have m: "m \<le> length s" using rune_size_bounds [of "c # s"] assms(1) by (simp del: rune_size.simps)
  have n: "rune_size (c # take m s @ t) = Suc m"
    using rune_size_take [of "c # s" t] assms(1) by (simp del: rune_size.simps)
  show ?thesis
    unfolding scanString.simps(2) n using assms(2) c m by (simp del: rune_size.simps)
qed

lemma scanString_escapeRune:
  assumes "rune_size (c # s) = Suc m" and "\<not> byte c < 128"
  shows "scanString (escapeRune (c # take m s) @ t) =
    map_option (apfst (append (c # take m s))) (scanString t)"
proof (cases "line_separator (c # take m s)")
  case True
  then show ?thesis
    by (auto simp: line_separator_def escapeRune_def separators simp del: take_Cons')
next
  case False
  then have "escapeRune (c # take m s) = c # take m s"
    unfolding line_separator_def escapeRune_def by presburger
  then show ?thesis using scanString_rune [OF assms] by simp
qed

lemma scanString_escapeString: "valid_utf8 s \<Longrightarrow> scanString (escapeString s @ quote # r) = Some (s, r)"
proof (induction s rule: escapeString.induct)
  case (2 c s)
  show ?case
  proof (cases "byte c < 128")
    case True
    with 2 show ?thesis by (simp add: scanString_escapeAscii)
  next
    case False
    from 2(4) have z: "rune_size (c # s) \<noteq> 0" by (simp del: rune_size.simps)
    then obtain m where m: "rune_size (c # s) = Suc m" by (meson not0_implies_Suc)
    have "valid_utf8 (drop m s)" using 2(4) m by (simp del: rune_size.simps)
    then have "scanString (escapeString (drop m s) @ quote # r) = Some (drop m s, r)"
      using 2(3) [OF False z] m by (simp del: rune_size.simps)
    then show ?thesis
      using False scanString_escapeRune [OF m False, of "escapeString (drop m s) @ quote # r"]
      by (simp add: m del: rune_size.simps)
  qed
qed simp

text \<open>What may follow a value inside a document, or at its end.\<close>

definition value_end :: "string \<Rightarrow> bool" where
  "value_end r \<longleftrightarrow> (case r of [] \<Rightarrow> True | c # _ \<Rightarrow> c \<in> set '',]}'')"

lemma value_end_simps [simp]:
  "value_end []" "value_end (CHR '','' # r)" "value_end (CHR '']'' # r)" "value_end (CHR ''}'' # r)"
  by (simp_all add: value_end_def)

lemma utoa_leading: "0 < n \<Longrightarrow> hd (utoa n) \<noteq> CHR ''0''"
proof (induction n rule: utoa.induct)
  case (1 n)
  show ?case
  proof (cases "n < 10")
    case True
    then have "byte (digit_char n) \<noteq> 48" using 1 by simp
    then have "digit_char n \<noteq> CHR ''0''" by (auto dest: arg_cong [of _ _ "of_char :: char \<Rightarrow> nat"])
    with True show ?thesis by (subst utoa.simps) simp
  next
    case False
    with 1 show ?thesis by (subst utoa.simps) simp
  qed
qed

lemma spanDigits_end: "list_all isDigit ds \<Longrightarrow> value_end r \<Longrightarrow> spanDigits (ds @ r) = (ds, r)"
proof -
  assume *: "list_all isDigit ds" "value_end r"
  have "takeWhile isDigit r = [] \<and> dropWhile isDigit r = r"
    using *(2) by (cases r) (auto simp: value_end_def isDigit_def)
  with *(1) show ?thesis by (simp add: spanDigits_def list_all_iff takeWhile_append dropWhile_append)
qed

lemma scanInt_utoa:
  assumes "value_end r"
  shows "scanInt (utoa n @ r) = Some (utoa n, r)"
proof (cases "n = 0")
  case True
  have "utoa 0 = ''0''" by (subst utoa.simps) (simp add: digit_char_def char_of_eq_iff)
  with True show ?thesis by (simp add: scanInt_def)
next
  case False
  obtain c s where u: "utoa n = c # s" by (meson list.exhaust utoa_nonempty)
  have "c \<noteq> CHR ''0''" "isDigit c" using utoa_leading [of n] utoa_hd [of n] u False by auto
  moreover have "spanDigits (c # s @ r) = (c # s, r)"
    using spanDigits_end [OF utoa_digits [of n] assms] u by simp
  ultimately show ?thesis by (simp add: scanInt_def u)
qed

lemma scanFrac_end: "value_end r \<Longrightarrow> scanFrac r = Some ([], r)"
  by (cases r) (auto simp: scanFrac_def value_end_def)

lemma scanExp_end: "value_end r \<Longrightarrow> scanExp r = Some ([], r)"
  by (cases r) (auto simp: scanExp_def value_end_def)

lemma scanNumber_itoa:
  assumes "value_end r"
  shows "scanNumber (itoa i @ r) = Some (itoa i, r)"
proof -
  obtain c s where u: "utoa (nat i) = c # s" by (meson list.exhaust utoa_nonempty)
  then have "c \<noteq> CHR ''-''" using utoa_hd [of "nat i"] isDigit_not_sign by simp
  moreover note scanInt_utoa [OF assms, of "nat i", unfolded u]
  ultimately show ?thesis
    using assms by (simp add: scanNumber_def itoa_def scanInt_utoa scanFrac_end scanExp_end u)
qed

lemma scanToken_punct [simp]: "c \<in> set ''[]{},:'' \<Longrightarrow> scanToken (c # r) = Some (Punct c, r)"
  by (auto simp: scanToken_def isSpace_def)

lemma scanToken_string:
  "valid_utf8 s \<Longrightarrow> scanToken (quoteString s @ r) = Some (Scalar (JStr s), r)"
  by (simp add: scanToken_def quoteString_def isSpace_def scanString_escapeString)
     (simp add: quote_def scanString_escapeString [unfolded quote_def])

lemma scanToken_words [simp]:
  "scanToken (''null'' @ r) = Some (Scalar JNull, r)"
  "scanToken (''true'' @ r) = Some (Scalar (JBool True), r)"
  "scanToken (''false'' @ r) = Some (Scalar (JBool False), r)"
  by (simp_all add: scanToken_def isSpace_def quote_def)

lemma scanToken_int:
  assumes "value_end r"
  shows "scanToken (itoa i @ r) = Some (Scalar (JInt i), r)"
proof -
  obtain c s where i: "itoa i = c # s" by (cases "itoa i") (auto simp: itoa_def split: if_splits)
  have "c = CHR ''-'' \<or> isDigit c"
    using i utoa_hd [of "nat i"] by (auto simp: itoa_def split: if_splits)
  then have c: "c \<notin> set ''[]{},:''" "c \<noteq> quote" "\<not> isSpace c" "c \<noteq> CHR ''n''" "c \<noteq> CHR ''t''" "c \<noteq> CHR ''f''"
    by (auto simp: isDigit_def isSpace_def quote_def)
  then show ?thesis
    using scanNumber_itoa [OF assms, of i] by (simp add: scanToken_def i JInt_def)
qed

text \<open>The documents \<open>Marshal\<close> produces: valid UTF-8 strings, integer numbers.\<close>

fun marshallable :: "json \<Rightarrow> bool" where
  "marshallable JNull = True"
| "marshallable (JBool _) = True"
| "marshallable (JNum l) = (\<exists>i. l = itoa i)"
| "marshallable (JStr s) = valid_utf8 s"
| "marshallable (JArr vs) = (\<forall>v \<in> set vs. marshallable v)"
| "marshallable (JObj kvs) = (\<forall>kv \<in> set kvs. valid_utf8 (fst kv) \<and> marshallable (snd kv))"

text \<open>At most \<open>n\<close> nested containers.\<close>

fun depth_le :: "nat \<Rightarrow> json \<Rightarrow> bool" where
  "depth_le n (JArr vs) = (0 < n \<and> (\<forall>v \<in> set vs. depth_le (n - 1) v))"
| "depth_le n (JObj kvs) = (0 < n \<and> (\<forall>kv \<in> set kvs. depth_le (n - 1) (snd kv)))"
| "depth_le n _ = True"

abbreviation room :: "frame list \<Rightarrow> nat" where
  "room fs \<equiv> maxNestingDepth - length fs"

lemma scanToken_Marshal:
  assumes "marshallable v" and "value_end r"
  obtains t r' where "scanToken (Marshal v @ r) = Some (t, r')" and "t \<noteq> Punct (CHR '']'')"
proof (cases v)
  case (JNum l)
  then show ?thesis using assms that scanToken_int by auto
next
  case (JStr x)
  then show ?thesis using assms that scanToken_string by auto
next
  case (JBool b)
  then show ?thesis using that scanToken_words by (cases b) auto
qed (use that scanToken_words in auto)

lemma MarshalElems_end: "value_end ((if vs = [] then [] else CHR '','' # x) @ CHR '']'' # r)"
  "value_end ((if kvs = [] then [] else CHR '','' # x) @ CHR ''}'' # r)"
  by simp_all

lemma parse_first_elem:
  assumes "\<forall>v \<in> set vs. marshallable v" and "vs \<noteq> []"
  shows "parse WantElemOrEnd fs (MarshalElems vs @ CHR '']'' # r) =
    parse WantValue (InArr [] # fs) (MarshalElems vs @ CHR '']'' # r)"
proof -
  obtain v vs' where vs: "vs = v # vs'" using assms(2) by (cases vs) auto
  let ?r = "(if vs' = [] then [] else CHR '','' # MarshalElems vs') @ CHR '']'' # r"
  obtain t r' where "scanToken (Marshal v @ ?r) = Some (t, r')" and "t \<noteq> Punct (CHR '']'')"
    by (rule scanToken_Marshal [of v ?r]) (use assms(1) vs MarshalElems_end in auto)
  then show ?thesis by (cases t) (auto simp: vs)
qed

lemma parse_array:
  assumes "\<forall>v \<in> set vs. marshallable v" and "length fs < maxNestingDepth"
    and "vs \<noteq> [] \<Longrightarrow> parse WantValue (InArr [] # fs) (MarshalElems vs @ CHR '']'' # r) = parse (HaveValue (JArr vs)) fs r"
  shows "parse WantValue fs (Marshal (JArr vs) @ r) = parse (HaveValue (JArr vs)) fs r"
proof -
  have "parse WantElemOrEnd fs (MarshalElems vs @ CHR '']'' # r) = parse (HaveValue (JArr vs)) fs r"
    using assms(3) parse_first_elem [OF assms(1)] by (cases "vs = []") simp_all
  then show ?thesis using assms(2) by simp
qed

lemma parse_object:
  assumes "\<forall>kv \<in> set kvs. valid_utf8 (fst kv)" and "length fs < maxNestingDepth"
    and "kvs \<noteq> [] \<Longrightarrow> parse (WantKey []) fs (MarshalMembers kvs @ CHR ''}'' # r) = parse (HaveValue (JObj kvs)) fs r"
  shows "parse WantValue fs (Marshal (JObj kvs) @ r) = parse (HaveValue (JObj kvs)) fs r"
proof -
  have "parse WantKeyOrEnd fs (MarshalMembers kvs @ CHR ''}'' # r) =
      parse (WantKey []) fs (MarshalMembers kvs @ CHR ''}'' # r)" if "kvs \<noteq> []"
    using that assms(1) by (cases kvs) (auto simp: scanToken_string)
  with assms(3) have "parse WantKeyOrEnd fs (MarshalMembers kvs @ CHR ''}'' # r) = parse (HaveValue (JObj kvs)) fs r"
    by (cases "kvs = []") simp_all
  then show ?thesis using assms(2) by simp
qed

lemma parse_Marshal:
  "marshallable v \<Longrightarrow> depth_le (room fs) v \<Longrightarrow> value_end r \<Longrightarrow>
     parse WantValue fs (Marshal v @ r) = parse (HaveValue v) fs r"
  "(\<forall>v \<in> set vs. marshallable v \<and> depth_le (room (InArr acc # fs)) v) \<Longrightarrow> vs \<noteq> [] \<Longrightarrow>
     parse WantValue (InArr acc # fs) (MarshalElems vs @ CHR '']'' # r) =
     parse (HaveValue (JArr (rev acc @ vs))) fs r"
  "(\<forall>kv \<in> set kvs. valid_utf8 (fst kv) \<and> marshallable (snd kv) \<and> depth_le (room fs - 1) (snd kv)) \<Longrightarrow> kvs \<noteq> [] \<Longrightarrow>
     parse (WantKey macc) fs (MarshalMembers kvs @ CHR ''}'' # r) =
     parse (HaveValue (JObj (rev macc @ kvs))) fs r"
proof (induction v and vs and kvs arbitrary: fs r and acc fs r and macc fs r
    rule: Marshal_MarshalElems_MarshalMembers.induct)
  case (3 l)
  then show ?case by (auto simp: scanToken_int)  (simp add: JInt_def)
next
  case (4 s)
  then show ?case by (simp add: scanToken_string)
next
  case (5 vs)
  have "parse WantValue (InArr [] # fs) (MarshalElems vs @ CHR '']'' # r) = parse (HaveValue (JArr (rev [] @ vs))) fs r"
    if "vs \<noteq> []" by (rule "5.IH") (use 5 that in auto)
  then show ?case by (intro parse_array) (use 5 in auto)
next
  case (6 kvs)
  have "parse (WantKey []) fs (MarshalMembers kvs @ CHR ''}'' # r) = parse (HaveValue (JObj (rev [] @ kvs))) fs r"
    if "kvs \<noteq> []" by (rule "6.IH") (use 6 that in auto)
  then show ?case by (intro parse_object) (use 6 in auto)
next
  case (8 v vs)
  let ?r = "(if vs = [] then [] else CHR '','' # MarshalElems vs) @ CHR '']'' # r"
  have "parse WantValue (InArr acc # fs) (Marshal v @ ?r) = parse (HaveValue v) (InArr acc # fs) ?r"
    by (rule "8.IH") (use 8 MarshalElems_end in auto)
  also have "\<dots> = parse (HaveValue (JArr (rev acc @ v # vs))) fs r"
    using "8.IH"(2) [of "v # acc" fs r] 8(3) by (cases "vs = []") auto
  finally show ?case by simp
next
  case (10 k v kvs)
  let ?r = "(if kvs = [] then [] else CHR '','' # MarshalMembers kvs) @ CHR ''}'' # r"
  have "parse (WantKey macc) fs (MarshalMembers ((k, v) # kvs) @ CHR ''}'' # r) =
      parse WantValue (InObj macc k # fs) (Marshal v @ ?r)"
    using 10(3) by (simp add: scanToken_string)
  also have "\<dots> = parse (HaveValue v) (InObj macc k # fs) ?r"
    by (rule "10.IH") (use 10 MarshalElems_end in auto)
  also have "\<dots> = parse (HaveValue (JObj (rev macc @ (k, v) # kvs))) fs r"
    using "10.IH"(2) [of fs "(k, v) # macc" r] 10(3) by (cases "kvs = []") auto
  finally show ?case .
qed (simp_all add: scanToken_words [unfolded append.simps])

text \<open>Decoding what \<open>Marshal\<close> wrote yields the value, whatever follows it in the stream.\<close>

lemma parseValue_Marshal:
  assumes "marshallable v" and "depth_le maxNestingDepth v" and "value_end r"
  shows "parseValue (Marshal v @ r) = Some (v, r)"
  using parse_Marshal(1) [of v "[]" r] assms by (simp add: parseValue_def)

lemma Decode_Marshal:
  assumes "marshallable v" and "depth_le maxNestingDepth v"
  shows "Decode f (Marshal v) = f v"
  using parseValue_Marshal [OF assms, of "[]"] by (simp add: Decode_def)

lemma goMap_simps [simp]:
  "marshallable (goMap kvs) \<longleftrightarrow> (\<forall>kv \<in> set kvs. valid_utf8 (fst kv) \<and> marshallable (snd kv))"
  "depth_le n (goMap kvs) \<longleftrightarrow> 0 < n \<and> (\<forall>kv \<in> set kvs. depth_le (n - 1) (snd kv))"
  "goMap [(k, v)] = JObj [(k, v)]"
  by (simp_all add: goMap_def)

text \<open>ASCII strings are valid UTF-8.\<close>

lemma valid_utf8_ascii: "list_all (\<lambda>c. byte c < 128) s \<Longrightarrow> valid_utf8 s"
  by (induction s) simp_all

lemma valid_utf8_append: "valid_utf8 s \<Longrightarrow> valid_utf8 t \<Longrightarrow> valid_utf8 (s @ t)"
proof (induction s rule: valid_utf8.induct)
  case (2 c s)
  obtain m where m: "rune_size (c # s) = Suc m" using 2(2) by (cases "rune_size (c # s)") auto
  have l: "m \<le> length s" using rune_size_bounds [of "c # s"] m by (simp del: rune_size.simps)
  have "rune_size (take (Suc m) (c # s) @ drop (Suc m) (c # s) @ t) = Suc m"
    using rune_size_take [of "c # s" "drop (Suc m) (c # s) @ t"] m by (simp del: rune_size.simps)
  then have "rune_size (c # s @ t) = Suc m"
    by (simp del: rune_size.simps) (metis append_assoc append_take_drop_id)
  moreover have "valid_utf8 (drop m s @ t)"
    using 2 m by (simp del: rune_size.simps)
  ultimately show ?case using l by (simp del: rune_size.simps)
qed simp

end
