(* ===== verification/Go_Url.thy ===== *)
theory Go_Url
  imports Go_Text
begin

text \<open>
  \<open>url.Parse\<close> of Go's \<open>net/url\<close>, as far as the operator uses its result: the scheme, the host, and
  whether the text is a URL at all. \<open>http.NewRequest\<close> applies it to every request, and
  \<open>buildHelmRepositoryURL\<close> to the configured Harbor address.
\<close>

record URL =
  u_scheme :: string
  u_host :: string

section \<open>Scheme\<close>

definition isLetter :: "char \<Rightarrow> bool" where
  "isLetter c \<longleftrightarrow> (97 \<le> byte c \<and> byte c \<le> 122) \<or> (65 \<le> byte c \<and> byte c \<le> 90)"

definition schemeChar :: "char \<Rightarrow> bool" where
  "schemeChar c \<longleftrightarrow> isLetter c \<or> isDigit c \<or> c \<in> set ''+-.''"

text \<open>The scheme before the first colon and the rest; no scheme when some earlier byte cannot be in one.\<close>

definition getScheme :: "string \<Rightarrow> (string \<times> string) option" where
  "getScheme s =
     (let p = takeWhile schemeChar s; r = dropWhile schemeChar s in
      if p \<noteq> [] \<and> \<not> isLetter (hd p) then Some ([], s)
      else case r of
             c # r' \<Rightarrow> if c = CHR '':'' then (if p = [] then None else Some (p, r')) else Some ([], s)
           | [] \<Rightarrow> Some ([], s))"

definition toLower :: "string \<Rightarrow> string" where
  "toLower s = map (\<lambda>c. if 65 \<le> byte c \<and> byte c \<le> 90 then chr_of (byte c + 32) else c) s"

section \<open>Percent escapes\<close>

fun validEscapes :: "string \<Rightarrow> bool" where
  "validEscapes [] = True"
| "validEscapes (c # r) =
     (if c = CHR ''%'' then
        (case r of a # b # r' \<Rightarrow> unhex a \<noteq> None \<and> unhex b \<noteq> None \<and> validEscapes r' | _ \<Rightarrow> False)
      else validEscapes r)"

definition hostChar :: "char \<Rightarrow> bool" where
  "hostChar c \<longleftrightarrow> 128 \<le> byte c \<or> isAlnum c \<or> c \<in> set ''-_.~!$&()*+,;=:[]<>'' \<or> byte c = 39 \<or> byte c = 34"

text \<open>In a host only \<open>%25\<close> and escapes of non-ASCII bytes are allowed.\<close>

fun unescapeHost :: "string \<Rightarrow> string option" where
  "unescapeHost [] = Some []"
| "unescapeHost (c # r) =
     (if c = CHR ''%'' then
        (case r of
           a # b # r' \<Rightarrow>
             (case (unhex a, unhex b) of
                (Some x, Some y) \<Rightarrow>
                  if x < 8 \<and> \<not> (a = CHR ''2'' \<and> b = CHR ''5'') then None
                  else map_option (Cons (chr_of (16 * x + y))) (unescapeHost r')
              | _ \<Rightarrow> None)
         | _ \<Rightarrow> None)
      else if hostChar c then map_option (Cons c) (unescapeHost r) else None)"

text \<open>In a zone identifier an escape may also stand for a space or a byte a host may hold.\<close>

fun unescapeZone :: "string \<Rightarrow> string option" where
  "unescapeZone [] = Some []"
| "unescapeZone (c # r) =
     (if c = CHR ''%'' then
        (case r of
           a # b # r' \<Rightarrow>
             (case (unhex a, unhex b) of
                (Some x, Some y) \<Rightarrow>
                  if \<not> (a = CHR ''2'' \<and> b = CHR ''5'') \<and> 16 * x + y \<noteq> 32 \<and>
                     (128 \<le> 16 * x + y \<or> \<not> hostChar (chr_of (16 * x + y))) then None
                  else map_option (Cons (chr_of (16 * x + y))) (unescapeZone r')
              | _ \<Rightarrow> None)
         | _ \<Rightarrow> None)
      else if hostChar c then map_option (Cons c) (unescapeZone r) else None)"

section \<open>IP literals\<close>

fun splitOn :: "char \<Rightarrow> string \<Rightarrow> string list" where
  "splitOn d [] = [[]]"
| "splitOn d (c # s) = (if c = d then [] # splitOn d s
     else (case splitOn d s of x # xs \<Rightarrow> (c # x) # xs | [] \<Rightarrow> [[c]]))"

definition ip4Field :: "string \<Rightarrow> bool" where
  "ip4Field f \<longleftrightarrow> f \<noteq> [] \<and> list_all isDigit f \<and> (length f = 1 \<or> hd f \<noteq> CHR ''0'') \<and> digits_value f \<le> 255"

definition isIPv4 :: "string \<Rightarrow> bool" where
  "isIPv4 s \<longleftrightarrow> length (splitOn (CHR ''.'') s) = 4 \<and> list_all ip4Field (splitOn (CHR ''.'') s)"

text \<open>
  \<open>k\<close> 16-bit fields are still free and \<open>ell\<close> tells whether \<open>::\<close> has been seen; at the end, free fields
  and \<open>::\<close> require each other.
\<close>

fun ip6Fields :: "nat \<Rightarrow> bool \<Rightarrow> string \<Rightarrow> bool" where
  "ip6Fields 0 ell s = (s = [] \<and> \<not> ell)"
| "ip6Fields (Suc k) ell s =
     (let h = takeWhile (\<lambda>c. unhex c \<noteq> None) s; r = dropWhile (\<lambda>c. unhex c \<noteq> None) s in
      if h = [] \<or> 4 < length h then False
      else case r of
             [] \<Rightarrow> (0 < k) = ell
           | c # r' \<Rightarrow>
               if c = CHR ''.'' then 1 \<le> k \<and> (ell \<or> k = 1) \<and> isIPv4 s \<and> ((1 < k) = ell)
               else if c \<noteq> CHR '':'' then False
               else (case r' of
                       [] \<Rightarrow> False
                     | d # r'' \<Rightarrow>
                         if d = CHR '':'' then \<not> ell \<and> (if r'' = [] then 0 < k else ip6Fields k True r'')
                         else ip6Fields k ell r'))"

definition isIPv6 :: "string \<Rightarrow> bool" where
  "isIPv6 s =
     (let (addr, zone, zoned) = Cut s (CHR ''%'') in
      (\<not> zoned \<or> zone \<noteq> []) \<and> CHR '':'' \<in> set (takeWhile (\<lambda>c. c \<noteq> CHR ''.'') addr) \<and>
      (if HasPrefix addr ''::'' then drop 2 addr = [] \<or> ip6Fields 8 True (drop 2 addr)
       else ip6Fields 8 False addr))"

section \<open>Authority\<close>

definition validOptionalPort :: "string \<Rightarrow> bool" where
  "validOptionalPort s = (case s of [] \<Rightarrow> True | c # r \<Rightarrow> c = CHR '':'' \<and> list_all isDigit r)"

text \<open>The text before the first \<open>%25\<close>, and the text from there on.\<close>

fun cutZone :: "string \<Rightarrow> string \<times> string" where
  "cutZone [] = ([], [])"
| "cutZone (c # s) = (if HasPrefix (c # s) ''%25'' then ([], c # s) else apfst (Cons c) (cutZone s))"

definition parseHost :: "string \<Rightarrow> string option" where
  "parseHost host =
     (if CHR ''['' \<in> set host then
        (case host of
           c # r \<Rightarrow>
             if c \<noteq> CHR ''['' \<or> CHR ''['' \<in> set r then None
             else (case cutLast r (CHR '']'') of
                     None \<Rightarrow> None
                   | Some (name, port) \<Rightarrow>
                       if \<not> validOptionalPort port then None
                       else (case cutZone name of (a, z) \<Rightarrow>
                         (case (unescapeHost a, unescapeZone z) of
                            (Some a', Some z') \<Rightarrow>
                              if isIPv6 (a' @ z') then Some (''['' @ a' @ z' @ '']'' @ port) else None
                          | _ \<Rightarrow> None)))
         | [] \<Rightarrow> None)
      else (case Cut host (CHR '':'') of (_, port, colon) \<Rightarrow>
              if colon \<and> \<not> list_all isDigit port then None else unescapeHost host))"

definition validUserinfo :: "string \<Rightarrow> bool" where
  "validUserinfo s = list_all (\<lambda>c. isAlnum c \<or> c \<in> set ''-._:~!$&()*+,;=%@'' \<or> byte c = 39) s"

definition parseAuthority :: "string \<Rightarrow> string option" where
  "parseAuthority a = (case cutLast a (CHR ''@'') of
       None \<Rightarrow> parseHost a
     | Some (userinfo, host) \<Rightarrow>
         if validUserinfo userinfo \<and> validEscapes userinfo then parseHost host else None)"

section \<open>Parse\<close>

definition isCTL :: "char \<Rightarrow> bool" where
  "isCTL c \<longleftrightarrow> byte c < 32 \<or> byte c = 127"

text \<open>The part after the scheme and before the query: the host, when the text is well formed.\<close>

definition parseHier :: "string \<Rightarrow> string \<Rightarrow> string option" where
  "parseHier scheme rest =
     (if \<not> HasPrefix rest ''/'' then
        (if scheme \<noteq> [] then Some []
         else if CHR '':'' \<in> set (fst (Cut rest (CHR ''/''))) then None
         else if validEscapes rest then Some [] else None)
      else if (scheme \<noteq> [] \<or> \<not> HasPrefix rest ''///'') \<and> HasPrefix rest ''//'' then
        (let authority = takeWhile (\<lambda>c. c \<noteq> CHR ''/'') (drop 2 rest);
             path = dropWhile (\<lambda>c. c \<noteq> CHR ''/'') (drop 2 rest) in
         case parseAuthority authority of
           None \<Rightarrow> None
         | Some host \<Rightarrow> if validEscapes path then Some host else None)
      else if validEscapes rest then Some [] else None)"

definition url_Parse :: "string \<Rightarrow> error + URL" where
  "url_Parse raw =
     (case Cut raw (CHR ''#'') of (u, frag, _) \<Rightarrow>
        if list_ex isCTL u then Inl (StdError ''net/url: invalid control character in URL'')
        else case getScheme u of
               None \<Rightarrow> Inl (StdError ''missing protocol scheme'')
             | Some (scheme, rest) \<Rightarrow>
                 (case parseHier scheme (fst (Cut rest (CHR ''?''))) of
                    None \<Rightarrow> Inl (StdError ''malformed URL'')
                  | Some host \<Rightarrow>
                      if validEscapes frag then Inr \<lparr>u_scheme = toLower scheme, u_host = host\<rparr>
                      else Inl (StdError ''invalid URL escape'')))"

section \<open>Plain addresses\<close>

text \<open>The usual shape of a configured address: scheme, host name, optional port, path.\<close>

definition plainHost :: "string \<Rightarrow> bool" where
  "plainHost h \<longleftrightarrow> h \<noteq> [] \<and> list_all (\<lambda>c. isAlnum c \<or> c \<in> set ''-.'') h"

definition plainChar :: "char \<Rightarrow> bool" where
  "plainChar c \<longleftrightarrow> isAlnum c \<or> c \<in> set ''-._~/''"

lemma plain_imp: "isAlnum c \<Longrightarrow> hostChar c \<and> \<not> isCTL c \<and> c \<notin> set ''%[]:/@#?''"
  by (auto simp: hostChar_def isCTL_def isAlnum_def isDigit_def)

lemma plainHost_char: "plainHost h \<Longrightarrow> c \<in> set h \<Longrightarrow> hostChar c \<and> \<not> isCTL c \<and> c \<notin> set ''%[]:/@#?''"
proof -
  assume "plainHost h" and "c \<in> set h"
  then have "isAlnum c \<or> c = CHR ''-'' \<or> c = CHR ''.''" by (auto simp: plainHost_def list_all_iff)
  then show ?thesis using plain_imp [of c] by (elim disjE) (simp_all add: hostChar_def isCTL_def)
qed

lemma digits_char: "list_all isDigit p \<Longrightarrow> c \<in> set p \<Longrightarrow> hostChar c \<and> \<not> isCTL c \<and> c \<notin> set ''%[]:/@#?''"
  by (rule plain_imp) (auto simp: list_all_iff isAlnum_def)

lemma plainChar_char: "list_all plainChar p \<Longrightarrow> c \<in> set p \<Longrightarrow> \<not> isCTL c \<and> c \<notin> set ''%[]:@#?''"
proof -
  assume "list_all plainChar p" and "c \<in> set p"
  then have "isAlnum c \<or> c \<in> set ''-._~/''" by (auto simp: plainChar_def list_all_iff)
  then show ?thesis using plain_imp [of c] by (auto simp: isCTL_def)
qed

lemma unescapeHost_plain: "list_all (\<lambda>c. hostChar c \<and> c \<noteq> CHR ''%'') h \<Longrightarrow> unescapeHost h = Some h"
  by (induction h) auto

lemma cutLast_missing: "c \<notin> set s \<Longrightarrow> cutLast s c = None"
  by (simp add: cutLast_def Cut_missing)

lemma validEscapes_plain: "CHR ''%'' \<notin> set s \<Longrightarrow> validEscapes s"
  by (induction s) auto

lemma parseAuthority_plain:
  assumes "plainHost h" and "list_all isDigit port" and "sep = [] \<and> port = [] \<or> sep = '':''"
  shows "parseAuthority (h @ sep @ port) = Some (h @ sep @ port)"
proof -
  have h: "\<And>c. c \<in> set h \<Longrightarrow> hostChar c \<and> c \<notin> set ''%[]:/@#?''"
    using plainHost_char [OF assms(1)] by blast
  have p: "\<And>c. c \<in> set port \<Longrightarrow> hostChar c \<and> c \<notin> set ''%[]:/@#?''"
    using digits_char [OF assms(2)] by blast
  have "CHR ''@'' \<notin> set (h @ sep @ port)" "CHR ''['' \<notin> set (h @ sep @ port)"
    using h p assms(3) by fastforce+
  moreover have "case Cut (h @ sep @ port) (CHR '':'') of (_, r, found) \<Rightarrow> found \<longrightarrow> list_all isDigit r"
  proof (cases "sep = []")
    case True
    with assms(3) h have "CHR '':'' \<notin> set (h @ sep @ port)" by fastforce
    then show ?thesis by (simp add: Cut_missing)
  next
    case False
    with assms h have "Cut (h @ sep @ port) (CHR '':'') = (h, port, True)"
      by (auto intro!: Cut_found)
    then show ?thesis using assms(2) by simp
  qed
  moreover have "unescapeHost (h @ sep @ port) = Some (h @ sep @ port)"
    by (rule unescapeHost_plain) (use h p assms(3) in \<open>fastforce simp: list_all_iff hostChar_def\<close>)
  ultimately show ?thesis
    by (auto simp: parseAuthority_def cutLast_missing parseHost_def)
qed

lemma span_append:
  assumes "\<forall>c \<in> set a. P c" and "takeWhile P b = []"
  shows "takeWhile P (a @ b) = a \<and> dropWhile P (a @ b) = b"
  using assms by (induction a) (auto, cases b, auto split: if_splits)

lemma url_Parse_plain:
  assumes "scheme \<in> {''http'', ''https''}" and "plainHost h" and "list_all isDigit port"
    and "sep = [] \<and> port = [] \<or> sep = '':''" and "path = [] \<or> HasPrefix path ''/''" and "list_all plainChar path"
  shows "url_Parse (scheme @ ''://'' @ h @ sep @ port @ path) =
     Inr \<lparr>u_scheme = scheme, u_host = h @ sep @ port\<rparr>"
proof -
  let ?a = "h @ sep @ port" and ?rest = "''//'' @ h @ sep @ port @ path"
  have h: "\<And>c. c \<in> set h \<Longrightarrow> \<not> isCTL c \<and> c \<notin> set ''%[]:/@#?''"
    using plainHost_char [OF assms(2)] by blast
  have p: "\<And>c. c \<in> set port \<Longrightarrow> \<not> isCTL c \<and> c \<notin> set ''%[]:/@#?''"
    using digits_char [OF assms(3)] by blast
  have q: "\<And>c. c \<in> set path \<Longrightarrow> \<not> isCTL c \<and> c \<notin> set ''%[]:@#?''"
    using plainChar_char [OF assms(6)] by blast
  have a: "\<And>c. c \<in> set ?a \<Longrightarrow> \<not> isCTL c \<and> c \<notin> set ''%[]/@#?''"
    using h p assms(4) by (auto simp: isCTL_def)
  have all: "\<And>c. c \<in> set ?rest \<Longrightarrow> \<not> isCTL c \<and> c \<notin> set ''%#?''"
    using a q by (auto simp: isCTL_def)
  have s: "\<And>c. c \<in> set scheme \<Longrightarrow> \<not> isCTL c \<and> schemeChar c \<and> isLetter c \<and> c \<noteq> CHR ''#''"
    using assms(1) by (auto simp: schemeChar_def isLetter_def isCTL_def)
  have sch: "getScheme (scheme @ '':'' @ ?rest) = Some (scheme, ?rest)"
    using assms(1) by (auto simp: getScheme_def schemeChar_def isLetter_def isDigit_def)
  have tw: "takeWhile (\<lambda>c. c \<noteq> CHR ''/'') ((h @ sep @ port) @ path) = ?a \<and> dropWhile (\<lambda>c. c \<noteq> CHR ''/'') ((h @ sep @ port) @ path) = path"
  proof (rule span_append)
    show "\<forall>c \<in> set ?a. c \<noteq> CHR ''/''" using a by auto
    show "takeWhile (\<lambda>c. c \<noteq> CHR ''/'') path = []" using assms(5) by (cases path) auto
  qed
  have hier: "parseHier scheme ?rest = Some ?a"
    using parseAuthority_plain [OF assms(2-4)] tw assms(1) q
    by (auto simp: parseHier_def intro!: validEscapes_plain)
  have "Cut (scheme @ '':'' @ ?rest) (CHR ''#'') = (scheme @ '':'' @ ?rest, [], False)"
    using s all by (intro Cut_missing) fastforce
  moreover have "Cut ?rest (CHR ''?'') = (?rest, [], False)" using all by (intro Cut_missing) fastforce
  moreover have "\<not> list_ex isCTL (scheme @ '':'' @ ?rest)" using s all by (fastforce simp: list_ex_iff isCTL_def)
  ultimately show ?thesis
    using sch hier assms(1) by (auto simp: url_Parse_def toLower_def)
qed

end
