(* ===== verification/Harbor_Client.thy ===== *)
theory Harbor_Client
  imports Kube_Types Go_Json Go_Url "HOL-Library.AList"
begin

text \<open>
  \<open>src/internal/harbor/client.go\<close>: the Harbor REST client. The HTTP transport (Go's \<open>http.Client\<close>, the
  network and the Harbor server behind it) and the iteration order of a Go map are parameters; URL
  building, JSON encoding and decoding, status handling and the order of requests are the code's.
\<close>

section \<open>Parameters and data\<close>

text \<open>
  \<open>tr_Do\<close> answers a request, with a response or the text of a transport error; \<open>tr_MapOrder\<close> is the order in which a \<open>range\<close> over a map visits its keys,
  which Go leaves open.
\<close>

record 's transport =
  tr_Do :: "http_request \<Rightarrow> 's \<Rightarrow> (string + http_response) \<times> 's"
  tr_MapOrder :: "'s \<Rightarrow> string list \<Rightarrow> string list"

definition RoleProjectAdmin :: int where [go_consts]: "RoleProjectAdmin = 1"
definition RoleDeveloper :: int where [go_consts]: "RoleDeveloper = 2"
definition RoleGuest :: int where [go_consts]: "RoleGuest = 3"

definition robotsPath :: string where "robotsPath = ''/api/v2.0/robots''"

record ProjectMember =
  pm_Username :: string
  pm_RoleID :: int

record RobotCredentials =
  rc_Name :: string
  rc_Secret :: string

text \<open>The Go interface \<open>harbor.Client\<close>; a nil credentials pointer is \<open>None\<close>.\<close>

record 's HarborClient =
  EnsureProject :: "string \<Rightarrow> ('s, unit) io"
  ReconcileProjectMembers :: "string \<Rightarrow> ProjectMember list \<Rightarrow> ('s, string list) io"
  EnsureRobot :: "string \<Rightarrow> string \<Rightarrow> ('s, RobotCredentials option) io"
  RefreshRobotSecret :: "string \<Rightarrow> string \<Rightarrow> ('s, RobotCredentials option) io"

record httpClient =
  hc_baseURL :: string
  hc_username :: string
  hc_password :: string

record existingMember =
  em_ID :: int
  em_RoleID :: int
  em_Username :: string

record robotRef =
  robot_ID :: int
  robot_Name :: string

abbreviation "StatusOK \<equiv> 200 :: int"
abbreviation "StatusCreated \<equiv> 201 :: int"
abbreviation "StatusNotFound \<equiv> 404 :: int"
abbreviation "StatusConflict \<equiv> 409 :: int"

section \<open>Requests\<close>

definition httpRequest :: "httpClient \<Rightarrow> http_method \<Rightarrow> string \<Rightarrow> string option \<Rightarrow> http_request" where
  "httpRequest c method path body = \<lparr>rq_method = method, rq_url = hc_baseURL c @ path,
     rq_user = hc_username c, rq_password = hc_password c, rq_body = body\<rparr>"

text \<open>A text that is no URL fails in \<open>http.NewRequestWithContext\<close>, before anything is sent.\<close>

definition http_do ::
    "'s transport \<Rightarrow> httpClient \<Rightarrow> http_method \<Rightarrow> string \<Rightarrow> string option \<Rightarrow> ('s, http_response) io" where
  "http_do tr c method path body =
     (case url_Parse (hc_baseURL c @ path) of
        Inl err \<Rightarrow> fail err
      | Inr _ \<Rightarrow> (let req = httpRequest c method path body in
                   request (EvHTTP req) (\<lambda>w. apfst (map_sum StdError id) (tr_Do tr req w))))"

definition doJSON ::
    "'s transport \<Rightarrow> httpClient \<Rightarrow> http_method \<Rightarrow> string \<Rightarrow> json \<Rightarrow> ('s, http_response) io" where
  "doJSON tr c method path body = http_do tr c method path (Some (Marshal body))"

definition unexpectedStatus :: "string \<Rightarrow> http_response \<Rightarrow> error" where
  "unexpectedStatus operation resp =
     Errorf ''%s: unexpected status %d: %s'' [operation, itoa (StatusCode resp), take 512 (Body resp)]"

section \<open>Projects\<close>

definition projectExists :: "'s transport \<Rightarrow> httpClient \<Rightarrow> string \<Rightarrow> ('s, bool) io" where
  "projectExists tr c projectName =
     andThen (http_do tr c MethodHead (''/api/v2.0/projects?project_name='' @ projectName) None) (\<lambda>resp.
       if StatusCode resp = StatusOK then ret True
       else if StatusCode resp = StatusNotFound then ret False
       else fail (unexpectedStatus ''checking Harbor project'' resp))"

definition projectBody :: "string \<Rightarrow> json" where
  "projectBody projectName = goMap [(''project_name'', JStr projectName), (''public'', JBool False)]"

definition http_EnsureProject :: "'s transport \<Rightarrow> httpClient \<Rightarrow> string \<Rightarrow> ('s, unit) io" where
  "http_EnsureProject tr c projectName =
     andThen (wrapErr ''checking Harbor project existence: %w'' [] (projectExists tr c projectName)) (\<lambda>exists.
       if exists then ret ()
       else andThen (wrapErr ''creating Harbor project: %w'' []
                       (doJSON tr c MethodPost ''/api/v2.0/projects'' (projectBody projectName))) (\<lambda>resp.
         if StatusCode resp = StatusCreated \<or> StatusCode resp = StatusConflict then ret ()
         else fail (unexpectedStatus ''creating Harbor project'' resp)))"

definition projectFields :: "int fields" where
  "projectFields = [(''project_id'', \<lambda>j r. decodeInt j r)]"

definition getProjectID :: "'s transport \<Rightarrow> httpClient \<Rightarrow> string \<Rightarrow> ('s, int) io" where
  "getProjectID tr c projectName =
     andThen (http_do tr c MethodGet (''/api/v2.0/projects/'' @ PathEscape projectName) None) (\<lambda>resp.
       if StatusCode resp \<noteq> StatusOK then fail (unexpectedStatus ''getting Harbor project'' resp)
       else case Decode (decodeStruct projectFields 0) (Body resp) of
              Inl err \<Rightarrow> fail (Wrapf ''decoding Harbor project response: %w'' [] err)
            | Inr projectID \<Rightarrow> ret projectID)"

section \<open>Members\<close>

definition membersPath :: "string \<Rightarrow> string" where
  "membersPath projectName = ''/api/v2.0/projects/'' @ projectName @ ''/members''"

definition memberFields :: "existingMember fields" where
  "memberFields =
     [(''id'', \<lambda>j r. map_sum id (\<lambda>i. r\<lparr>em_ID := i\<rparr>) (decodeInt j (em_ID r))),
      (''role_id'', \<lambda>j r. map_sum id (\<lambda>i. r\<lparr>em_RoleID := i\<rparr>) (decodeInt j (em_RoleID r))),
      (''entity_name'', \<lambda>j r. map_sum id (\<lambda>s. r\<lparr>em_Username := s\<rparr>) (decodeString j (em_Username r)))]"

definition decodeMemberList :: "string \<Rightarrow> error + existingMember list" where
  "decodeMemberList body =
     Decode (decodeSlice (decodeStruct memberFields \<lparr>em_ID = 0, em_RoleID = 0, em_Username = []\<rparr>)) body"

definition addMemberBody :: "string \<Rightarrow> int \<Rightarrow> json" where
  "addMemberBody username roleID =
     goMap [(''role_id'', JInt roleID), (''member_user'', goMap [(''username'', JStr username)])]"

definition addProjectMember ::
    "'s transport \<Rightarrow> httpClient \<Rightarrow> string \<Rightarrow> string \<Rightarrow> int \<Rightarrow> ('s, unit) io" where
  "addProjectMember tr c basePath username roleID =
     andThen (doJSON tr c MethodPost basePath (addMemberBody username roleID)) (\<lambda>resp.
       if StatusCode resp = StatusCreated \<or> StatusCode resp = StatusConflict then ret ()
       else if StatusCode resp = StatusNotFound then fail ErrUserNotFound
       else fail (unexpectedStatus ''adding project member'' resp))"

definition memberPath :: "string \<Rightarrow> int \<Rightarrow> string" where
  "memberPath basePath memberID = basePath @ ''/'' @ itoa memberID"

definition updateProjectMember ::
    "'s transport \<Rightarrow> httpClient \<Rightarrow> string \<Rightarrow> int \<Rightarrow> int \<Rightarrow> ('s, unit) io" where
  "updateProjectMember tr c basePath memberID roleID =
     andThen (doJSON tr c MethodPut (memberPath basePath memberID) (goMap [(''role_id'', JInt roleID)])) (\<lambda>resp.
       if StatusCode resp \<noteq> StatusOK then fail (unexpectedStatus ''updating project member role'' resp)
       else ret ())"

definition deleteProjectMember :: "'s transport \<Rightarrow> httpClient \<Rightarrow> string \<Rightarrow> int \<Rightarrow> ('s, unit) io" where
  "deleteProjectMember tr c basePath memberID =
     andThen (http_do tr c MethodDelete (memberPath basePath memberID) None) (\<lambda>resp.
       if StatusCode resp \<noteq> StatusOK then fail (unexpectedStatus ''removing project member'' resp)
       else ret ())"

text \<open>The lookup \<open>existingByName\<close>; a name listed twice keeps its last entry.\<close>

definition membersByName :: "existingMember list \<Rightarrow> (string \<times> existingMember) list" where
  "membersByName existing = foldl (\<lambda>m e. AList.update (em_Username e) e m) [] existing"

text \<open>The loop over \<open>desired\<close>: what is left of the lookup, and the users Harbor does not have.\<close>

fun syncDesired ::
    "'s transport \<Rightarrow> httpClient \<Rightarrow> string \<Rightarrow> ProjectMember list \<Rightarrow> (string \<times> existingMember) list \<Rightarrow>
     string list \<Rightarrow> ('s, (string \<times> existingMember) list \<times> string list) io" where
  "syncDesired tr c basePath [] existingByName missing = ret (existingByName, missing)"
| "syncDesired tr c basePath (d # desired) existingByName missing =
     (case map_of existingByName (pm_Username d) of
        Some cur \<Rightarrow>
          andThen
            (if em_RoleID cur \<noteq> pm_RoleID d
             then wrapErr ''updating member %s: %w'' [pm_Username d]
                    (updateProjectMember tr c basePath (em_ID cur) (pm_RoleID d))
             else ret ())
            (\<lambda>_. syncDesired tr c basePath desired (AList.delete (pm_Username d) existingByName) missing)
      | None \<Rightarrow>
          onResult (addProjectMember tr c basePath (pm_Username d) (pm_RoleID d))
            (\<lambda>err. if IsErrUserNotFound err
                   then syncDesired tr c basePath desired existingByName (missing @ [pm_Username d])
                   else fail (Wrapf ''adding member %s: %w'' [pm_Username d] err))
            (\<lambda>_. syncDesired tr c basePath desired existingByName missing))"

definition removeLeftover ::
    "'s transport \<Rightarrow> httpClient \<Rightarrow> string \<Rightarrow> (string \<times> existingMember) list \<Rightarrow> ('s, unit) io" where
  "removeLeftover tr c basePath existingByName = (\<lambda>s.
     forEach (\<lambda>name. case map_of existingByName name of
         Some cur \<Rightarrow> wrapErr ''removing member %s: %w'' [em_Username cur]
                       (deleteProjectMember tr c basePath (em_ID cur))
       | None \<Rightarrow> ret ()) (tr_MapOrder tr (world s) (map fst existingByName)) s)"

definition http_ReconcileProjectMembers ::
    "'s transport \<Rightarrow> httpClient \<Rightarrow> string \<Rightarrow> ProjectMember list \<Rightarrow> ('s, string list) io" where
  "http_ReconcileProjectMembers tr c projectName desired =
     (let basePath = membersPath projectName in
      andThen (wrapErr ''listing project members: %w'' [] (http_do tr c MethodGet basePath None)) (\<lambda>resp.
        if StatusCode resp \<noteq> StatusOK then fail (unexpectedStatus ''listing project members'' resp)
        else case decodeMemberList (Body resp) of
               Inl err \<Rightarrow> fail (Wrapf ''decoding project members: %w'' [] err)
             | Inr existing \<Rightarrow>
                 andThen (syncDesired tr c basePath desired (membersByName existing) []) (\<lambda>(existingByName, missing).
                   andThen (removeLeftover tr c basePath existingByName) (\<lambda>_. ret missing))))"

section \<open>Robots\<close>

definition robotFullName :: "string \<Rightarrow> string \<Rightarrow> string" where
  "robotFullName projectName robotName = ''robot$'' @ projectName @ ''+'' @ robotName"

definition robotQuery :: "int \<Rightarrow> string \<Rightarrow> string \<Rightarrow> string" where
  "robotQuery projectID projectName robotName =
     ''Level=project,ProjectID='' @ itoa projectID @ '',name=~'' @ projectName @ ''+'' @ robotName"

definition robotFields :: "robotRef fields" where
  "robotFields =
     [(''id'', \<lambda>j r. map_sum id (\<lambda>i. r\<lparr>robot_ID := i\<rparr>) (decodeInt j (robot_ID r))),
      (''name'', \<lambda>j r. map_sum id (\<lambda>s. r\<lparr>robot_Name := s\<rparr>) (decodeString j (robot_Name r)))]"

definition decodeRobots :: "string \<Rightarrow> error + robotRef list" where
  "decodeRobots body = Decode (decodeSlice (decodeStruct robotFields \<lparr>robot_ID = 0, robot_Name = []\<rparr>)) body"

definition findRobot :: "'s transport \<Rightarrow> httpClient \<Rightarrow> string \<Rightarrow> string \<Rightarrow> ('s, robotRef option) io" where
  "findRobot tr c projectName robotName =
     andThen (getProjectID tr c projectName) (\<lambda>projectID.
       let path = robotsPath @ ''?q='' @ QueryEscape (QueryEscape (robotQuery projectID projectName robotName)) in
       andThen (http_do tr c MethodGet path None) (\<lambda>resp.
         if StatusCode resp \<noteq> StatusOK then fail (unexpectedStatus ''listing Harbor robots'' resp)
         else case decodeRobots (Body resp) of
                Inl err \<Rightarrow> fail (Wrapf ''decoding Harbor robots response: %w'' [] err)
              | Inr robots \<Rightarrow> ret (find (\<lambda>r. robot_Name r = robotFullName projectName robotName) robots)))"

definition robotBody :: "string \<Rightarrow> string \<Rightarrow> json" where
  "robotBody projectName robotName =
     goMap [(''name'', JStr robotName), (''duration'', JInt (- 1)), (''level'', JStr ''project''),
       (''permissions'', JArr [goMap
          [(''kind'', JStr ''project''), (''namespace'', JStr projectName),
           (''access'', JArr [goMap [(''resource'', JStr ''repository''), (''action'', JStr ''pull'')],
                              goMap [(''resource'', JStr ''repository''), (''action'', JStr ''push'')]])]])]"

definition credentialFields :: "RobotCredentials fields" where
  "credentialFields =
     [(''name'', \<lambda>j r. map_sum id (\<lambda>s. r\<lparr>rc_Name := s\<rparr>) (decodeString j (rc_Name r))),
      (''secret'', \<lambda>j r. map_sum id (\<lambda>s. r\<lparr>rc_Secret := s\<rparr>) (decodeString j (rc_Secret r)))]"

definition createRobot :: "'s transport \<Rightarrow> httpClient \<Rightarrow> string \<Rightarrow> string \<Rightarrow> ('s, RobotCredentials option) io" where
  "createRobot tr c projectName robotName =
     andThen (wrapErr ''creating Harbor robot account: %w'' []
                (doJSON tr c MethodPost robotsPath (robotBody projectName robotName))) (\<lambda>resp.
       if StatusCode resp = StatusConflict then ret None
       else if StatusCode resp \<noteq> StatusCreated then fail (unexpectedStatus ''creating Harbor robot account'' resp)
       else case Decode (decodeStruct credentialFields \<lparr>rc_Name = [], rc_Secret = []\<rparr>) (Body resp) of
              Inl err \<Rightarrow> fail (Wrapf ''decoding Harbor robot response: %w'' [] err)
            | Inr result \<Rightarrow>
                if rc_Secret result = []
                then fail (Errorf ''creating Harbor robot account: Harbor returned an empty secret'' [])
                else ret (Some result))"

definition http_EnsureRobot :: "'s transport \<Rightarrow> httpClient \<Rightarrow> string \<Rightarrow> string \<Rightarrow> ('s, RobotCredentials option) io" where
  "http_EnsureRobot tr c projectName robotName =
     andThen (wrapErr ''checking Harbor robot existence: %w'' [] (findRobot tr c projectName robotName)) (\<lambda>existing.
       if existing \<noteq> None then ret None else createRobot tr c projectName robotName)"

definition deleteRobot :: "'s transport \<Rightarrow> httpClient \<Rightarrow> int \<Rightarrow> ('s, unit) io" where
  "deleteRobot tr c robotID =
     andThen (wrapErr ''deleting Harbor robot account: %w'' []
                (http_do tr c MethodDelete (robotsPath @ ''/'' @ itoa robotID) None)) (\<lambda>resp.
       if StatusCode resp \<noteq> StatusOK \<and> StatusCode resp \<noteq> StatusNotFound
       then fail (unexpectedStatus ''deleting Harbor robot account'' resp) else ret ())"

definition http_RefreshRobotSecret ::
    "'s transport \<Rightarrow> httpClient \<Rightarrow> string \<Rightarrow> string \<Rightarrow> ('s, RobotCredentials option) io" where
  "http_RefreshRobotSecret tr c projectName robotName =
     andThen (wrapErr ''finding Harbor robot to refresh: %w'' [] (findRobot tr c projectName robotName)) (\<lambda>existing.
       case existing of
         None \<Rightarrow> fail (Errorf ''refreshing Harbor robot secret: robot %q does not exist in project %q'' [robotName, projectName])
       | Some robot \<Rightarrow>
           andThen (deleteRobot tr c (robot_ID robot)) (\<lambda>_.
             andThen (wrapErr ''re-creating Harbor robot after delete: %w'' [] (createRobot tr c projectName robotName)) (\<lambda>creds.
               if creds = None
               then fail (Errorf ''refreshing Harbor robot secret: robot %q in project %q was re-created concurrently'' [robotName, projectName])
               else ret creds)))"

section \<open>The client\<close>

definition newHTTPClient :: "string \<Rightarrow> string \<Rightarrow> string \<Rightarrow> httpClient" where
  "newHTTPClient baseURL username password =
     \<lparr>hc_baseURL = TrimRight baseURL ''/'', hc_username = username, hc_password = password\<rparr>"

definition NewClient :: "'s transport \<Rightarrow> string \<Rightarrow> string \<Rightarrow> string \<Rightarrow> 's HarborClient" where
  "NewClient tr baseURL username password =
     (let c = newHTTPClient baseURL username password in
      \<lparr>EnsureProject = http_EnsureProject tr c,
       ReconcileProjectMembers = http_ReconcileProjectMembers tr c,
       EnsureRobot = http_EnsureRobot tr c,
       RefreshRobotSecret = http_RefreshRobotSecret tr c\<rparr>)"

section \<open>What the client sends\<close>

text \<open>
  The requests that concern one project: its own resources, and in the cluster-wide collections
  only the creation of the project, the creation of a robot confined to it, a robot listing, and the
  deletion of one robot by number.
\<close>

definition concerns :: "string \<Rightarrow> http_method \<Rightarrow> string \<Rightarrow> string option \<Rightarrow> bool" where
  "concerns p m path b \<longleftrightarrow>
     m = MethodHead \<and> path = ''/api/v2.0/projects?project_name='' @ p \<and> b = None \<or>
     m = MethodPost \<and> path = ''/api/v2.0/projects'' \<and> b = Some (Marshal (projectBody p)) \<or>
     m = MethodGet \<and> path = ''/api/v2.0/projects/'' @ PathEscape p \<and> b = None \<or>
     path = membersPath p \<or> (\<exists>i. path = memberPath (membersPath p) i) \<or>
     m = MethodGet \<and> b = None \<and> (\<exists>q. path = robotsPath @ ''?q='' @ q) \<or>
     m = MethodPost \<and> path = robotsPath \<and> (\<exists>r. b = Some (Marshal (robotBody p r))) \<or>
     m = MethodDelete \<and> b = None \<and> (\<exists>i. path = robotsPath @ ''/'' @ itoa i)"

definition project_scope :: "httpClient \<Rightarrow> string \<Rightarrow> http_request set" where
  "project_scope c p = {httpRequest c m path b | m path b. concerns p m path b}"

fun only_http :: "http_request set \<Rightarrow> event \<Rightarrow> bool" where
  "only_http H (EvHTTP q) \<longleftrightarrow> q \<in> H"
| "only_http H _ \<longleftrightarrow> False"

lemma emits_http_do [emits_rules]:
  "only_http H (EvHTTP (httpRequest c m path b)) \<Longrightarrow> emits (only_http H) (http_do tr c m path b)"
  unfolding http_do_def Let_def
  by (cases "url_Parse (hc_baseURL c @ path)") (simp_all add: emits_fail emits_request)

lemma emits_sum [emits_rules]:
  "(\<And>e. emits P (f e)) \<Longrightarrow> (\<And>x. emits P (g x)) \<Longrightarrow> emits P (case r of Inl e \<Rightarrow> f e | Inr x \<Rightarrow> g x)"
  by (cases r) simp_all

lemma emits_pair [emits_rules]: "(\<And>a b. emits P (f a b)) \<Longrightarrow> emits P (case p of (a, b) \<Rightarrow> f a b)"
  by (cases p) simp

lemma emits_syncDesired [emits_rules]:
  assumes "\<And>m i b. only_http H (EvHTTP (httpRequest c m (memberPath bp i) b))"
    and "\<And>m b. only_http H (EvHTTP (httpRequest c m bp b))"
  shows "emits (only_http H) (syncDesired tr c bp ds ex ms)"
proof (induction ds arbitrary: ex ms)
  case Nil
  show ?case by (simp add: emits_ret)
next
  case (Cons d ds)
  show ?case
    unfolding syncDesired.simps updateProjectMember_def addProjectMember_def doJSON_def
    by (intro emits_rules Cons.IH assms)
qed

lemma emits_removeLeftover [emits_rules]:
  assumes "\<And>m i b. only_http H (EvHTTP (httpRequest c m (memberPath bp i) b))"
  shows "emits (only_http H) (removeLeftover tr c bp ex)"
proof -
  have "emits (only_http H) (forEach (\<lambda>name. case map_of ex name of
         Some cur \<Rightarrow> wrapErr ''removing member %s: %w'' [em_Username cur] (deleteProjectMember tr c bp (em_ID cur))
       | None \<Rightarrow> ret ()) ks)" for ks
    unfolding deleteProjectMember_def by (intro emits_rules assms)
  then show ?thesis unfolding removeLeftover_def emits_def by blast
qed

lemmas harbor_op_defs = http_EnsureProject_def projectExists_def doJSON_def http_ReconcileProjectMembers_def
  http_EnsureRobot_def findRobot_def getProjectID_def createRobot_def http_RefreshRobotSecret_def
  deleteRobot_def

lemma in_project_scope: "concerns p m path b \<Longrightarrow> only_http (project_scope c p) (EvHTTP (httpRequest c m path b))"
  by (auto simp: project_scope_def)

lemma concernsI:
  "concerns p MethodHead (''/api/v2.0/projects?project_name='' @ p) None"
  "concerns p MethodPost ''/api/v2.0/projects'' (Some (Marshal (projectBody p)))"
  "concerns p MethodGet (''/api/v2.0/projects/'' @ PathEscape p) None"
  "concerns p m (membersPath p) b" "concerns p m (memberPath (membersPath p) i) b"
  "concerns p MethodGet (robotsPath @ ''?q='' @ q) None"
  "concerns p MethodPost robotsPath (Some (Marshal (robotBody p r)))"
  "concerns p MethodDelete (robotsPath @ ''/'' @ itoa i) None"
  unfolding concerns_def by blast+

lemma emits_harbor_ops:
  "emits (only_http (project_scope c p)) (http_EnsureProject tr c p)"
  "emits (only_http (project_scope c p)) (http_ReconcileProjectMembers tr c p ds)"
  "emits (only_http (project_scope c p)) (http_EnsureRobot tr c p r)"
  "emits (only_http (project_scope c p)) (http_RefreshRobotSecret tr c p r)"
  unfolding harbor_op_defs Let_def
  by (intro emits_rules in_project_scope concernsI)+

section \<open>What the client answers\<close>

text \<open>
  No error of the Harbor client is an error of the Kubernetes API or a namespace conflict, so the
  controller never mistakes one for a write conflict it retries silently.
\<close>

definition plain_error :: "error \<Rightarrow> bool" where
  "plain_error e \<longleftrightarrow> \<not> IsAPIError e \<and> AsNamespaceConflict e = None"

lemma plain_error_simps [simp]:
  "plain_error (StdError m)" "plain_error (Errorf f as)" "plain_error ErrUserNotFound"
  "plain_error (Wrapf f as e) = plain_error e"
  by (simp_all add: plain_error_def IsAPIError_def)

lemma url_Parse_plain_error: "url_Parse u = Inl e \<Longrightarrow> plain_error e"
  by (auto simp: url_Parse_def split: prod.splits option.splits if_splits)

lemma outcome_http_do [outcome_rules]: "outcome (\<lambda>_. True) plain_error (http_do tr c m path b)"
proof (rule outcomeI)
  fix s e s'
  assume "http_do tr c m path b s = (Inl e, s')"
  then show "plain_error e"
    by (cases "url_Parse (hc_baseURL c @ path)"; cases "fst (tr_Do tr (httpRequest c m path b) (world s))")
       (auto simp: http_do_def fail_def request_def Let_def apfst_def map_prod_def url_Parse_plain_error
         split: prod.splits)
qed simp

definition plain_result :: "error + 'a \<Rightarrow> bool" where
  "plain_result r = (case r of Inl e \<Rightarrow> plain_error e | Inr _ \<Rightarrow> True)"

definition plain_fields :: "'r fields \<Rightarrow> bool" where
  "plain_fields flds \<longleftrightarrow> (\<forall>f \<in> set flds. \<forall>j r. plain_result (snd f j r))"

lemma plain_result_Inr [simp]: "plain_result (Inr x)"
  by (simp add: plain_result_def)

lemma plain_resultD: "plain_result r \<Longrightarrow> r = Inl e \<Longrightarrow> plain_error e"
  by (simp add: plain_result_def)

lemma plain_result_bind:
  "plain_result r \<Longrightarrow> (\<And>x. plain_result (f x)) \<Longrightarrow> plain_result (case r of Inl e \<Rightarrow> Inl e | Inr x \<Rightarrow> f x)"
  by (cases r) (simp_all add: plain_result_def)

lemma plain_result_map_sum [simp]: "plain_result (map_sum id g x) = plain_result x"
  by (cases x) (simp_all add: plain_result_def)

lemma plain_decode [simp]: "plain_result (decodeInt j i)" "plain_result (decodeString j x)"
  by (auto simp: plain_result_def decodeInt_def decodeString_def decodeError_def split: json.splits option.splits)

lemma plain_response_fields [simp]:
  "plain_fields memberFields" "plain_fields robotFields" "plain_fields credentialFields" "plain_fields projectFields"
  by (simp_all add: plain_fields_def memberFields_def robotFields_def credentialFields_def projectFields_def)

lemma fieldFor_plain: "plain_fields flds \<Longrightarrow> fieldFor flds k = Some f \<Longrightarrow> plain_result (f j r)"
  by (auto simp: fieldFor_def plain_fields_def find_Some_iff split: option.splits) (metis nth_mem snd_conv)+

lemma decodeStruct_plain: "plain_fields flds \<Longrightarrow> plain_result (decodeStruct flds zero j)"
proof -
  assume f: "plain_fields flds"
  have "plain_result (decodeMembers flds kvs r)" for kvs r
  proof (induction kvs arbitrary: r)
    case (Cons kv kvs)
    then show ?case
      by (cases kv; cases "fieldFor flds (fst kv)")
         (auto intro!: plain_result_bind dest: fieldFor_plain [OF f])
  qed simp
  then show ?thesis by (cases j) (simp_all add: decodeStruct_def plain_result_def decodeError_def)
qed

lemma decodeSlice_plain: "(\<And>j. plain_result (f j)) \<Longrightarrow> plain_result (decodeSlice f j)"
proof -
  assume f: "\<And>j. plain_result (f j)"
  have "plain_result (decodeElems f js)" for js
    by (induction js) (auto intro!: plain_result_bind f)
  then show ?thesis by (cases j) (simp_all add: decodeSlice_def plain_result_def decodeError_def)
qed

lemma Decode_plain: "(\<And>j. plain_result (f j)) \<Longrightarrow> plain_result (Decode f body)"
  by (simp add: Decode_def plain_result_def decodeError_def split: option.splits)

lemma responses_plain:
  "plain_result (decodeMemberList body)" "plain_result (decodeRobots body)"
  "plain_result (Decode (decodeStruct credentialFields z) body)"
  "plain_result (Decode (decodeStruct projectFields i) body)"
  by (simp_all add: decodeMemberList_def decodeRobots_def Decode_plain decodeSlice_plain decodeStruct_plain)

lemma responses_plain_error:
  "decodeMemberList body = Inl e \<Longrightarrow> plain_error e" "decodeRobots body = Inl e \<Longrightarrow> plain_error e"
  "Decode (decodeStruct credentialFields z) body = Inl e \<Longrightarrow> plain_error e"
  "Decode (decodeStruct projectFields i) body = Inl e \<Longrightarrow> plain_error e"
  by (rule plain_resultD, rule responses_plain, assumption)+

lemma outcome_members [outcome_rules]:
  "outcome (\<lambda>_. True) plain_error (addProjectMember tr c bp u r)"
  "outcome (\<lambda>_. True) plain_error (updateProjectMember tr c bp i r)"
  "outcome (\<lambda>_. True) plain_error (deleteProjectMember tr c bp i)"
  unfolding addProjectMember_def updateProjectMember_def deleteProjectMember_def doJSON_def
  by (intro outcome_rules TrueI; simp add: unexpectedStatus_def outcome_http_do)+

lemma outcome_syncDesired:
  "outcome (\<lambda>r. set (snd r) \<subseteq> set ms \<union> pm_Username ` set ds) plain_error (syncDesired tr c bp ds ex ms)"
proof (induction ds arbitrary: ex ms)
  case Nil
  show ?case by (simp add: outcome_ret)
next
  case (Cons d ds)
  have IH: "set ms' \<subseteq> insert (pm_Username d) (set ms) \<Longrightarrow>
      outcome (\<lambda>r. set (snd r) \<subseteq> set ms \<union> pm_Username ` set (d # ds)) plain_error (syncDesired tr c bp ds ex' ms')"
    for ex' ms' by (rule outcome_conseq [OF Cons.IH]) auto
  show ?case
  proof (cases "map_of ex (pm_Username d)")
    case None
    then show ?thesis
      by (simp only: syncDesired.simps option.case, intro outcome_onResult [OF outcome_members(1)] outcome_if IH)
         (auto intro: outcome_fail)
  next
    case (Some cur)
    then show ?thesis
      by (simp only: syncDesired.simps option.case, intro outcome_seq outcome_rules IH) (auto intro: outcome_members)
  qed
qed

lemma outcome_getProjectID: "outcome (\<lambda>_. True) plain_error (getProjectID tr c p)"
  unfolding getProjectID_def
  by (intro outcome_rules TrueI; simp add: unexpectedStatus_def outcome_http_do responses_plain_error)

lemma outcome_findRobot:
  "outcome (\<lambda>r. \<forall>ref. r = Some ref \<longrightarrow> robot_Name ref = robotFullName p r') plain_error (findRobot tr c p r')"
  unfolding findRobot_def Let_def
  by (intro outcome_seq outcome_getProjectID outcome_rules TrueI;
      auto simp: unexpectedStatus_def outcome_http_do responses_plain_error find_Some_iff)

lemma outcome_createRobot:
  "outcome (\<lambda>r. \<forall>cr. r = Some cr \<longrightarrow> rc_Secret cr \<noteq> []) plain_error (createRobot tr c p r')"
  unfolding createRobot_def doJSON_def
  by (intro outcome_rules TrueI; simp add: unexpectedStatus_def outcome_http_do responses_plain_error)

lemma outcome_EnsureProject: "outcome (\<lambda>_. True) plain_error (http_EnsureProject tr c p)"
  unfolding http_EnsureProject_def projectExists_def doJSON_def
  by (intro outcome_rules TrueI; simp add: unexpectedStatus_def outcome_http_do)

lemma outcome_ReconcileProjectMembers:
  "outcome (\<lambda>ms. set ms \<subseteq> pm_Username ` set ds) plain_error (http_ReconcileProjectMembers tr c p ds)"
proof -
  have "outcome (\<lambda>_. True) plain_error (removeLeftover tr c (membersPath p) ex)" for ex
  proof -
    have "outcome (\<lambda>_. True) plain_error (forEach (\<lambda>name. case map_of ex name of
         Some cur \<Rightarrow> wrapErr ''removing member %s: %w'' [em_Username cur] (deleteProjectMember tr c (membersPath p) (em_ID cur))
       | None \<Rightarrow> ret ()) ks)" for ks
      by (intro outcome_rules) (simp_all add: outcome_members)
    then show ?thesis unfolding removeLeftover_def by (intro outcomeI) (auto dest: outcomeD)
  qed
  then have tail: "outcome (\<lambda>ms. set ms \<subseteq> pm_Username ` set ds) plain_error
      (andThen (syncDesired tr c (membersPath p) ds ex []) (\<lambda>(left, missing).
         andThen (removeLeftover tr c (membersPath p) left) (\<lambda>_. ret missing)))" for ex
    by (intro outcome_andThen [OF outcome_syncDesired]) (auto intro!: outcome_seq outcome_ret)
  show ?thesis
    unfolding http_ReconcileProjectMembers_def Let_def
    by (intro outcome_seq outcome_wrapErr outcome_if outcome_sum tail;
        simp add: unexpectedStatus_def outcome_http_do responses_plain_error outcome_fail)
qed

lemma outcome_EnsureRobot:
  "outcome (\<lambda>r. \<forall>cr. r = Some cr \<longrightarrow> rc_Secret cr \<noteq> []) plain_error (http_EnsureRobot tr c p r')"
  unfolding http_EnsureRobot_def
  by (intro outcome_seq outcome_wrapErr outcome_if outcome_createRobot)
     (auto intro: outcome_ret outcome_conseq [OF outcome_findRobot])

lemma outcome_RefreshRobotSecret:
  "outcome (\<lambda>r. \<exists>cr. r = Some cr \<and> rc_Secret cr \<noteq> []) plain_error (http_RefreshRobotSecret tr c p r')"
proof -
  have d: "outcome (\<lambda>_. True) plain_error (deleteRobot tr c i)" for i
    unfolding deleteRobot_def by (intro outcome_rules TrueI; simp add: unexpectedStatus_def outcome_http_do)
  have cr: "outcome (\<lambda>r. \<forall>cr. r = Some cr \<longrightarrow> rc_Secret cr \<noteq> []) plain_error
      (wrapErr ''re-creating Harbor robot after delete: %w'' [] (createRobot tr c p r'))"
    by (rule outcome_wrapErr) (simp add: outcome_createRobot)
  show ?thesis
    unfolding http_RefreshRobotSecret_def
    by (intro outcome_seq outcome_wrapErr outcome_option outcome_fail outcome_andThen [OF cr] outcome_if outcome_ret d)
       (auto intro: outcome_conseq [OF outcome_findRobot])
qed

section \<open>The contract of the interface\<close>

text \<open>
  What \<open>internal/workspace\<close> relies on when it is handed a \<open>harbor.Client\<close>: every request stays with
  the project it was asked about; members reported missing were asked for; credentials, when there are
  any, carry a secret; a refresh yields credentials or an error, never a nil pointer; and failures are
  plain errors.
\<close>

locale harbor_api =
  fixes H :: "'s HarborClient" and scope :: "string \<Rightarrow> http_request set"
  assumes sends_project: "emits (only_http (scope p)) (EnsureProject H p)"
    and sends_members: "emits (only_http (scope p)) (ReconcileProjectMembers H p ds)"
    and sends_ensure: "emits (only_http (scope p)) (EnsureRobot H p r)"
    and sends_refresh: "emits (only_http (scope p)) (RefreshRobotSecret H p r)"
    and answers_project: "outcome (\<lambda>_. True) plain_error (EnsureProject H p)"
    and answers_members: "outcome (\<lambda>ms. set ms \<subseteq> pm_Username ` set ds) plain_error (ReconcileProjectMembers H p ds)"
    and answers_ensure: "outcome (\<lambda>r. \<forall>cr. r = Some cr \<longrightarrow> rc_Secret cr \<noteq> []) plain_error (EnsureRobot H p r')"
    and answers_refresh: "outcome (\<lambda>r. \<exists>cr. r = Some cr \<and> rc_Secret cr \<noteq> []) plain_error (RefreshRobotSecret H p r')"

interpretation http_harbor: harbor_api "NewClient tr baseURL user password"
    "project_scope (newHTTPClient baseURL user password)" for tr baseURL user password
  by unfold_locales
     (simp_all add: NewClient_def Let_def emits_harbor_ops outcome_EnsureProject
        outcome_ReconcileProjectMembers outcome_EnsureRobot outcome_RefreshRobotSecret)

section \<open>A client beside the cluster\<close>

text \<open>
  \<open>harbor_beside\<close> adds that the client leaves a view of the outside alone, here the objects of the
  Kubernetes cluster. The HTTP client does when its transport does (\<open>transport_beside\<close>).
\<close>

locale harbor_beside = harbor_api H scope
  for H :: "'s HarborClient" and scope :: "string \<Rightarrow> http_request set" +
  fixes view :: "'s \<Rightarrow> 'v"
  assumes keeps_project: "keeps view (EnsureProject H p)"
    and keeps_members: "keeps view (ReconcileProjectMembers H p ds)"
    and keeps_ensure: "keeps view (EnsureRobot H p r)"
    and keeps_refresh: "keeps view (RefreshRobotSecret H p r)"

locale transport_beside =
  fixes tr :: "'s transport" and view :: "'s \<Rightarrow> 'v"
  assumes Do_keeps: "tr_Do tr q s = (r, s') \<Longrightarrow> view s' = view s"
begin

lemma keeps_http_do [keeps_rules]: "keeps view (http_do tr c m path b)"
  unfolding http_do_def Let_def
  by (intro keeps_rules) (auto dest: Do_keeps simp: apfst_def map_prod_def split: prod.splits)

lemma keeps_syncDesired [keeps_rules]: "keeps view (syncDesired tr c bp ds ex ms)"
proof (induction ds arbitrary: ex ms)
  case (Cons d ds)
  then show ?case
    unfolding syncDesired.simps updateProjectMember_def addProjectMember_def doJSON_def
    by (intro keeps_rules)
qed (simp add: keeps_ret)

lemma keeps_removeLeftover [keeps_rules]: "keeps view (removeLeftover tr c bp ex)"
proof -
  have "keeps view (forEach (\<lambda>name. case map_of ex name of
         Some cur \<Rightarrow> wrapErr ''removing member %s: %w'' [em_Username cur] (deleteProjectMember tr c bp (em_ID cur))
       | None \<Rightarrow> ret ()) ks)" for ks
    unfolding deleteProjectMember_def by (intro keeps_rules)
  then show ?thesis unfolding removeLeftover_def keeps_def by blast
qed

lemma keeps_harbor_ops:
  "keeps view (http_EnsureProject tr c p)" "keeps view (http_ReconcileProjectMembers tr c p ds)"
  "keeps view (http_EnsureRobot tr c p r)" "keeps view (http_RefreshRobotSecret tr c p r)"
  unfolding harbor_op_defs Let_def by (intro keeps_rules)+

end

sublocale transport_beside \<subseteq> beside: harbor_beside "NewClient tr baseURL user password"
    "project_scope (newHTTPClient baseURL user password)" view for baseURL user password
  by unfold_locales (simp_all add: NewClient_def Let_def keeps_harbor_ops)

context transport_beside
begin

lemma client_beside:
  "harbor_beside (NewClient tr baseURL user password) (project_scope (newHTTPClient baseURL user password)) view"
  by unfold_locales

end

end
