(* ===== verification/Harbor_Sync.thy ===== *)
theory Harbor_Sync
  imports Samples Harbor_Client
begin

text \<open>
  \<open>src/internal/workspace/harbor.go\<close>: the operator's Harbor credentials, the workspace's Harbor project,
  its members and robot, the image pull Secret built from the robot's credentials, and the default
  ServiceAccount that lists it.
\<close>

section \<open>Credentials\<close>

definition OperatorSecretName :: string where [go_consts]: "OperatorSecretName = ''tenant-operator-secret''"
definition HarborURLKey :: string where [go_consts]: "HarborURLKey = ''HARBOR_URL''"
definition HarborRobotNameKey :: string where [go_consts]: "HarborRobotNameKey = ''HARBOR_ROBOT_NAME''"
definition HarborRobotSecretKey :: string where [go_consts]: "HarborRobotSecretKey = ''HARBOR_ROBOT_SECRET''"

record HarborCredentials =
  hcr_URL :: string
  hcr_RobotName :: string
  hcr_RobotSecret :: string

definition operatorSecretRef :: objref where
  "operatorSecretRef = (SecretK, OperatorNamespace, OperatorSecretName)"

fun missingKeys :: "(string \<times> string) list \<Rightarrow> string list" where
  "missingKeys [] = []"
| "missingKeys ((key, val) # fs) = (if val = [] then key # missingKeys fs else missingKeys fs)"

definition OperatorHarborCredentials :: "'s client \<Rightarrow> ('s, HarborCredentials) io" where
  "OperatorHarborCredentials c =
     (let key = OperatorNamespace @ ''/'' @ OperatorSecretName in
      andThen (wrapErr ''reading Harbor credentials from Secret %s: %w'' [key] (kGet c operatorSecretRef)) (\<lambda>secret.
        let creds = \<lparr>hcr_URL = mapGet (dataOf (o_body secret)) HarborURLKey,
                     hcr_RobotName = mapGet (dataOf (o_body secret)) HarborRobotNameKey,
                     hcr_RobotSecret = mapGet (dataOf (o_body secret)) HarborRobotSecretKey\<rparr>;
            missing = missingKeys [(HarborURLKey, hcr_URL creds), (HarborRobotNameKey, hcr_RobotName creds),
                                   (HarborRobotSecretKey, hcr_RobotSecret creds)]
        in if length missing > 0
           then fail (Errorf ''secret %s is missing required keys: %s'' [key, Join missing '', ''])
           else ret creds))"

text \<open>The argument is the object's metadata, \<open>None\<close> for a nil object.\<close>

definition IsOperatorSecret :: "ObjectMeta option \<Rightarrow> bool" where
  "IsOperatorSecret obj = (case obj of None \<Rightarrow> False
     | Some m \<Rightarrow> om_name m = OperatorSecretName \<and> om_namespace m = OperatorNamespace)"

section \<open>Pull Secret and ServiceAccount\<close>

definition dockerAuth :: "string \<Rightarrow> string \<Rightarrow> string" where
  "dockerAuth username password = b64encode (username @ '':'' @ password)"

definition dockerConfig :: "string \<Rightarrow> string \<Rightarrow> string \<Rightarrow> json" where
  "dockerConfig registryURL username password =
     goMap [(''auths'', goMap [(registryURL,
       goMap [(''username'', JStr username), (''password'', JStr password),
              (''auth'', JStr (dockerAuth username password))])])]"

definition buildDockerConfigJSON :: "string \<Rightarrow> string \<Rightarrow> string \<Rightarrow> string" where
  "buildDockerConfigJSON registryURL username password = Marshal (dockerConfig registryURL username password)"

definition DockerConfigJsonKey :: string where [go_consts]: "DockerConfigJsonKey = ''.dockerconfigjson''"
definition defaultServiceAccountName :: string where [go_consts]: "defaultServiceAccountName = ''default''"

definition imagePullSecretRef :: "string \<Rightarrow> objref" where
  "imagePullSecretRef namespace = (SecretK, namespace, ImagePullSecretName)"

definition defaultServiceAccountRef :: "string \<Rightarrow> objref" where
  "defaultServiceAccountRef namespace = (ServiceAccountK, namespace, defaultServiceAccountName)"

definition imagePullSecretMissing :: "'s client \<Rightarrow> string \<Rightarrow> ('s, bool) io" where
  "imagePullSecretMissing c namespace =
     onResult (kGet c (imagePullSecretRef namespace))
       (\<lambda>err. if IsNotFound err then ret True else fail (Wrapf ''checking image pull Secret: %w'' [] err))
       (\<lambda>_. ret False)"

definition pullSecretBody :: "string \<Rightarrow> RobotCredentials \<Rightarrow> body" where
  "pullSecretBody harborURL creds = SecretB SecretTypeDockerConfigJson
     (fmap_of_list [(DockerConfigJsonKey, buildDockerConfigJSON harborURL (rc_Name creds) (rc_Secret creds))])"

definition reconcileImagePullSecret ::
    "'s client \<Rightarrow> Workspace \<Rightarrow> string \<Rightarrow> string \<Rightarrow> RobotCredentials \<Rightarrow> ('s, unit) io" where
  "reconcileImagePullSecret c w version harborURL creds =
     wrapErr ''reconciling image pull Secret: %w'' []
       (kCreateOrUpdate c (imagePullSecretRef (ws_namespace w))
          (stamp c w (LabelsForWorkspace (ws_name w) version) (\<lambda>_. pullSecretBody harborURL creds)))"

fun listsSecret :: "string list \<Rightarrow> bool" where
  "listsSecret [] = False"
| "listsSecret (ref # refs) = (if ref = ImagePullSecretName then True else listsSecret refs)"

definition addPullSecret :: "Object \<Rightarrow> error + Object" where
  "addPullSecret sa =
     (if listsSecret (imagePullSecrets (o_body sa)) then Inr sa
      else Inr (sa\<lparr>o_body := ServiceAccountB (imagePullSecrets (o_body sa) @ [ImagePullSecretName])\<rparr>))"

definition ensureImagePullSecret :: "'s client \<Rightarrow> string \<Rightarrow> ('s, unit) io" where
  "ensureImagePullSecret c namespace =
     wrapErr ''reconciling default ServiceAccount: %w'' []
       (kCreateOrUpdate c (defaultServiceAccountRef namespace) addPullSecret)"

section \<open>ReconcileHarbor\<close>

definition harborRoleID :: "MemberRole \<Rightarrow> int" where
  "harborRoleID role =
     (if role = MemberRoleAdmin then RoleProjectAdmin
      else if role = MemberRoleEdit then RoleDeveloper
      else if role = MemberRoleView then RoleGuest
      else RoleGuest)"

fun harborMembers :: "WorkspaceMember list \<Rightarrow> ProjectMember list" where
  "harborMembers [] = []"
| "harborMembers (m # ms) =
     (if m_serviceAccount m then harborMembers ms
      else \<lparr>pm_Username = m_subject m, pm_RoleID = harborRoleID (m_role m)\<rparr> # harborMembers ms)"

definition obtainCredentials ::
    "'s client \<Rightarrow> 's HarborClient \<Rightarrow> string \<Rightarrow> string \<Rightarrow> string \<Rightarrow> ('s, RobotCredentials option) io" where
  "obtainCredentials c harborClient namespace projectName robotName =
     andThen (wrapErr ''ensuring Harbor robot account: %w'' [] (EnsureRobot harborClient projectName robotName)) (\<lambda>creds.
       if creds = None
       then andThen (imagePullSecretMissing c namespace) (\<lambda>missing.
              if missing
              then wrapErr ''refreshing Harbor robot secret: %w'' [] (RefreshRobotSecret harborClient projectName robotName)
              else ret creds)
       else ret creds)"

definition ReconcileHarbor ::
    "'s client \<Rightarrow> Workspace \<Rightarrow> string \<Rightarrow> 's HarborClient \<Rightarrow> string \<Rightarrow> ('s, string list) io" where
  "ReconcileHarbor c w version harborClient harborURL =
     (let projectName = ws_namespace w; robotName = ws_namespace w in
      andThen (wrapErr ''ensuring Harbor project: %w'' [] (EnsureProject harborClient projectName)) (\<lambda>_.
      andThen (wrapErr ''reconciling Harbor project members: %w'' []
                 (ReconcileProjectMembers harborClient projectName (harborMembers (ws_members w)))) (\<lambda>missingMembers.
      andThen (obtainCredentials c harborClient (ws_namespace w) projectName robotName) (\<lambda>creds.
      andThen (case creds of
                 Some cr \<Rightarrow> reconcileImagePullSecret c w version harborURL cr
               | None \<Rightarrow> ret ()) (\<lambda>_.
      andThen (ensureImagePullSecret c (ws_namespace w)) (\<lambda>_.
      ret missingMembers))))))"

section \<open>Lemmas\<close>

lemma listsSecret_iff [simp]: "listsSecret refs \<longleftrightarrow> ImagePullSecretName \<in> set refs"
  by (induction refs) auto

lemma harborMembers_eq:
  "harborMembers ms = map (\<lambda>m. \<lparr>pm_Username = m_subject m, pm_RoleID = harborRoleID (m_role m)\<rparr>)
     (filter (\<lambda>m. \<not> m_serviceAccount m) ms)"
  by (induction ms) auto

definition harbor_scope :: "Workspace \<Rightarrow> objref set" where
  "harbor_scope w = {imagePullSecretRef (ws_namespace w), defaultServiceAccountRef (ws_namespace w)}"

lemma harbor_scope_own: "r \<in> harbor_scope w \<Longrightarrow> own_ref w r"
  by (auto simp: harbor_scope_def own_ref_def imagePullSecretRef_def defaultServiceAccountRef_def)

lemma refs_distinct [simp]: "imagePullSecretRef ns \<noteq> defaultServiceAccountRef ns'"
  "defaultServiceAccountRef ns' \<noteq> imagePullSecretRef ns"
  by (simp_all add: imagePullSecretRef_def defaultServiceAccountRef_def)

lemma only_http_touches: "only_http H ev \<Longrightarrow> touches R H ev"
  by (cases ev) auto

context harbor_api
begin

lemma emits_ReconcileHarbor:
  "emits (touches (harbor_scope w) (scope (ws_namespace w))) (ReconcileHarbor c w version H url)"
  unfolding ReconcileHarbor_def obtainCredentials_def imagePullSecretMissing_def reconcileImagePullSecret_def
    ensureImagePullSecret_def Let_def
  by (intro emits_rules emits_mono [OF sends_project] emits_mono [OF sends_members]
      emits_mono [OF sends_ensure] emits_mono [OF sends_refresh])
     (simp_all add: harbor_scope_def only_http_touches)

end

text \<open>
  What a successful run leaves behind: the pull Secret is there, either the one that was there or a
  fresh one made from credentials with a secret, and the default ServiceAccount lists it.
\<close>

definition fresh_pull_secret :: "Workspace \<Rightarrow> string \<Rightarrow> string \<Rightarrow> Object \<Rightarrow> bool" where
  "fresh_pull_secret w version url st \<longleftrightarrow>
     managed w (LabelsForWorkspace (ws_name w) version) st \<and>
     (\<exists>cr. rc_Secret cr \<noteq> [] \<and> o_body st = pullSecretBody url cr)"

definition pull_ready :: "Workspace \<Rightarrow> (objref \<Rightarrow> Object option) \<Rightarrow> bool" where
  "pull_ready w \<sigma> \<longleftrightarrow> \<sigma> (imagePullSecretRef (ws_namespace w)) \<noteq> None \<and>
     (\<exists>sa. \<sigma> (defaultServiceAccountRef (ws_namespace w)) = Some sa \<and>
        ImagePullSecretName \<in> set (imagePullSecrets (o_body sa)))"

context kube_api
begin

lemma hoare_imagePullSecretMissing:
  "hoare (\<lambda>v. store v = \<sigma>) (imagePullSecretMissing c ns)
     (\<lambda>b v. store v = \<sigma> \<and> (b \<longleftrightarrow> \<sigma> (imagePullSecretRef ns) = None)) (\<lambda>_ v. store v = \<sigma>)"
  unfolding imagePullSecretMissing_def
  by (rule hoare_onResult [OF hoare_kGet]) (auto intro!: hoare_ret hoare_fail)

lemma hoare_ensureImagePullSecret:
  "hoare (\<lambda>v. store v = \<sigma>) (ensureImagePullSecret c ns)
     (\<lambda>_ v. \<exists>sa. store v = \<sigma>(defaultServiceAccountRef ns := Some sa) \<and>
        ImagePullSecretName \<in> set (imagePullSecrets (o_body sa)))
     (\<lambda>_ v. store v = \<sigma>)"
  unfolding ensureImagePullSecret_def
  by (intro hoare_wrap hoare_conseq [OF hoare_kCreateOrUpdate [of \<sigma>]])
     (auto simp: addPullSecret_def persisted_def split: if_splits)

lemma hoare_obtainCredentials:
  assumes "harbor_beside H scope store"
  shows "hoare (\<lambda>v. store v = \<sigma>) (obtainCredentials c H ns p r)
     (\<lambda>creds v. store v = \<sigma> \<and> (\<forall>cr. creds = Some cr \<longrightarrow> rc_Secret cr \<noteq> []) \<and>
        (creds = None \<longrightarrow> \<sigma> (imagePullSecretRef ns) \<noteq> None))
     (\<lambda>_ v. store v = \<sigma>)"
proof -
  note api = harbor_beside.axioms(1) [OF assms]
  have e: "hoare (\<lambda>v. store v = \<sigma>) (wrapErr f as (EnsureRobot H p r))
      (\<lambda>x v. store v = \<sigma> \<and> (\<forall>cr. x = Some cr \<longrightarrow> rc_Secret cr \<noteq> [])) (\<lambda>_ v. store v = \<sigma>)" for f as
    by (rule hoare_wrapErr [OF hoare_keeps_outcome [OF harbor_beside.keeps_ensure [OF assms]
          harbor_api.answers_ensure [OF api]]]) simp
  have f: "hoare (\<lambda>v. store v = \<sigma>) (wrapErr f as (RefreshRobotSecret H p r))
      (\<lambda>x v. store v = \<sigma> \<and> (\<exists>cr. x = Some cr \<and> rc_Secret cr \<noteq> [])) (\<lambda>_ v. store v = \<sigma>)" for f as
    by (rule hoare_wrapErr [OF hoare_keeps_outcome [OF harbor_beside.keeps_refresh [OF assms]
          harbor_api.answers_refresh [OF api]]]) simp
  have g: "hoare (\<lambda>v. store v = \<sigma>)
       (andThen (imagePullSecretMissing c ns) (\<lambda>missing.
              if missing then wrapErr ''refreshing Harbor robot secret: %w'' [] (RefreshRobotSecret H p r)
              else ret None))
     (\<lambda>creds v. store v = \<sigma> \<and> (\<forall>cr. creds = Some cr \<longrightarrow> rc_Secret cr \<noteq> []) \<and>
        (creds = None \<longrightarrow> \<sigma> (imagePullSecretRef ns) \<noteq> None)) (\<lambda>_ v. store v = \<sigma>)"
    by (rule hoare_andThen [OF hoare_imagePullSecretMissing])
       (auto intro!: hoare_ret hoare_conseq [OF f])
  show ?thesis
    unfolding obtainCredentials_def
    by (rule hoare_andThen [OF e]) (auto intro!: hoare_ret hoare_conseq [OF g])
qed

end

text \<open>The Secret after the write step: unchanged, or fresh.\<close>

definition secret_kept :: "Workspace \<Rightarrow> string \<Rightarrow> string \<Rightarrow> Object option \<Rightarrow> Object option \<Rightarrow> bool" where
  "secret_kept w version url old new \<longleftrightarrow>
     (\<exists>st. new = Some st \<and> (old = Some st \<or> fresh_pull_secret w version url st))"

definition harbor_done :: "Workspace \<Rightarrow> string \<Rightarrow> string \<Rightarrow> (objref \<Rightarrow> Object option) \<Rightarrow> (objref \<Rightarrow> Object option) \<Rightarrow> bool" where
  "harbor_done w version url \<sigma> \<tau> \<longleftrightarrow>
     pull_ready w \<tau> \<and> only_changes (harbor_scope w) \<sigma> \<tau> \<and>
     secret_kept w version url (\<sigma> (imagePullSecretRef (ws_namespace w))) (\<tau> (imagePullSecretRef (ws_namespace w)))"

context kube_api
begin

lemma hoare_writeSecret:
  assumes "\<forall>cr. creds = Some cr \<longrightarrow> rc_Secret cr \<noteq> []"
    and "creds = None \<longrightarrow> \<sigma> (imagePullSecretRef (ws_namespace w)) \<noteq> None"
  shows "hoare (\<lambda>v. store v = \<sigma>)
     (case creds of Some cr \<Rightarrow> reconcileImagePullSecret c w version url cr | None \<Rightarrow> ret ())
     (\<lambda>_ v. \<exists>x. store v = \<sigma>(imagePullSecretRef (ws_namespace w) := x) \<and>
        secret_kept w version url (\<sigma> (imagePullSecretRef (ws_namespace w))) x)
     (\<lambda>_ v. store v = \<sigma>)"
proof (cases creds)
  case None
  with assms(2) show ?thesis by (force simp: secret_kept_def intro!: hoare_ret)
next
  case (Some cr)
  with assms(1) show ?thesis
    unfolding reconcileImagePullSecret_def
    by (simp, intro hoare_wrap hoare_conseq [OF hoare_stamp [of \<sigma>]])
       (auto simp: secret_kept_def fresh_pull_secret_def)
qed

lemma hoare_finish:
  assumes "secret_kept w version url (\<sigma> (imagePullSecretRef (ws_namespace w))) x" and "Q ms"
  shows "hoare (\<lambda>v. store v = \<sigma>(imagePullSecretRef (ws_namespace w) := x))
     (andThen (ensureImagePullSecret c (ws_namespace w)) (\<lambda>_. ret ms))
     (\<lambda>ms v. harbor_done w version url \<sigma> (store v) \<and> Q ms)
     (\<lambda>_ v. only_changes (harbor_scope w) \<sigma> (store v))"
  by (rule hoare_seq [OF hoare_ensureImagePullSecret])
     (use assms in \<open>auto intro!: hoare_ret simp: harbor_done_def pull_ready_def harbor_scope_def secret_kept_def
        only_changes_def\<close>)

lemma hoare_ReconcileHarbor:
  assumes "harbor_beside H scope store"
  shows "hoare (\<lambda>v. store v = \<sigma>) (ReconcileHarbor c w version H url)
     (\<lambda>ms v. harbor_done w version url \<sigma> (store v) \<and> set ms \<subseteq> pm_Username ` set (harborMembers (ws_members w)))
     (\<lambda>_ v. only_changes (harbor_scope w) \<sigma> (store v))"
proof -
  note api = harbor_beside.axioms(1) [OF assms]
  have p: "hoare (\<lambda>v. store v = \<sigma>) (wrapErr f as (EnsureProject H q)) (\<lambda>_ v. store v = \<sigma>) (\<lambda>_ v. store v = \<sigma>)" for f as q
    by (rule hoare_wrap [OF keeps_hoare [OF harbor_beside.keeps_project [OF assms]]])
  have m: "hoare (\<lambda>v. store v = \<sigma>) (wrapErr f as (ReconcileProjectMembers H q ds))
      (\<lambda>ms v. store v = \<sigma> \<and> set ms \<subseteq> pm_Username ` set ds) (\<lambda>_ v. store v = \<sigma>)" for f as q ds
    by (rule hoare_wrapErr [OF hoare_keeps_outcome [OF harbor_beside.keeps_members [OF assms]
          harbor_api.answers_members [OF api]]]) simp
  have t: "hoare (\<lambda>v. store v = \<sigma>)
      (andThen (case creds of Some cr \<Rightarrow> reconcileImagePullSecret c w version url cr | None \<Rightarrow> ret ())
         (\<lambda>_. andThen (ensureImagePullSecret c (ws_namespace w)) (\<lambda>_. ret ms)))
      (\<lambda>ms v. harbor_done w version url \<sigma> (store v) \<and> set ms \<subseteq> pm_Username ` set (harborMembers (ws_members w)))
      (\<lambda>_ v. only_changes (harbor_scope w) \<sigma> (store v))"
    if "set ms \<subseteq> pm_Username ` set (harborMembers (ws_members w))"
      and c: "(\<forall>cr. creds = Some cr \<longrightarrow> rc_Secret cr \<noteq> []) \<and>
        (creds = None \<longrightarrow> \<sigma> (imagePullSecretRef (ws_namespace w)) \<noteq> None)" for creds ms
    by (rule hoare_seq [OF hoare_writeSecret [of creds \<sigma> w version url, OF c [THEN conjunct1] c [THEN conjunct2]]])
       (auto intro!: hoare_ex hoare_pure hoare_finish that)
  show ?thesis
    unfolding ReconcileHarbor_def Let_def
    by (rule hoare_seq [OF p], simp, rule hoare_seq [OF m], simp, rule hoare_pure,
        rule hoare_seq [OF hoare_obtainCredentials [OF assms]], simp, rule hoare_pure, rule t)
qed

end

section \<open>Reading a docker config back\<close>

text \<open>
  The reader on the other side (kubelet, Flux): parse the JSON, take the \<open>auth\<close> field of the registry's
  entry, decode it and split it at the first colon.
\<close>

fun jget :: "string \<Rightarrow> json \<Rightarrow> json option" where
  "jget k (JObj kvs) = map_of kvs k"
| "jget k _ = None"

fun splitAuth :: "json \<Rightarrow> (string \<times> string) option" where
  "splitAuth (JStr auth) =
     (case b64decode auth of None \<Rightarrow> None
      | Some up \<Rightarrow> (case Cut up (CHR '':'') of (u, p, found) \<Rightarrow> if found then Some (u, p) else None))"
| "splitAuth _ = None"

definition dockerLogin :: "string \<Rightarrow> string \<Rightarrow> (string \<times> string) option" where
  "dockerLogin config registry =
     (case parseValue config of None \<Rightarrow> None
      | Some (j, _) \<Rightarrow> Option.bind (Option.bind (Option.bind (jget ''auths'' j) (jget registry)) (jget ''auth'')) splitAuth)"

lemma dockerConfig_entry:
  "goMap [(''username'', u), (''password'', p), (''auth'', a)] =
     JObj [(''auth'', a), (''password'', p), (''username'', u)]"
  by (simp add: goMap_def less_eq_char_def Char_ord.less_eq_char_def)

lemma dockerConfig_marshallable:
  assumes "valid_utf8 url" and "valid_utf8 u" and "valid_utf8 p"
  shows "marshallable (dockerConfig url u p)" and "depth_le maxNestingDepth (dockerConfig url u p)"
  using assms by (simp_all add: dockerConfig_def dockerAuth_def maxNestingDepth_def b64encode_ascii valid_utf8_ascii)

section \<open>A fake client\<close>

text \<open>A fake Harbor client, as the controller's tests use one.\<close>

definition fake_harbor :: "'s HarborClient" where
  "fake_harbor = \<lparr>EnsureProject = (\<lambda>_. ret ()), ReconcileProjectMembers = (\<lambda>_ _. ret []),
     EnsureRobot = (\<lambda>_ _. ret (Some \<lparr>rc_Name = ''robot$x'', rc_Secret = ''s3cr3t''\<rparr>)),
     RefreshRobotSecret = (\<lambda>_ _. ret (Some \<lparr>rc_Name = ''robot$x'', rc_Secret = ''s3cr3t''\<rparr>))\<rparr>"

interpretation fake: harbor_beside fake_harbor "\<lambda>_. {}" view for view :: "'s \<Rightarrow> 'v"
  by unfold_locales (auto simp: fake_harbor_def intro: emits_ret outcome_ret keeps_ret)

text \<open>A Harbor where the robot already exists, so \<open>EnsureRobot\<close> has no secret to return; and a live pull Secret.\<close>

interpretation settled: harbor_beside "fake_harbor\<lparr>EnsureRobot := \<lambda>_ _. ret None\<rparr>" "\<lambda>_. {}" view for view :: "'s \<Rightarrow> 'v"
  by unfold_locales (auto simp: fake_harbor_def intro: emits_ret outcome_ret keeps_ret)

definition live_secret :: Object where
  "live_secret = \<lparr>o_meta = (zero_meta ''team-alpha'' ImagePullSecretName)\<lparr>om_creationTimestamp := 3\<rparr>,
     o_body = pullSecretBody ''https://harbor.local'' \<lparr>rc_Name = ''robot$x'', rc_Secret = ''old''\<rparr>\<rparr>"

section \<open>Properties\<close>

text \<open>
  C30: the image pull Secret carries a working login. Reading the generated \<open>.dockerconfigjson\<close> back for
  the registry it was made for yields the robot's name and secret, for every UTF-8 name without a colon
  and every UTF-8 secret: JSON escaping, base64 and the \<open>name:secret\<close> pairing lose nothing.
\<close>

theorem docker_config_logs_in:
  assumes "valid_utf8 url" and "valid_utf8 username" and "valid_utf8 password" and "CHR '':'' \<notin> set username"
  shows "dockerLogin (buildDockerConfigJSON url username password) url = Some (username, password)"
proof -
  have "parseValue (buildDockerConfigJSON url username password) = Some (dockerConfig url username password, [])"
    using parseValue_Marshal [OF dockerConfig_marshallable [OF assms(1-3)], of "[]"]
    by (simp add: buildDockerConfigJSON_def)
  then show ?thesis
    using assms(4) by (simp add: dockerLogin_def dockerConfig_def dockerConfig_entry dockerAuth_def Cut_found)
qed

theorem docker_config_logs_in_witness:
  "dockerLogin (buildDockerConfigJSON ''https://harbor.example.com'' ''robot$team-alpha+team-alpha'' ''s3cr3t'')
     ''https://harbor.example.com'' = Some (''robot$team-alpha+team-alpha'', ''s3cr3t'')"
  by (rule docker_config_logs_in) (simp_all add: valid_utf8_ascii)

text \<open>
  C15: a successful Harbor run always leaves the workspace able to pull. The image pull Secret exists,
  and when it was absent it was built from robot credentials with a non-empty secret; the default
  ServiceAccount lists it; members reported as pending are human members of the workspace; and no other
  object changed. This holds for every \<open>harbor.Client\<close> that keeps its interface's contract and leaves
  Kubernetes alone.
\<close>

theorem harbor_run_leaves_pull_access:
  assumes "kube_api c store" and "harbor_beside H scope store"
    and "ReconcileHarbor c w version H url s = (Inr missing, s')"
  shows "harbor_done w version url (store (world s)) (store (world s')) \<and>
         (\<forall>u \<in> set missing. \<exists>m \<in> set (ws_members w). m_subject m = u \<and> \<not> m_serviceAccount m)"
  using hoareD [OF kube_api.hoare_ReconcileHarbor [OF assms(1,2)] refl assms(3)]
  by (fastforce simp: harborMembers_eq)

theorem harbor_run_leaves_pull_access_witness:
  "\<exists>missing s'. ReconcileHarbor mem_client sample_ws ''v1'' fake_harbor ''https://harbor.local'' (start [((NamespaceK, [], ''team-alpha''), restored_namespace)]) = (Inr missing, s') \<and>
     pull_ready sample_ws (mem_lookup (world s'))"
proof -
  have "\<not> isl (fst (ReconcileHarbor mem_client sample_ws ''v1'' fake_harbor ''https://harbor.local'' (start [((NamespaceK, [], ''team-alpha''), restored_namespace)])))" by code_simp
  then obtain ms s' where r: "ReconcileHarbor mem_client sample_ws ''v1'' fake_harbor ''https://harbor.local'' (start [((NamespaceK, [], ''team-alpha''), restored_namespace)]) = (Inr ms, s')"
    by (rule run_okE)
  from harbor_run_leaves_pull_access [OF mem_server.kube_api_axioms fake.harbor_beside_axioms r] r show ?thesis
    by (auto simp: harbor_done_def)
qed

lemma pull_secret_found:
  assumes "kube_api c store" and "store (world t) (imagePullSecretRef ns) \<noteq> None" and "imagePullSecretMissing c ns t = (Inr b, t')"
  shows "\<not> b"
  using hoareD [OF kube_api.hoare_imagePullSecretMissing [OF assms(1)] refl assms(3)] assms(2) by simp

lemma obtainCredentials_live:
  assumes "kube_api c store" and "harbor_beside H scope store" and "store (world t) (imagePullSecretRef ns) \<noteq> None"
  shows "obtainCredentials c (H\<lparr>RefreshRobotSecret := other\<rparr>) ns p r t = obtainCredentials c H ns p r t"
proof -
  have sel: "EnsureRobot (H\<lparr>RefreshRobotSecret := other\<rparr>) = EnsureRobot H"
    "RefreshRobotSecret (H\<lparr>RefreshRobotSecret := other\<rparr>) = other" by simp_all
  show ?thesis
    unfolding obtainCredentials_def sel
    by (rule andThen_cong_kept [where view = store and I = "\<lambda>\<sigma>. \<sigma> (imagePullSecretRef ns) \<noteq> None", OF assms(3)],
        intro keeps_wrapErr harbor_beside.keeps_ensure [OF assms(2)])
       (auto simp: andThen_def dest: pull_secret_found [OF assms(1), rotated] split: prod.splits sum.splits)
qed

text \<open>
  C16: credentials in use are never rotated. While the image pull Secret is present, the run does not
  depend on \<open>RefreshRobotSecret\<close> at all: replacing that operation by any other changes neither the
  result nor the outside, so the robot behind a live Secret is not deleted and re-created.
\<close>

theorem live_secret_never_refreshed:
  assumes "kube_api c store" and "harbor_beside H scope store"
    and "store (world s) (imagePullSecretRef (ws_namespace w)) \<noteq> None"
  shows "ReconcileHarbor c w version (H\<lparr>RefreshRobotSecret := other\<rparr>) url s =
         ReconcileHarbor c w version H url s"
proof -
  let ?I = "\<lambda>\<sigma>. \<sigma> (imagePullSecretRef (ws_namespace w)) \<noteq> None"
  note E = andThen_cong_kept [where view = store and I = ?I]
  show ?thesis
    unfolding ReconcileHarbor_def Let_def
    by (simp, rule E [OF assms(3)], intro keeps_wrapErr harbor_beside.keeps_project [OF assms(2)],
        rule E, assumption, intro keeps_wrapErr harbor_beside.keeps_members [OF assms(2)],
        rule andThen_cong_first, rule obtainCredentials_live [OF assms(1,2)])
qed

theorem live_secret_never_refreshed_witness:
  "ReconcileHarbor mem_client sample_ws ''v1''
     (fake_harbor\<lparr>EnsureRobot := \<lambda>_ _. ret None, RefreshRobotSecret := \<lambda>_ _. fail (Errorf ''rotated'' [])\<rparr>) ''https://harbor.local''
     (start [(imagePullSecretRef ''team-alpha'', live_secret)]) =
   ReconcileHarbor mem_client sample_ws ''v1'' (fake_harbor\<lparr>EnsureRobot := \<lambda>_ _. ret None\<rparr>) ''https://harbor.local''
     (start [(imagePullSecretRef ''team-alpha'', live_secret)])"
  by (rule live_secret_never_refreshed [OF mem_server.kube_api_axioms settled.harbor_beside_axioms])
     simp

end
