(* ===== verification/Helm.thy ===== *)
theory Helm
  imports Harbor_Sync
begin

text \<open>
  \<open>src/internal/workspace/helm_repository.go\<close>: the two Flux OCI sources of a workspace, its own Harbor
  project and Harbor's public default project.
\<close>

section \<open>Definitions\<close>

definition labelValueTrue :: string where [go_consts]: "labelValueTrue = ''true''"

record helmSource =
  src_name :: string
  src_projectName :: string
  src_secretRef :: "string option"
  src_internal :: bool

definition helmSources :: "Workspace \<Rightarrow> helmSource list" where
  "helmSources w =
     [\<lparr>src_name = HelmRepositoryName, src_projectName = ws_namespace w,
       src_secretRef = Some ImagePullSecretName, src_internal = True\<rparr>,
      \<lparr>src_name = HarborDefaultProjectName, src_projectName = HarborDefaultProjectName,
       src_secretRef = None, src_internal = False\<rparr>]"

definition buildHelmRepositoryURL :: "string \<Rightarrow> string \<Rightarrow> error + string \<times> bool" where
  "buildHelmRepositoryURL harborURL projectName =
     (case url_Parse harborURL of
        Inl err \<Rightarrow> Inl (Wrapf ''parsing harbor URL %q: %w'' [harborURL] err)
      | Inr u \<Rightarrow> Inr (''oci://'' @ u_host u @ ''/'' @ projectName, u_scheme u = ''http''))"

definition helmLabels :: "Workspace \<Rightarrow> string \<Rightarrow> helmSource \<Rightarrow> strmap" where
  "helmLabels w version source =
     (let labels = fmupd LabelFromHarbor labelValueTrue (LabelsForWorkspace (ws_name w) version)
      in if src_internal source then fmupd LabelInternal labelValueTrue labels else labels)"

definition helmSpec :: "helmSource \<Rightarrow> string \<Rightarrow> bool \<Rightarrow> HelmRepositorySpec" where
  "helmSpec source repoURL insecure =
     \<lparr>hr_secretRef = src_secretRef source, hr_type = HelmRepositoryTypeOCI, hr_url = repoURL,
      hr_interval = 5 * 60, hr_insecure = insecure\<rparr>"

definition helmRef :: "Workspace \<Rightarrow> helmSource \<Rightarrow> objref" where
  "helmRef w source = (HelmRepositoryK, ws_namespace w, src_name source)"

definition reconcileHelmSource :: "'s client \<Rightarrow> Workspace \<Rightarrow> string \<Rightarrow> string \<Rightarrow> helmSource \<Rightarrow> ('s, unit) io" where
  "reconcileHelmSource c w version harborURL source =
     (case buildHelmRepositoryURL harborURL (src_projectName source) of
        Inl err \<Rightarrow> fail (Wrapf ''building HelmRepository %q URL: %w'' [src_name source] err)
      | Inr (repoURL, insecure) \<Rightarrow>
          wrapErr ''reconciling HelmRepository %q: %w'' [src_name source]
            (kCreateOrUpdate c (helmRef w source)
               (stamp c w (helmLabels w version source)
                  (\<lambda>_. HelmRepositoryB (helmSpec source repoURL insecure)))))"

definition ReconcileHelmRepository :: "'s client \<Rightarrow> Workspace \<Rightarrow> string \<Rightarrow> string \<Rightarrow> ('s, unit) io" where
  "ReconcileHelmRepository c w version harborURL =
     forEach (reconcileHelmSource c w version harborURL) (helmSources w)"

section \<open>Lemmas\<close>

definition source_ok :: "string \<Rightarrow> Workspace \<Rightarrow> string \<Rightarrow> helmSource \<Rightarrow> Object option \<Rightarrow> bool" where
  "source_ok harborURL w version source ob \<longleftrightarrow>
     (\<exists>st repoURL insecure. ob = Some st \<and>
        buildHelmRepositoryURL harborURL (src_projectName source) = Inr (repoURL, insecure) \<and>
        managed w (helmLabels w version source) st \<and>
        o_body st = HelmRepositoryB (helmSpec source repoURL insecure))"

definition helm_ok :: "string \<Rightarrow> Workspace \<Rightarrow> string \<Rightarrow> (objref \<Rightarrow> Object option) \<Rightarrow> bool" where
  "helm_ok harborURL w version \<sigma> \<longleftrightarrow>
     list_all (\<lambda>source. source_ok harborURL w version source (\<sigma> (helmRef w source))) (helmSources w)"

definition helm_scope :: "Workspace \<Rightarrow> objref set" where
  "helm_scope w = helmRef w ` set (helmSources w)"

lemma helmSources_refs: "distinct (map (helmRef w) (helmSources w))"
  by (simp add: helmSources_def helmRef_def go_consts)

context kube_api
begin

lemma hoare_reconcileHelmSource:
  "hoare (\<lambda>v. store v = \<sigma>) (reconcileHelmSource c w version url source)
     (\<lambda>_ v. \<exists>x. store v = \<sigma>(helmRef w source := x) \<and> source_ok url w version source x)
     (\<lambda>_ v. store v = \<sigma>)"
proof (cases "buildHelmRepositoryURL url (src_projectName source)")
  case (Inl e)
  then show ?thesis unfolding reconcileHelmSource_def by (auto intro: hoare_fail)
next
  case (Inr p)
  then show ?thesis
    unfolding reconcileHelmSource_def
    by (cases p) (simp, intro hoare_wrap hoare_conseq [OF hoare_stamp [of \<sigma>]], auto simp: source_ok_def)
qed

lemma hoare_ReconcileHelmRepository:
  "hoare (\<lambda>v. store v = \<sigma>) (ReconcileHelmRepository c w version url)
     (\<lambda>_ v. helm_ok url w version (store v) \<and> only_changes (helm_scope w) \<sigma> (store v))
     (\<lambda>_ v. only_changes (helm_scope w) \<sigma> (store v))"
  unfolding ReconcileHelmRepository_def helm_ok_def helm_scope_def
  by (rule hoare_forEach_objects [OF hoare_reconcileHelmSource helmSources_refs])

end

lemma outcome_helm_url: "buildHelmRepositoryURL url p = Inl e \<Longrightarrow> plain_error e"
  by (auto simp: buildHelmRepositoryURL_def dest: url_Parse_plain_error split: sum.splits)

interpretation helm: resource_component "\<lambda>c w version. ReconcileHelmRepository c w version url"
    helm_scope helm_scope "helm_ok url" for url
proof
  fix w version and c :: "'a client"
  have "emits (touches (helm_scope w) {}) (reconcileHelmSource c w version url src)" if "src \<in> set (helmSources w)" for src
    unfolding reconcileHelmSource_def
    by (intro emits_rules emits_sum emits_pair) (use that in \<open>simp add: helm_scope_def\<close>)
  then show "emits (touches (helm_scope w) {}) (ReconcileHelmRepository c w version url)"
    unfolding ReconcileHelmRepository_def by (intro emits_rules)
qed (rule kube_api.hoare_ReconcileHelmRepository, assumption |
     (auto simp: helm_scope_def helm_ok_def own_ref_def helmRef_def list_all_iff)[1])+

section \<open>Properties\<close>

text \<open>
  C31: after a successful run against a Harbor address of the usual shape (scheme, host name, optional
  port, path), the workspace has its two OCI sources: its own project, authenticated with the image
  pull Secret and marked internal, and the public library project without credentials. Both point at the
  configured host, and plain HTTP is allowed exactly when the address is an \<open>http\<close> one.
\<close>

theorem helm_sources_follow_harbor:
  assumes "kube_api c store" and "ReconcileHelmRepository c w version (scheme @ ''://'' @ h @ sep @ port @ path) s = (Inr u, s')"
    and "scheme \<in> {''http'', ''https''}" and "plainHost h" and "list_all isDigit port"
    and "sep = [] \<and> port = [] \<or> sep = '':''" and "path = [] \<or> HasPrefix path ''/''" and "list_all plainChar path"
  shows "\<exists>own lib l1 l2.
     store (world s') (HelmRepositoryK, ws_namespace w, HelmRepositoryName) = Some own \<and>
     store (world s') (HelmRepositoryK, ws_namespace w, HarborDefaultProjectName) = Some lib \<and>
     managed w l1 own \<and> fmlookup l1 LabelInternal = Some ''true'' \<and>
     o_body own = HelmRepositoryB \<lparr>hr_secretRef = Some ImagePullSecretName, hr_type = HelmRepositoryTypeOCI,
       hr_url = ''oci://'' @ h @ sep @ port @ ''/'' @ ws_namespace w, hr_interval = 300, hr_insecure = (scheme = ''http'')\<rparr> \<and>
     managed w l2 lib \<and> fmlookup l2 LabelInternal = None \<and>
     o_body lib = HelmRepositoryB \<lparr>hr_secretRef = None, hr_type = HelmRepositoryTypeOCI,
       hr_url = ''oci://'' @ h @ sep @ port @ ''/library'', hr_interval = 300, hr_insecure = (scheme = ''http'')\<rparr>"
proof -
  let ?url = "scheme @ ''://'' @ h @ sep @ port @ path"
  have b: "buildHelmRepositoryURL ?url p = Inr (''oci://'' @ (h @ sep @ port) @ ''/'' @ p, scheme = ''http'')" for p
    unfolding buildHelmRepositoryURL_def url_Parse_plain [OF assms(3-8)] by simp
  have "helm_ok ?url w version (store (world s'))"
    using hoareD [OF helm.establishes [OF assms(1) kube_api.created_store [OF assms(1)]] refl assms(2)] by simp
  then obtain own lib where "store (world s') (HelmRepositoryK, ws_namespace w, HelmRepositoryName) = Some own"
    "managed w (helmLabels w version (helmSources w ! 0)) own"
    "o_body own = HelmRepositoryB (helmSpec (helmSources w ! 0) (''oci://'' @ (h @ sep @ port) @ ''/'' @ ws_namespace w) (scheme = ''http''))"
    "store (world s') (HelmRepositoryK, ws_namespace w, HarborDefaultProjectName) = Some lib"
    "managed w (helmLabels w version (helmSources w ! 1)) lib"
    "o_body lib = HelmRepositoryB (helmSpec (helmSources w ! 1) (''oci://'' @ (h @ sep @ port) @ ''/'' @ HarborDefaultProjectName) (scheme = ''http''))"
    unfolding helm_ok_def source_ok_def b by (auto simp: helmSources_def helmRef_def)
  moreover have "fmlookup (helmLabels w version (helmSources w ! 0)) LabelInternal = Some ''true''"
    "fmlookup (helmLabels w version (helmSources w ! 1)) LabelInternal = None"
    by (simp_all add: helmLabels_def helmSources_def Let_def LabelsForWorkspace_lookup go_consts)
  ultimately show ?thesis
    by (intro exI [of _ own] exI [of _ lib] exI [of _ "helmLabels w version (helmSources w ! 0)"]
        exI [of _ "helmLabels w version (helmSources w ! 1)"])
       (simp add: helmSpec_def helmSources_def HarborDefaultProjectName_def)
qed

theorem helm_sources_follow_harbor_witness:
  "\<exists>s' own. ReconcileHelmRepository mem_client sample_ws ''v1'' ''http://harbor.local:8080''
        (start [((NamespaceK, [], ''team-alpha''), restored_namespace)]) = (Inr (), s') \<and>
      mem_lookup (world s') (HelmRepositoryK, ''team-alpha'', HelmRepositoryName) = Some own \<and>
      o_body own = HelmRepositoryB \<lparr>hr_secretRef = Some ImagePullSecretName, hr_type = HelmRepositoryTypeOCI,
        hr_url = ''oci://harbor.local:8080/team-alpha'', hr_interval = 300, hr_insecure = True\<rparr>"
proof -
  let ?s = "start [((NamespaceK, [], ''team-alpha''), restored_namespace)]"
  have "\<not> isl (fst (ReconcileHelmRepository mem_client sample_ws ''v1'' ''http://harbor.local:8080'' ?s))" by code_simp
  then obtain u s' where r: "ReconcileHelmRepository mem_client sample_ws ''v1'' ''http://harbor.local:8080'' ?s = (Inr u, s')"
    by (rule run_okE)
  have "plainHost ''harbor.local''" "list_all isDigit ''8080''" by code_simp+
  with helm_sources_follow_harbor [of mem_client mem_lookup sample_ws "''v1''" "''http''" "''harbor.local''" "'':''" "''8080''" "[]" ?s u s']
  show ?thesis using mem_server.kube_api_axioms r by auto
qed

end
