(* ===== verification/Controller.thy ===== *)
theory Controller
  imports Namespaces Rbac Constraints Helm
begin

text \<open>
  \<open>src/internal/controller/workspace_controller.go\<close>: one reconcile of a workspace, from the fetch to the status
  patch, and the handling of its errors. Watches and setup are in \<open>Watches\<close>.
\<close>

section \<open>The reconciler\<close>

text \<open>
  \<open>r_Transport\<close> is the HTTP transport \<open>harbor.NewClient\<close> uses; \<open>r_NewHarborClient\<close> is \<open>None\<close> when the field is
  unset. Events are output only.
\<close>

record 's WorkspaceReconciler =
  r_Client :: "'s client"
  r_Version :: string
  r_NewHarborClient :: "(string \<Rightarrow> string \<Rightarrow> string \<Rightarrow> 's HarborClient) option"
  r_Transport :: "'s transport"

text \<open>\<open>ctrl.Result\<close>: the delay in seconds before the next run, 0 for none.\<close>

record Result =
  RequeueAfter :: nat

definition noRequeue :: Result where "noRequeue = \<lparr>RequeueAfter = 0\<rparr>"

definition harborClient :: "'s WorkspaceReconciler \<Rightarrow> HarborCredentials \<Rightarrow> 's HarborClient" where
  "harborClient r creds =
     (case r_NewHarborClient r of
        None \<Rightarrow> NewClient (r_Transport r) (hcr_URL creds) (hcr_RobotName creds) (hcr_RobotSecret creds)
      | Some newClient \<Rightarrow> newClient (hcr_URL creds) (hcr_RobotName creds) (hcr_RobotSecret creds))"

definition missingHarborMembersRequeue :: nat where "missingHarborMembersRequeue = 5 * 60"

definition eventf :: "Workspace \<Rightarrow> event_type \<Rightarrow> string \<Rightarrow> message \<Rightarrow> ('s, unit) io" where
  "eventf w eventType reason msg = request (EvRecord (ws_name w) eventType reason msg) (\<lambda>x. (Inr (), x))"

section \<open>Status\<close>

definition readyCondition :: "Workspace \<Rightarrow> ConditionStatus \<Rightarrow> string \<Rightarrow> message \<Rightarrow> Condition" where
  "readyCondition w status reason msg =
     \<lparr>cond_type = ConditionTypeReady, cond_status = status, cond_reason = reason, cond_message = msg,
      cond_observedGeneration = om_generation (ws_meta w), cond_lastTransitionTime = 0\<rparr>"

definition setReadyConditionFalse ::
    "'s WorkspaceReconciler \<Rightarrow> Workspace \<Rightarrow> string \<Rightarrow> message \<Rightarrow> ('s, unit) io" where
  "setReadyConditionFalse r w reason msg = (\<lambda>s.
     let conditions = client_SetStatusCondition (r_Client r) (world s) (st_conditions (ws_status w))
                        (readyCondition w ConditionFalse reason msg);
         w' = w\<lparr>ws_status := (ws_status w)\<lparr>st_conditions := conditions,
                                          st_observedGeneration := om_generation (ws_meta w)\<rparr>\<rparr>
     in kPatchStatus (r_Client r) w w' s)"

definition observedRef :: "'s WorkspaceReconciler \<Rightarrow> kind \<Rightarrow> string \<Rightarrow> string \<Rightarrow> ('s, ResourceReference option) io" where
  "observedRef r k name namespace =
     onResult (kGet (r_Client r) (k, namespace, name))
       (\<lambda>err. if IsNotFound err then ret None
              else fail (Wrapf ''observing %s/%s: %w'' [namespace, name] err))
       (\<lambda>_. ret (Some \<lparr>ref_name = name, ref_namespace = namespace\<rparr>))"

definition roleBindingRefs :: "Workspace \<Rightarrow> ResourceReference list" where
  "roleBindingRefs w =
     (let rolesInUse = set (map m_role (ws_members w)) in
      map (\<lambda>role. \<lparr>ref_name = RoleBindingName @ ''-'' @ role, ref_namespace = ws_namespace w\<rparr>)
        (filter (\<lambda>role. role \<in> rolesInUse) AllMemberRoles))"

text \<open>The part of the new status that the specification determines.\<close>

definition derivedStatus :: "Workspace \<Rightarrow> WorkspaceStatus" where
  "derivedStatus w = (ws_status w)\<lparr>
     st_observedGeneration := om_generation (ws_meta w),
     st_namespaceRef := Some \<lparr>ref_name = ws_namespace w, ref_namespace = []\<rparr>,
     st_roleBindingRefs := roleBindingRefs w,
     st_resourceQuotaRef := (if spec_resourceQuota (ws_spec w) \<noteq> None
        then Some \<lparr>ref_name = ResourceQuotaName, ref_namespace = ws_namespace w\<rparr> else None),
     st_limitRangeRef := (if spec_limitRange (ws_spec w) \<noteq> None
        then Some \<lparr>ref_name = LimitRangeName, ref_namespace = ws_namespace w\<rparr> else None),
     st_networkPolicyRef := (if ni_enabled (spec_networkIsolation (ws_spec w))
        then Some \<lparr>ref_name = NetworkPolicyName, ref_namespace = ws_namespace w\<rparr> else None)\<rparr>"

definition finalCondition :: "Workspace \<Rightarrow> string list \<Rightarrow> Condition" where
  "finalCondition w missingHarborMembers =
     (if length missingHarborMembers > 0
      then readyCondition w ConditionFalse ''HarborMembersPending''
             (Text (''Waiting for Harbor users to be provisioned: '' @ Join missingHarborMembers '', ''))
      else readyCondition w ConditionTrue ''Reconciled'' (Text ''Workspace resources are successfully reconciled''))"

definition patchIfChanged :: "'s WorkspaceReconciler \<Rightarrow> Workspace \<Rightarrow> WorkspaceStatus \<Rightarrow> ('s, unit) io" where
  "patchIfChanged r w newStatus =
     (if ws_status w \<noteq> newStatus
      then andThen (wrapErr ''patching Workspace status: %w'' []
                      (kPatchStatus (r_Client r) w (w\<lparr>ws_status := newStatus\<rparr>))) (\<lambda>_.
             eventf w EventTypeNormal ''Reconciled''
               (Text (''Workspace resources reconciled for namespace '' @ ws_namespace w)))
      else ret ())"

text \<open>The new status, given what was observed; the outside is read for the current time only.\<close>

definition newStatusFor ::
    "'s WorkspaceReconciler \<Rightarrow> Workspace \<Rightarrow> string list \<Rightarrow> ResourceReference option \<Rightarrow> ResourceReference option \<Rightarrow>
     's \<Rightarrow> WorkspaceStatus" where
  "newStatusFor r w missingHarborMembers secretRef repoRef now =
     (let observed = (derivedStatus w)\<lparr>st_imagePullSecretRef := secretRef, st_helmRepositoryRef := repoRef\<rparr>;
          conditions = client_SetStatusCondition (r_Client r) now (st_conditions observed)
                         (finalCondition w missingHarborMembers)
      in observed\<lparr>st_conditions := sort_key cond_type conditions\<rparr>)"

definition updateStatus :: "'s WorkspaceReconciler \<Rightarrow> Workspace \<Rightarrow> string list \<Rightarrow> ('s, unit) io" where
  "updateStatus r w missingHarborMembers =
     andThen (observedRef r SecretK ImagePullSecretName (ws_namespace w)) (\<lambda>secretRef.
     andThen (observedRef r HelmRepositoryK HelmRepositoryName (ws_namespace w)) (\<lambda>repoRef. \<lambda>s.
       patchIfChanged r w (newStatusFor r w missingHarborMembers secretRef repoRef (world s)) s))"

section \<open>Resources\<close>

definition reconcileResources :: "'s WorkspaceReconciler \<Rightarrow> Workspace \<Rightarrow> ('s, string list) io" where
  "reconcileResources r w =
     (let c = r_Client r; version = r_Version r in
      andThen (ReconcileNamespace c w version) (\<lambda>_.
      andThen (OperatorHarborCredentials c) (\<lambda>creds.
      andThen (ReconcileHarbor c w version (harborClient r creds) (hcr_URL creds)) (\<lambda>missingHarborMembers.
      andThen (ReconcileHelmRepository c w version (hcr_URL creds)) (\<lambda>_.
      andThen (ReconcileRoleBindings c w version) (\<lambda>_.
      andThen (ReconcileServiceAccount c w version) (\<lambda>_.
      andThen (ReconcileResourceQuota c w version) (\<lambda>_.
      andThen (ReconcileLimitRange c w version) (\<lambda>_.
      andThen (ReconcileNetworkIsolation c w version) (\<lambda>_.
      ret missingHarborMembers))))))))))"

section \<open>Errors\<close>

definition handleReconcileError :: "'s WorkspaceReconciler \<Rightarrow> Workspace \<Rightarrow> error \<Rightarrow> ('s, Result) io" where
  "handleReconcileError r w err =
     (if AsNamespaceConflict err \<noteq> None
      then onResult (setReadyConditionFalse r w ''NamespaceConflict'' (ErrorText err))
             (\<lambda>_. andThen (eventf w EventTypeWarning ''NamespaceConflict'' (ErrorText err)) (\<lambda>_.
                ret \<lparr>RequeueAfter = 30\<rparr>))
             (\<lambda>_. andThen (eventf w EventTypeWarning ''NamespaceConflict'' (ErrorText err)) (\<lambda>_.
                ret noRequeue))
      else if IsConflict err then fail err
      else (let surface = andThen (eventf w EventTypeWarning ''ReconcileError'' (ErrorText err)) (\<lambda>_. fail err)
            in onResult (setReadyConditionFalse r w ''ReconcileError'' (ErrorText err))
                 (\<lambda>_. surface) (\<lambda>_. surface)))"

section \<open>Reconcile\<close>

definition backfillLabel :: "Workspace \<Rightarrow> Workspace" where
  "backfillLabel w = w\<lparr>ws_meta := (ws_meta w)\<lparr>om_labels :=
     fmupd LabelWorkspaceNamespace (ws_namespace w) (ws_labels w)\<rparr>\<rparr>"

definition reconcileFetched :: "'s WorkspaceReconciler \<Rightarrow> Workspace \<Rightarrow> ('s, Result) io" where
  "reconcileFetched r w =
     (if mapGet (ws_labels w) LabelWorkspaceNamespace \<noteq> ws_namespace w
      then andThen (wrapErr ''backfilling namespace label: %w'' [] (kUpdateWorkspace (r_Client r) (backfillLabel w)))
             (\<lambda>_. ret noRequeue)
      else onResult (reconcileResources r w)
             (\<lambda>err. handleReconcileError r w err)
             (\<lambda>missingHarborMembers. andThen (updateStatus r w missingHarborMembers) (\<lambda>_.
                if length missingHarborMembers > 0 then ret \<lparr>RequeueAfter = missingHarborMembersRequeue\<rparr>
                else ret noRequeue)))"

definition Reconcile :: "'s WorkspaceReconciler \<Rightarrow> string \<Rightarrow> ('s, Result) io" where
  "Reconcile r name =
     onResult (kGetWorkspace (r_Client r) name)
       (\<lambda>err. if IsNotFound err then ret noRequeue else fail err)
       (\<lambda>w. reconcileFetched r w)"

section \<open>What one reconcile may touch\<close>

text \<open>
  The requests a reconcile of workspace \<open>w\<close> may make: reads; writes of objects in the workspace's namespace or
  of that namespace; the label backfill, status patches and events of the workspace itself; HTTP requests in \<open>H\<close>.
\<close>

definition confined :: "Workspace \<Rightarrow> http_request set \<Rightarrow> event \<Rightarrow> bool" where
  "confined w H ev = (case ev of
       EvUpdateWorkspace v \<Rightarrow> v = backfillLabel w
     | EvPatchStatus n _ \<Rightarrow> n = ws_name w
     | EvRecord n _ _ _ \<Rightarrow> n = ws_name w
     | _ \<Rightarrow> touches {r. own_ref w r} H ev)"

text \<open>Every HTTP request about the project named after the workspace's namespace, with any credentials.\<close>

definition harbor_requests :: "Workspace \<Rightarrow> http_request set" where
  "harbor_requests w = (\<Union>url user password. project_scope (newHTTPClient url user password) (ws_namespace w))"

lemma touches_confined: "touches R G ev \<Longrightarrow> R \<subseteq> {r. own_ref w r} \<Longrightarrow> G \<subseteq> H \<Longrightarrow> confined w H ev"
  unfolding confined_def by (cases ev) auto

context resource_component
begin

lemma emits_confined: "emits (confined w H) (step c w version)"
  by (rule emits_mono [OF writes_in_scope]) (auto intro: touches_confined dest: scope_own)

end

lemma emits_harbor_confined:
  assumes "r_NewHarborClient r = None"
  shows "emits (confined w (harbor_requests w)) (ReconcileHarbor c w version (harborClient r creds) url)"
  unfolding harborClient_def assms option.case
  by (rule emits_mono [OF http_harbor.emits_ReconcileHarbor])
     (auto intro!: touches_confined dest: harbor_scope_own simp: harbor_requests_def)

lemma emits_credentials: "emits (confined w H) (OperatorHarborCredentials c)"
  unfolding OperatorHarborCredentials_def Let_def by (intro emits_rules) (simp add: confined_def)

lemmas component_confined = tenant_namespace.emits_confined helm.emits_confined role_bindings.emits_confined
  deployer.emits_confined quota.emits_confined limits.emits_confined isolation.emits_confined

lemma emits_reconcileResources:
  "r_NewHarborClient r = None \<Longrightarrow> emits (confined w (harbor_requests w)) (reconcileResources r w)"
  unfolding reconcileResources_def Let_def
  by (intro emits_andThen emits_ret component_confined emits_credentials emits_harbor_confined)

lemma emits_setReadyConditionFalse: "emits (confined w H) (setReadyConditionFalse r w reason msg)"
proof -
  have "emits (confined w H) (kPatchStatus (r_Client r) w (w\<lparr>ws_status := st\<rparr>))" for st
    by (rule emits_rules) (simp add: confined_def)
  then show ?thesis unfolding setReadyConditionFalse_def Let_def emits_def by blast
qed

lemma emits_eventf: "emits (confined w H) (eventf w et reason msg)"
  unfolding eventf_def by (rule emits_rules) (simp add: confined_def)

lemma emits_handleReconcileError: "emits (confined w H) (handleReconcileError r w err)"
  unfolding handleReconcileError_def Let_def
  by (intro emits_if emits_onResult emits_andThen emits_ret emits_fail emits_setReadyConditionFalse emits_eventf)

lemma emits_patchIfChanged: "emits (confined w H) (patchIfChanged r w st)"
  unfolding patchIfChanged_def
  by (intro emits_rules emits_eventf) (simp add: confined_def)

lemma emits_updateStatus: "emits (confined w H) (updateStatus r w ms)"
proof -
  have "emits (confined w H) (\<lambda>s. patchIfChanged r w (f s) s)" for f
    using emits_patchIfChanged [of w H r] unfolding emits_def by blast
  then show ?thesis
    unfolding updateStatus_def observedRef_def
    by (intro emits_andThen emits_rules) (simp_all add: confined_def)
qed

lemma emits_reconcileFetched:
  "r_NewHarborClient r = None \<Longrightarrow> emits (confined w (harbor_requests w)) (reconcileFetched r w)"
  unfolding reconcileFetched_def
  by (intro emits_rules emits_reconcileResources emits_handleReconcileError emits_updateStatus)
     (simp_all add: confined_def backfillLabel_def)

section \<open>What a reconcile establishes\<close>

text \<open>The Harbor credentials the operator Secret holds, when it is complete.\<close>

definition credentials_in :: "(objref \<Rightarrow> Object option) \<Rightarrow> HarborCredentials \<Rightarrow> bool" where
  "credentials_in \<sigma> creds \<longleftrightarrow>
     (\<exists>ob. \<sigma> operatorSecretRef = Some ob \<and>
        creds = \<lparr>hcr_URL = mapGet (dataOf (o_body ob)) HarborURLKey,
                 hcr_RobotName = mapGet (dataOf (o_body ob)) HarborRobotNameKey,
                 hcr_RobotSecret = mapGet (dataOf (o_body ob)) HarborRobotSecretKey\<rparr>) \<and>
     hcr_URL creds \<noteq> [] \<and> hcr_RobotName creds \<noteq> [] \<and> hcr_RobotSecret creds \<noteq> []"

text \<open>Everything the specification of a workspace asks for, as a statement about the cluster's objects.\<close>

definition tenant_ready :: "Workspace \<Rightarrow> string \<Rightarrow> (objref \<Rightarrow> Object option) \<Rightarrow> bool" where
  "tenant_ready w version \<sigma> \<longleftrightarrow>
     namespace_ok w version \<sigma> \<and>
     (\<exists>creds. credentials_in \<sigma> creds \<and> helm_ok (hcr_URL creds) w version \<sigma>) \<and>
     pull_ready w \<sigma> \<and> bindings_ok w version \<sigma> \<and> deployer_ok w version \<sigma> \<and>
     optional_ok w version (resourceQuotaRef w) (wantedQuota w) \<sigma> \<and>
     optional_ok w version (limitRangeRef w) (wantedLimits w) \<sigma> \<and>
     optional_ok w version (networkPolicyRef w) (wantedPolicy w) \<sigma>"

lemma missingKeys_empty: "missingKeys fs = [] \<longleftrightarrow> (\<forall>f \<in> set fs. snd f \<noteq> [])"
  by (induction fs rule: missingKeys.induct) auto

context kube_api
begin

lemma hoare_OperatorHarborCredentials:
  "hoare (\<lambda>v. store v = \<sigma>) (OperatorHarborCredentials c)
     (\<lambda>creds v. store v = \<sigma> \<and> credentials_in \<sigma> creds) (\<lambda>_ v. store v = \<sigma>)"
  unfolding OperatorHarborCredentials_def Let_def
  by (rule hoare_seq_wrapErr [OF hoare_kGet])
     (auto simp: credentials_in_def missingKeys_empty intro!: hoare_ret hoare_fail)

lemma hoare_harbor_keeping:
  assumes "harbor_beside H scope store" and "stable (harbor_scope w) I"
  shows "hoare (\<lambda>v. I (store v)) (ReconcileHarbor c w version H url)
     (\<lambda>ms v. I (store v) \<and> pull_ready w (store v)) (\<lambda>_ v. I (store v))"
proof (rule hoareI)
  note R = hoare_ReconcileHarbor [OF assms(1), of _ w version url]
  fix s :: "'s st" and ms s'
  assume "I (store (world s))" and "ReconcileHarbor c w version H url s = (Inr ms, s')"
  then show "I (store (world s')) \<and> pull_ready w (store (world s'))"
    using hoareD [OF R refl, of s ms s'] stableD [OF assms(2)] unfolding harbor_done_def by blast
next
  note R = hoare_ReconcileHarbor [OF assms(1), of _ w version url]
  fix s :: "'s st" and e s'
  assume "I (store (world s))" and "ReconcileHarbor c w version H url s = (Inl e, s')"
  then show "I (store (world s'))"
    using hoare_errD [OF R refl, of s e s'] stableD [OF assms(2)] by blast
qed

end

text \<open>The scopes of the components do not meet what the others have established.\<close>

lemmas ref_defs = harbor_scope_def helm_scope_def bindings_scope_def deployer_scope_def resourceQuotaRef_def
  limitRangeRef_def networkPolicyRef_def imagePullSecretRef_def defaultServiceAccountRef_def helmRef_def
  roleBindingRef_def serviceAccountRef_def serviceAccountBindingRef_def operatorConfigRef_def operatorSecretRef_def

lemma stable_pull_ready:
  assumes "imagePullSecretRef (ws_namespace w) \<notin> R" and "defaultServiceAccountRef (ws_namespace w) \<notin> R"
  shows "stable R (pull_ready w)"
  by (rule stableI) (use assms in \<open>auto simp: pull_ready_def dest: only_changesD\<close>)

lemma stable_credentials: "operatorSecretRef \<notin> R \<Longrightarrow> stable R (\<lambda>\<sigma>. credentials_in \<sigma> creds)"
  by (rule stableI) (auto simp: credentials_in_def dest: only_changesD)

text \<open>
  One step of the sequence: given that the earlier results \<open>I\<close> survive this component's writes, they hold
  after it together with its own result.
\<close>

definition runs_keeping ::
    "('s \<Rightarrow> objref \<Rightarrow> Object option) \<Rightarrow> objref set \<Rightarrow> ('s, 'a) io \<Rightarrow> ((objref \<Rightarrow> Object option) \<Rightarrow> bool) \<Rightarrow> bool" where
  "runs_keeping store R m ok \<longleftrightarrow>
     (\<forall>I. stable R I \<longrightarrow> hoare (\<lambda>v. I (store v)) m (\<lambda>_ v. I (store v) \<and> ok (store v)) (\<lambda>_ v. I (store v)))"

lemma runs_keeping_seq:
  assumes "runs_keeping store R m ok" and "stable R I" and "\<And>\<sigma>. I \<sigma> \<Longrightarrow> J \<sigma>"
    and "\<And>x. hoare (\<lambda>v. I (store v) \<and> ok (store v)) (f x) Q (\<lambda>_ v. J (store v))"
  shows "hoare (\<lambda>v. I (store v)) (andThen m f) Q (\<lambda>_ v. J (store v))"
  by (rule hoare_seq [OF assms(1) [unfolded runs_keeping_def, rule_format, OF assms(2)]]) (use assms(3,4) in auto)

context resource_component
begin

lemma runs: "kube_api c store \<Longrightarrow> runs_keeping store (scope w) (step c w version) (ok w version)"
  unfolding runs_keeping_def using run_keeping by blast

end

context kube_api
begin

lemma runs_harbor:
  "harbor_beside H scope store \<Longrightarrow>
     runs_keeping store (harbor_scope w) (ReconcileHarbor c w version H url) (pull_ready w)"
  unfolding runs_keeping_def using hoare_harbor_keeping by blast

lemma hoare_credentials_keeping:
  assumes "\<And>creds. hoare (\<lambda>v. I (store v) \<and> credentials_in (store v) creds) (f creds) Q (\<lambda>_ v. J (store v))"
    and "\<And>\<sigma>. I \<sigma> \<Longrightarrow> J \<sigma>"
  shows "hoare (\<lambda>v. I (store v)) (andThen (OperatorHarborCredentials c) f) Q (\<lambda>_ v. J (store v))"
proof (rule hoare_seq)
  show "hoare (\<lambda>v. I (store v)) (OperatorHarborCredentials c)
      (\<lambda>creds v. I (store v) \<and> credentials_in (store v) creds) (\<lambda>_ v. I (store v))"
    by (rule hoareI) (auto dest: hoareD [OF hoare_OperatorHarborCredentials refl]
        hoare_errD [OF hoare_OperatorHarborCredentials refl])
qed (use assms in auto)

end

lemma own_scopes:
  "{namespaceRef (ws_namespace w)} \<subseteq> {r. own_ref w r}" "harbor_scope w \<subseteq> {r. own_ref w r}"
  "helm_scope w \<subseteq> {r. own_ref w r}" "bindings_scope w \<subseteq> {r. own_ref w r}" "deployer_scope w \<subseteq> {r. own_ref w r}"
  "{resourceQuotaRef w} \<subseteq> {r. own_ref w r}" "{limitRangeRef w} \<subseteq> {r. own_ref w r}"
  "{networkPolicyRef w} \<subseteq> {r. own_ref w r}"
  by (auto simp: own_ref_def ref_defs)

lemma scopes_apart:
  "{namespaceRef (ws_namespace w), operatorConfigRef} \<inter> harbor_scope w = {}"
  "{namespaceRef (ws_namespace w), operatorConfigRef} \<inter> helm_scope w = {}"
  "{namespaceRef (ws_namespace w), operatorConfigRef} \<inter> bindings_scope w = {}"
  "{namespaceRef (ws_namespace w), operatorConfigRef} \<inter> deployer_scope w = {}"
  "helm_scope w \<inter> bindings_scope w = {}" "helm_scope w \<inter> deployer_scope w = {}"
  "bindings_scope w \<inter> deployer_scope w = {}"
  by (auto simp: ref_defs AllMemberRoles_def helmSources_def go_consts)

lemma objects_apart:
  "x \<in> {resourceQuotaRef w, limitRangeRef w, networkPolicyRef w} \<Longrightarrow>
     {namespaceRef (ws_namespace w), operatorConfigRef} \<inter> {x} = {} \<and> helm_scope w \<inter> {x} = {} \<and>
     bindings_scope w \<inter> {x} = {} \<and> deployer_scope w \<inter> {x} = {} \<and>
     x \<noteq> operatorSecretRef \<and> x \<noteq> imagePullSecretRef (ws_namespace w) \<and> x \<noteq> defaultServiceAccountRef (ws_namespace w)"
  by (auto simp: ref_defs AllMemberRoles_def helmSources_def)

lemma secret_apart:
  "operatorSecretRef \<notin> harbor_scope w" "operatorSecretRef \<notin> helm_scope w" "operatorSecretRef \<notin> bindings_scope w"
  "operatorSecretRef \<notin> deployer_scope w"
  by (auto simp: ref_defs AllMemberRoles_def helmSources_def go_consts)

lemma pull_apart:
  "imagePullSecretRef (ws_namespace w) \<notin> helm_scope w" "imagePullSecretRef (ws_namespace w) \<notin> bindings_scope w"
  "imagePullSecretRef (ws_namespace w) \<notin> deployer_scope w" "defaultServiceAccountRef (ws_namespace w) \<notin> helm_scope w"
  "defaultServiceAccountRef (ws_namespace w) \<notin> bindings_scope w"
  "defaultServiceAccountRef (ws_namespace w) \<notin> deployer_scope w"
  by (auto simp: ref_defs AllMemberRoles_def helmSources_def go_consts)

lemma optional_apart [simp]:
  "resourceQuotaRef w \<noteq> limitRangeRef w" "resourceQuotaRef w \<noteq> networkPolicyRef w" "limitRangeRef w \<noteq> networkPolicyRef w"
  by (simp_all add: ref_defs)

lemmas stable_components = tenant_namespace.stable_ok helm.stable_ok role_bindings.stable_ok deployer.stable_ok
  quota.stable_ok limits.stable_ok isolation.stable_ok stable_pull_ready stable_credentials stable_only_changes

text \<open>A sequence of steps, each with its scope and its result; later scopes spare earlier results.\<close>

type_synonym 's cluster_step = "objref set \<times> ('s, unit) io \<times> ((objref \<Rightarrow> Object option) \<Rightarrow> bool)"

lemma hoare_steps:
  fixes xs :: "'s cluster_step list"
  assumes "\<forall>x \<in> set xs. runs_keeping store (fst x) (fst (snd x)) (snd (snd x)) \<and> stable (fst x) I"
    and "sorted_wrt (\<lambda>x y. stable (fst y) (snd (snd x))) xs"
  shows "hoare (\<lambda>v. I (store v)) (forEach (\<lambda>x. fst (snd x)) xs)
     (\<lambda>_ v. I (store v) \<and> (\<forall>x \<in> set xs. snd (snd x) (store v))) (\<lambda>_ v. I (store v))"
  using assms
proof (induction xs arbitrary: I)
  case Nil
  show ?case by (auto intro: hoare_ret)
next
  case (Cons x xs)
  let ?I = "\<lambda>\<sigma>. I \<sigma> \<and> snd (snd x) \<sigma>"
  have "hoare (\<lambda>v. ?I (store v)) (forEach (\<lambda>x. fst (snd x)) xs)
     (\<lambda>_ v. ?I (store v) \<and> (\<forall>x \<in> set xs. snd (snd x) (store v))) (\<lambda>_ v. ?I (store v))"
    by (rule Cons.IH) (use Cons.prems in auto)
  then have rest: "hoare (\<lambda>v. I (store v) \<and> snd (snd x) (store v)) (forEach (\<lambda>x. fst (snd x)) xs)
     (\<lambda>_ v. I (store v) \<and> (\<forall>x \<in> set (x # xs). snd (snd x) (store v))) (\<lambda>_ v. I (store v))"
    by (rule hoare_conseq) auto
  show ?case
    unfolding forEach.simps
    by (rule runs_keeping_seq [where I = I and J = I, OF _ _ _ rest]) (use Cons.prems in auto)
qed

text \<open>The part of the sequence after Harbor.\<close>

definition tail_steps :: "'s client \<Rightarrow> Workspace \<Rightarrow> string \<Rightarrow> string \<Rightarrow> 's cluster_step list" where
  "tail_steps c w version url =
     [(helm_scope w, ReconcileHelmRepository c w version url, helm_ok url w version),
      (bindings_scope w, ReconcileRoleBindings c w version, bindings_ok w version),
      (deployer_scope w, ReconcileServiceAccount c w version, deployer_ok w version),
      ({resourceQuotaRef w}, ReconcileResourceQuota c w version, optional_ok w version (resourceQuotaRef w) (wantedQuota w)),
      ({limitRangeRef w}, ReconcileLimitRange c w version, optional_ok w version (limitRangeRef w) (wantedLimits w)),
      ({networkPolicyRef w}, ReconcileNetworkIsolation c w version, optional_ok w version (networkPolicyRef w) (wantedPolicy w))]"

lemma reconcileResources_steps:
  "reconcileResources r w =
     andThen (ReconcileNamespace (r_Client r) w (r_Version r)) (\<lambda>_.
     andThen (OperatorHarborCredentials (r_Client r)) (\<lambda>creds.
     andThen (ReconcileHarbor (r_Client r) w (r_Version r) (harborClient r creds) (hcr_URL creds)) (\<lambda>missing.
     andThen (forEach (\<lambda>x. fst (snd x)) (tail_steps (r_Client r) w (r_Version r) (hcr_URL creds))) (\<lambda>_. ret missing))))"
  by (simp add: reconcileResources_def tail_steps_def Let_def andThen_assoc)

lemma tail_steps_run: "kube_api c store \<Longrightarrow> \<forall>x \<in> set (tail_steps c w version url).
    runs_keeping store (fst x) (fst (snd x)) (snd (snd x))"
  by (simp add: tail_steps_def helm.runs role_bindings.runs deployer.runs quota.runs limits.runs isolation.runs)

lemma tail_steps_apart: "sorted_wrt (\<lambda>x y. stable (fst y) (snd (snd x))) (tail_steps c w version url)"
proof -
  note q = objects_apart [of "resourceQuotaRef w" w] objects_apart [of "limitRangeRef w" w]
    objects_apart [of "networkPolicyRef w" w]
  show ?thesis
    unfolding tail_steps_def
    by (simp, intro conjI; (rule stable_components; use scopes_apart q in simp))
qed

lemma tail_steps_spare:
  assumes "x \<in> set (tail_steps c w version url)"
  shows "stable (fst x) (only_changes {r. own_ref w r} \<sigma>)" and "stable (fst x) (namespace_ok w version)"
    and "stable (fst x) (\<lambda>\<sigma>. credentials_in \<sigma> creds)" and "stable (fst x) (pull_ready w)"
proof -
  note q = objects_apart [of "resourceQuotaRef w" w] objects_apart [of "limitRangeRef w" w]
    objects_apart [of "networkPolicyRef w" w]
  have x: "fst x \<in> {helm_scope w, bindings_scope w, deployer_scope w, {resourceQuotaRef w}, {limitRangeRef w}, {networkPolicyRef w}}"
    using assms by (auto simp: tail_steps_def)
  show "stable (fst x) (only_changes {r. own_ref w r} \<sigma>)"
    by (rule stable_only_changes) (use x own_scopes [of w] in \<open>elim insertE emptyE, simp_all\<close>)
  show "stable (fst x) (namespace_ok w version)"
    by (rule tenant_namespace.stable_ok) (use x scopes_apart q in auto)
  show "stable (fst x) (\<lambda>\<sigma>. credentials_in \<sigma> creds)"
    by (rule stable_credentials) (use x secret_apart q in auto)
  show "stable (fst x) (pull_ready w)"
    by (rule stable_pull_ready) (use x pull_apart q in auto)
qed

text \<open>The Harbor client the reconciler builds keeps its contract and leaves Kubernetes alone.\<close>

definition harbor_sound :: "'s WorkspaceReconciler \<Rightarrow> ('s \<Rightarrow> objref \<Rightarrow> Object option) \<Rightarrow> bool" where
  "harbor_sound r store \<longleftrightarrow> (\<forall>creds. \<exists>scope. harbor_beside (harborClient r creds) scope store)"

lemma harbor_sound_http:
  "r_NewHarborClient r = None \<Longrightarrow> transport_beside (r_Transport r) store \<Longrightarrow> harbor_sound r store"
  unfolding harbor_sound_def harborClient_def
  by (auto intro!: exI transport_beside.client_beside)

lemma hoare_tail_steps:
  fixes \<sigma> :: "objref \<Rightarrow> Object option" and w :: Workspace and version :: string
  assumes api: "kube_api c store"
  defines "J \<equiv> only_changes {r. own_ref w r} \<sigma>"
  defines "I \<equiv> (\<lambda>creds \<tau>. ((J \<tau> \<and> namespace_ok w version \<tau>) \<and> credentials_in \<tau> creds) \<and> pull_ready w \<tau>)"
  shows "hoare (\<lambda>v. I creds (store v))
      (andThen (forEach (\<lambda>x. fst (snd x)) (tail_steps c w version (hcr_URL creds))) (\<lambda>_. ret ms))
      (\<lambda>_ v. J (store v) \<and> tenant_ready w version (store v)) (\<lambda>_ v. J (store v))"
proof (rule hoare_seq [OF hoare_steps [where I = "I creds"]])
  show "\<forall>x \<in> set (tail_steps c w version (hcr_URL creds)).
      runs_keeping store (fst x) (fst (snd x)) (snd (snd x)) \<and> stable (fst x) (I creds)"
    using tail_steps_run [OF api] tail_steps_spare by (auto simp: I_def J_def intro!: stable_conj)
  show "sorted_wrt (\<lambda>x y. stable (fst y) (snd (snd x))) (tail_steps c w version (hcr_URL creds))"
    by (rule tail_steps_apart)
  show "hoare (\<lambda>v. I creds (store v) \<and> (\<forall>x \<in> set (tail_steps c w version (hcr_URL creds)). snd (snd x) (store v)))
      (ret ms) (\<lambda>_ v. J (store v) \<and> tenant_ready w version (store v)) (\<lambda>_ v. J (store v))" for u :: unit
    by (rule hoare_ret) (auto simp: I_def tenant_ready_def tail_steps_def)
qed (auto simp: I_def)

lemma hoare_reconcileResources:
  assumes api: "kube_api (r_Client r) store" and harbor: "harbor_sound r store"
  shows "hoare (\<lambda>v. store v = \<sigma>) (reconcileResources r w)
     (\<lambda>_ v. only_changes {r. own_ref w r} \<sigma> (store v) \<and> tenant_ready w (r_Version r) (store v))
     (\<lambda>_ v. only_changes {r. own_ref w r} \<sigma> (store v))"
proof -
  let ?c = "r_Client r" and ?v = "r_Version r" and ?J = "only_changes {r. own_ref w r} \<sigma>"
  let ?I1 = "\<lambda>\<tau>. ?J \<tau> \<and> namespace_ok w ?v \<tau>"
  let ?I2 = "\<lambda>creds \<tau>. ?I1 \<tau> \<and> credentials_in \<tau> creds"
  let ?I3 = "\<lambda>creds \<tau>. ?I2 creds \<tau> \<and> pull_ready w \<tau>"
  let ?Q = "\<lambda>v. ?J (store v) \<and> tenant_ready w ?v (store v)"
  note tail = hoare_tail_steps [OF api]
  have harb: "hoare (\<lambda>v. ?I2 creds (store v))
      (andThen (ReconcileHarbor ?c w ?v (harborClient r creds) (hcr_URL creds)) (\<lambda>ms.
         andThen (forEach (\<lambda>x. fst (snd x)) (tail_steps ?c w ?v (hcr_URL creds))) (\<lambda>_. ret ms)))
      (\<lambda>_. ?Q) (\<lambda>_ v. ?J (store v))" for creds
  proof -
    obtain scope where "harbor_beside (harborClient r creds) scope store"
      using harbor unfolding harbor_sound_def by blast
    then have k: "runs_keeping store (harbor_scope w) (ReconcileHarbor ?c w ?v (harborClient r creds) (hcr_URL creds)) (pull_ready w)"
      by (rule kube_api.runs_harbor [OF api])
    have st: "stable (harbor_scope w) (?I2 creds)"
      using own_scopes [of w] scopes_apart [of w] secret_apart [of w]
      by (intro stable_conj stable_only_changes tenant_namespace.stable_ok stable_credentials) simp_all
    show ?thesis
      by (rule runs_keeping_seq [where I = "?I2 creds" and J = ?J, OF k st _ tail]) simp
  qed
  have creds: "hoare (\<lambda>v. ?I1 (store v))
      (andThen (OperatorHarborCredentials ?c) (\<lambda>creds.
         andThen (ReconcileHarbor ?c w ?v (harborClient r creds) (hcr_URL creds)) (\<lambda>ms.
         andThen (forEach (\<lambda>x. fst (snd x)) (tail_steps ?c w ?v (hcr_URL creds))) (\<lambda>_. ret ms))))
      (\<lambda>_. ?Q) (\<lambda>_ v. ?J (store v))"
    by (rule kube_api.hoare_credentials_keeping [where I = ?I1 and J = ?J, OF api harb]) simp
  have "hoare (\<lambda>v. ?J (store v)) (reconcileResources r w) (\<lambda>_. ?Q) (\<lambda>_ v. ?J (store v))"
    unfolding reconcileResources_steps
    by (rule runs_keeping_seq [where I = ?J and J = ?J, OF tenant_namespace.runs [OF api] _ _ creds])
       (use own_scopes [of w] in \<open>auto intro: stable_only_changes\<close>)
  then show ?thesis by (rule hoare_conseq) auto
qed

section \<open>Where a namespace conflict comes from\<close>

abbreviation no_conflict :: "error \<Rightarrow> bool" where
  "no_conflict e \<equiv> AsNamespaceConflict e = None"

lemma plain_no_conflict: "plain_error e \<Longrightarrow> no_conflict e"
  by (simp add: plain_error_def)

lemma outcome_plain: "outcome Q plain_error m \<Longrightarrow> outcome (\<lambda>_. True) no_conflict m"
  by (erule outcome_conseq) (simp_all add: plain_no_conflict)

lemma outcome_keepsD: "(\<And>\<sigma>. hoare (\<lambda>v. f v = \<sigma>) m Q (\<lambda>e _. E e)) \<Longrightarrow> outcome (\<lambda>_. True) E m"
  by (rule outcomeI) (auto dest: hoare_errD)

context kube_api
begin

lemma outcome_stamp [outcome_rules]: "outcome (\<lambda>_. True) no_conflict (kCreateOrUpdate c r (stamp c w l g))"
  by (rule outcome_keepsD [of store], rule hoare_conseq [OF hoare_stamp]) auto

lemma outcome_delete [outcome_rules]: "outcome (\<lambda>_. True) no_conflict (ignoreNotFound (kDelete c r))"
  by (rule outcome_keepsD [of store], rule hoare_conseq [OF hoare_delete_ignoring_absence])
     (auto simp: IsAPIError_no_conflict)

lemma outcome_kGet [outcome_rules]: "outcome (\<lambda>_. True) no_conflict (kGet c r)"
  by (rule outcome_keepsD [of store], rule hoare_conseq [OF hoare_kGet]) (auto simp: IsAPIError_no_conflict)

lemma outcome_components:
  "outcome (\<lambda>_. True) no_conflict (OperatorHarborCredentials c)"
  "outcome (\<lambda>_. True) no_conflict (ReconcileHelmRepository c w version url)"
  "outcome (\<lambda>_. True) no_conflict (ReconcileRoleBindings c w version)"
  "outcome (\<lambda>_. True) no_conflict (ReconcileServiceAccount c w version)"
  "outcome (\<lambda>_. True) no_conflict (ReconcileResourceQuota c w version)"
  "outcome (\<lambda>_. True) no_conflict (ReconcileLimitRange c w version)"
  "outcome (\<lambda>_. True) no_conflict (ReconcileNetworkIsolation c w version)"
  unfolding OperatorHarborCredentials_def ReconcileHelmRepository_def reconcileHelmSource_def
    ReconcileRoleBindings_def reconcileRoleBinding_def ReconcileServiceAccount_def ReconcileResourceQuota_def
    ReconcileLimitRange_def ReconcileNetworkIsolation_def Let_def
  by (intro outcome_rules TrueI; simp add: outcome_stamp outcome_delete outcome_kGet plain_no_conflict outcome_helm_url)+

lemma outcome_ReconcileHarbor:
  assumes "harbor_api H scope"
  shows "outcome (\<lambda>_. True) no_conflict (ReconcileHarbor c w version H url)"
proof -
  have h: "outcome (\<lambda>_. True) no_conflict (EnsureProject H p)" "outcome (\<lambda>_. True) no_conflict (ReconcileProjectMembers H p ds)"
    "outcome (\<lambda>_. True) no_conflict (EnsureRobot H p q)" "outcome (\<lambda>_. True) no_conflict (RefreshRobotSecret H p q)" for p ds q
    by (rule outcome_plain, rule harbor_api.answers_project [OF assms] harbor_api.answers_members [OF assms]
        harbor_api.answers_ensure [OF assms] harbor_api.answers_refresh [OF assms])+
  have sa: "outcome (\<lambda>_. True) no_conflict (kCreateOrUpdate c r addPullSecret)" for r
    by (rule outcome_keepsD [of store], rule hoare_conseq [OF hoare_kCreateOrUpdate])
       (auto simp: addPullSecret_def split: sum.splits if_splits)
  have miss: "outcome (\<lambda>_. True) no_conflict (imagePullSecretMissing c ns)" for ns
    unfolding imagePullSecretMissing_def by (rule outcome_onResult [OF outcome_kGet]) (auto intro: outcome_rules)
  show ?thesis
    unfolding ReconcileHarbor_def obtainCredentials_def reconcileImagePullSecret_def ensureImagePullSecret_def Let_def
    by (intro outcome_rules TrueI; simp add: h sa miss outcome_stamp)
qed

end

lemma hoare_conflict_foreign:
  assumes api: "kube_api (r_Client r) store" and harbor: "harbor_sound r store" and \<sigma>: "created \<sigma>"
  shows "hoare (\<lambda>v. store v = \<sigma>) (reconcileResources r w) (\<lambda>_ _. True)
     (\<lambda>e _. AsNamespaceConflict e \<noteq> None \<longrightarrow> (\<exists>ob. \<sigma> (namespaceRef (ws_namespace w)) = Some ob \<and> foreign w ob))"
proof -
  have h: "outcome (\<lambda>_. True) no_conflict (ReconcileHarbor (r_Client r) w v (harborClient r creds) url)" for v creds url
    using harbor kube_api.outcome_ReconcileHarbor [OF api] harbor_beside.axioms(1) unfolding harbor_sound_def by blast
  have "outcome (\<lambda>_. True) no_conflict (andThen (OperatorHarborCredentials (r_Client r)) f)"
    if "\<And>x. outcome (\<lambda>_. True) no_conflict (f x)" for f :: "HarborCredentials \<Rightarrow> ('a, string list) io"
    by (intro outcome_seq kube_api.outcome_components [OF api] that)
  note o = outcome_seq kube_api.outcome_components [OF api] h outcome_ret
  show ?thesis
    unfolding reconcileResources_def Let_def
    by (rule hoare_seq [OF kube_api.hoare_ReconcileNamespace [OF api \<sigma>]], auto split: if_splits)
       (rule hoare_conseq [of "\<lambda>_. True" _ "\<lambda>_ _. True" "\<lambda>e _. no_conflict e"],
        unfold outcome_def [symmetric], intro o, auto)
qed

end
