(* ===== verification/Watches.thy ===== *)
theory Watches
  imports Controller
begin

text \<open>
  \<open>src/internal/controller/workspace_controller.go\<close>, lines 268-413: what makes the controller run. The event
  filters on the operator-wide inputs, the handlers that fan a change out to every workspace, and the builder
  chain of \<open>SetupWithManager\<close> as a value. How controller-runtime turns such a value and an event into reconcile
  requests is outside the repository: the locale \<open>watch_dispatch\<close> states what its documentation promises.
\<close>

section \<open>Events and predicates\<close>

text \<open>\<open>client.Object\<close>, which may be nil in an event (\<open>None\<close>).\<close>

datatype watched = AWorkspace Workspace | AnObject Object

fun watched_meta :: "watched \<Rightarrow> ObjectMeta" where
  "watched_meta (AWorkspace w) = ws_meta w"
| "watched_meta (AnObject ob) = o_meta ob"

datatype watch_event =
    CreateEvent "watched option"
  | DeleteEvent "watched option"
  | UpdateEvent (ObjectOld: "watched option") (ObjectNew: "watched option")
  | GenericEvent "watched option"

text \<open>\<open>predicate.Funcs\<close>\<close>

record predicate_Funcs =
  CreateFunc :: "watched option \<Rightarrow> bool"
  DeleteFunc :: "watched option \<Rightarrow> bool"
  UpdateFunc :: "watched option \<Rightarrow> watched option \<Rightarrow> bool"
  GenericFunc :: "watched option \<Rightarrow> bool"

fun admits :: "predicate_Funcs \<Rightarrow> watch_event \<Rightarrow> bool" where
  "admits p (CreateEvent ob) = CreateFunc p ob"
| "admits p (DeleteEvent ob) = DeleteFunc p ob"
| "admits p (UpdateEvent old new) = UpdateFunc p old new"
| "admits p (GenericEvent ob) = GenericFunc p ob"

text \<open>
  \<open>operatorInputPredicate[T]\<close>: \<open>asT\<close> is the type assertion \<open>obj.(T)\<close>, which fails on a nil object.
\<close>

definition operatorInputPredicate ::
    "(ObjectMeta option \<Rightarrow> bool) \<Rightarrow> (watched \<Rightarrow> 'a option) \<Rightarrow> ('a \<Rightarrow> 'a \<Rightarrow> bool) \<Rightarrow> predicate_Funcs" where
  "operatorInputPredicate matches asT changed =
     \<lparr>CreateFunc = (\<lambda>ob. matches (map_option watched_meta ob)),
      DeleteFunc = (\<lambda>ob. matches (map_option watched_meta ob)),
      UpdateFunc = (\<lambda>old new.
        if \<not> matches (map_option watched_meta new) then False
        else case (Option.bind old asT, Option.bind new asT) of
               (Some oldObj, Some newObj) \<Rightarrow> changed oldObj newObj
             | _ \<Rightarrow> False),
      GenericFunc = (\<lambda>ob. matches (map_option watched_meta ob))\<rparr>"

fun asKind :: "kind \<Rightarrow> watched \<Rightarrow> Object option" where
  "asKind k (AnObject ob) = (if body_kind (o_body ob) = k then Some ob else None)"
| "asKind k (AWorkspace w) = None"

text \<open>\<open>!maps.Equal(old.Data, new.Data)\<close>; a nil map and an empty one are equal.\<close>

definition dataChanged :: "Object \<Rightarrow> Object \<Rightarrow> bool" where
  "dataChanged oldObj newObj \<longleftrightarrow> dataOf (o_body oldObj) \<noteq> dataOf (o_body newObj)"

definition operatorConfigChangedPredicate :: predicate_Funcs where
  "operatorConfigChangedPredicate = operatorInputPredicate IsOperatorConfig (asKind ConfigMapK) dataChanged"

definition operatorSecretChangedPredicate :: predicate_Funcs where
  "operatorSecretChangedPredicate = operatorInputPredicate IsOperatorSecret (asKind SecretK) dataChanged"

section \<open>Handlers\<close>

definition allWorkspaceRequests :: "'s WorkspaceReconciler \<Rightarrow> ('s, string list) op" where
  "allWorkspaceRequests r =
     onResult (kListWorkspaces (r_Client r))
       (\<lambda>err s. ([], s))
       (\<lambda>items s. (map ws_name items, s))"

definition enqueueAllWorkspacesIf ::
    "'s WorkspaceReconciler \<Rightarrow> (ObjectMeta option \<Rightarrow> bool) \<Rightarrow> watched option \<Rightarrow> ('s, string list) op" where
  "enqueueAllWorkspacesIf r matches obj =
     (if \<not> matches (map_option watched_meta obj) then (\<lambda>s. ([], s)) else allWorkspaceRequests r)"

section \<open>The controller the builder assembles\<close>

record 's watch_spec =
  wt_kind :: kind
  wt_mapFunc :: "watched option \<Rightarrow> ('s, string list) op"
  wt_predicate :: predicate_Funcs

record 's controller_spec =
  ctr_name :: string
  ctr_forPredicate :: predicate_Funcs
  ctr_owns :: "kind list"
  ctr_watches :: "'s watch_spec list"

text \<open>\<open>generationChanged\<close> stands for \<open>predicate.GenerationChangedPredicate{}\<close>, which is library code.\<close>

definition workspaceController :: "'s WorkspaceReconciler \<Rightarrow> predicate_Funcs \<Rightarrow> 's controller_spec" where
  "workspaceController r generationChanged =
     \<lparr>ctr_name = ''workspace'', ctr_forPredicate = generationChanged,
      ctr_owns = [NamespaceK, ResourceQuotaK, LimitRangeK, SecretK, ServiceAccountK, RoleBindingK, NetworkPolicyK,
        HelmRepositoryK],
      ctr_watches =
        [\<lparr>wt_kind = ConfigMapK, wt_mapFunc = enqueueAllWorkspacesIf r IsOperatorConfig,
          wt_predicate = operatorConfigChangedPredicate\<rparr>,
         \<lparr>wt_kind = SecretK, wt_mapFunc = enqueueAllWorkspacesIf r IsOperatorSecret,
          wt_predicate = operatorSecretChangedPredicate\<rparr>]\<rparr>"

section \<open>Operator-wide inputs\<close>

text \<open>
  What one watched input promises: its matcher recognises the one object the operator reads, its filter passes
  an update exactly when that object's data changed, and what reconcile makes of the input (\<open>view\<close>) depends on
  that data alone.
\<close>

fun event_object :: "watch_event \<Rightarrow> watched option" where
  "event_object (CreateEvent ob) = ob"
| "event_object (DeleteEvent ob) = ob"
| "event_object (UpdateEvent old new) = new"
| "event_object (GenericEvent ob) = ob"

definition data_at :: "objref \<Rightarrow> (objref \<Rightarrow> Object option) \<Rightarrow> strmap option" where
  "data_at r \<sigma> = map_option (\<lambda>ob. dataOf (o_body ob)) (\<sigma> r)"

locale operator_input =
  fixes matches :: "ObjectMeta option \<Rightarrow> bool" and ref :: objref
    and filter_by :: predicate_Funcs and view :: "(objref \<Rightarrow> Object option) \<Rightarrow> 'v"
  assumes matches_ref: "objref_of ob = ref \<longleftrightarrow> body_kind (o_body ob) = fst ref \<and> matches (Some (o_meta ob))"
    and matches_nil: "\<not> matches None"
    and filters: "filter_by = operatorInputPredicate matches (asKind (fst ref)) dataChanged"
    and view_data: "data_at ref \<sigma> = data_at ref \<tau> \<Longrightarrow> view \<sigma> = view \<tau>"
begin

lemma admits_matching: "admits filter_by ev \<Longrightarrow> matches (map_option watched_meta (event_object ev))"
  by (cases ev) (auto simp: filters operatorInputPredicate_def split: if_splits)

text \<open>An update the filter drops makes no difference to reconcile.\<close>

lemma dropped_update:
  assumes "\<sigma> r = Some old" and "objref_of old = r" and "objref_of new = r"
    and "\<not> admits filter_by (UpdateEvent (Some (AnObject old)) (Some (AnObject new)))"
  shows "view (\<sigma>(r \<mapsto> new)) = view \<sigma>"
proof (rule view_data)
  show "data_at ref (\<sigma>(r \<mapsto> new)) = data_at ref \<sigma>"
  proof (cases "r = ref")
    case True
    with assms(2,3) matches_ref [of new] have "body_kind (o_body old) = fst ref"
      and "body_kind (o_body new) = fst ref" and "matches (Some (o_meta new))"
      by (auto simp: objref_of_def)
    with assms(4) have "\<not> dataChanged old new" by (simp add: filters operatorInputPredicate_def)
    with assms(1) True show ?thesis by (simp add: data_at_def dataChanged_def)
  qed (simp add: data_at_def)
qed

text \<open>A change of the data passes the filter.\<close>

lemma changed_update:
  assumes "objref_of old = ref" and "objref_of new = ref" and "dataOf (o_body old) \<noteq> dataOf (o_body new)"
  shows "admits filter_by (UpdateEvent (Some (AnObject old)) (Some (AnObject new)))"
  using assms matches_ref [of old] matches_ref [of new]
  by (simp add: filters operatorInputPredicate_def dataChanged_def)

end

lemma data_at_config: "config_of \<sigma> = (case data_at operatorConfigRef \<sigma> of None \<Rightarrow> fmempty | Some d \<Rightarrow> d)"
  by (simp add: config_of_def data_at_def split: option.splits)

interpretation config_input: operator_input IsOperatorConfig operatorConfigRef operatorConfigChangedPredicate config_of
  by unfold_locales
     (auto simp: IsOperatorConfig_def operatorConfigRef_def objref_of_def operatorConfigChangedPredicate_def data_at_config)

lemma data_at_credentials:
  "credentials_in \<sigma> creds \<longleftrightarrow>
     (\<exists>d. data_at operatorSecretRef \<sigma> = Some d \<and>
        creds = \<lparr>hcr_URL = mapGet d HarborURLKey, hcr_RobotName = mapGet d HarborRobotNameKey,
                 hcr_RobotSecret = mapGet d HarborRobotSecretKey\<rparr>) \<and>
     hcr_URL creds \<noteq> [] \<and> hcr_RobotName creds \<noteq> [] \<and> hcr_RobotSecret creds \<noteq> []"
  by (auto simp: credentials_in_def data_at_def)

interpretation secret_input: operator_input IsOperatorSecret operatorSecretRef operatorSecretChangedPredicate credentials_in
  by unfold_locales
     (auto simp: IsOperatorSecret_def operatorSecretRef_def objref_of_def operatorSecretChangedPredicate_def
        data_at_credentials fun_eq_iff)

section \<open>From events to requests\<close>

fun event_objects :: "watch_event \<Rightarrow> watched option list" where
  "event_objects (UpdateEvent old new) = [old, new]"
| "event_objects ev = [event_object ev]"

text \<open>
  What controller-runtime promises: \<open>enqueued ctr ev s\<close> are the names enqueued when \<open>ev\<close> arrives, \<open>live\<close> the
  workspaces of the cluster. \<open>For\<close> enqueues the object when its predicate passes; \<open>Owns\<close> enqueues the controlling
  owner of an object of that kind, before and after an update; \<open>Watches\<close> enqueues what the map function returns
  when its predicate passes; and nothing else is enqueued.
\<close>

locale watch_dispatch =
  fixes enqueued :: "'s controller_spec \<Rightarrow> watch_event \<Rightarrow> 's st \<Rightarrow> string set" and live :: "'s \<Rightarrow> Workspace list"
  assumes for_update: "enqueued ctr (UpdateEvent (Some (AWorkspace old)) (Some (AWorkspace new))) s =
      (if UpdateFunc (ctr_forPredicate ctr) (Some (AWorkspace old)) (Some (AWorkspace new)) then {ws_name new} else {})"
    and owner: "Some (AnObject ob) \<in> set (event_objects ev) \<Longrightarrow> event_object ev = Some (AnObject ob') \<Longrightarrow>
      body_kind (o_body ob') \<in> set (ctr_owns ctr) \<Longrightarrow> w \<in> set (live (world s)) \<Longrightarrow> owned_by (ws_uid w) ob \<Longrightarrow>
      ws_name w \<in> enqueued ctr ev s"
    and watch: "event_object ev = Some (AnObject ob) \<Longrightarrow> wt \<in> set (ctr_watches ctr) \<Longrightarrow>
      wt_kind wt = body_kind (o_body ob) \<Longrightarrow> admits (wt_predicate wt) ev \<Longrightarrow>
      set (fst (wt_mapFunc wt (Some (AnObject ob)) s)) \<subseteq> enqueued ctr ev s"
    and stray: "event_object ev = Some (AnObject ob) \<Longrightarrow>
      (\<And>ob'. Some (AnObject ob') \<in> set (event_objects ev) \<Longrightarrow> om_owners (o_meta ob') = []) \<Longrightarrow>
      (\<And>wt. wt \<in> set (ctr_watches ctr) \<Longrightarrow> wt_kind wt = body_kind (o_body ob) \<Longrightarrow> \<not> admits (wt_predicate wt) ev) \<Longrightarrow>
      enqueued ctr ev s = {}"

text \<open>A reference dispatcher over the in-memory cluster.\<close>

definition owners_among :: "Workspace list \<Rightarrow> watch_event \<Rightarrow> string list" where
  "owners_among ws ev = map ws_name (filter (\<lambda>w.
     list_ex (\<lambda>x. case x of Some (AnObject ob) \<Rightarrow> owned_by (ws_uid w) ob | _ \<Rightarrow> False) (event_objects ev)) ws)"

definition mem_enqueued :: "mem controller_spec \<Rightarrow> watch_event \<Rightarrow> mem st \<Rightarrow> string set" where
  "mem_enqueued ctr ev s = set (case event_object ev of
       None \<Rightarrow> []
     | Some (AWorkspace w) \<Rightarrow> if admits (ctr_forPredicate ctr) ev then [ws_name w] else []
     | Some (AnObject ob) \<Rightarrow>
         (if body_kind (o_body ob) \<in> set (ctr_owns ctr) then owners_among (mem_workspaces (world s)) ev else []) @
         concat (map (\<lambda>wt. if wt_kind wt = body_kind (o_body ob) \<and> admits (wt_predicate wt) ev
                           then fst (wt_mapFunc wt (Some (AnObject ob)) s) else []) (ctr_watches ctr)))"

lemma unowned: "om_owners (o_meta ob) = [] \<Longrightarrow> \<not> owned_by uid ob"
  by (simp add: owned_by_def)

interpretation mem_dispatch: watch_dispatch mem_enqueued mem_workspaces
proof
  fix ctr :: "mem controller_spec" and ev ob and s :: "mem st"
  assume e: "event_object ev = Some (AnObject ob)"
    and o: "\<And>ob'. Some (AnObject ob') \<in> set (event_objects ev) \<Longrightarrow> om_owners (o_meta ob') = []"
    and "\<And>wt. wt \<in> set (ctr_watches ctr) \<Longrightarrow> wt_kind wt = body_kind (o_body ob) \<Longrightarrow> \<not> admits (wt_predicate wt) ev"
  moreover have "owners_among (mem_workspaces (world s)) ev = []"
    using o by (auto simp: owners_among_def filter_empty_conv list_ex_iff dest!: unowned split: option.splits watched.splits)
  ultimately show "mem_enqueued ctr ev s = {}" by (auto simp: mem_enqueued_def)
qed (auto simp: mem_enqueued_def owners_among_def list_ex_iff intro!: image_eqI split: option.splits watched.splits)

text \<open>For witnesses: the documented predicate, a reconciler without a network, an operator ConfigMap.\<close>

definition generation_changed :: predicate_Funcs where
  "generation_changed = \<lparr>CreateFunc = \<lambda>_. True, DeleteFunc = \<lambda>_. True,
     UpdateFunc = \<lambda>old new. case (old, new) of
         (Some a, Some b) \<Rightarrow> om_generation (watched_meta a) \<noteq> om_generation (watched_meta b) | _ \<Rightarrow> False,
     GenericFunc = \<lambda>_. True\<rparr>"

definition offline_reconciler :: "mem WorkspaceReconciler" where
  "offline_reconciler = \<lparr>r_Client = mem_client, r_Version = ''v1'', r_NewHarborClient = None,
     r_Transport = \<lparr>tr_Do = \<lambda>_ w. (Inl ''offline'', w), tr_MapOrder = \<lambda>_ ks. ks\<rparr>\<rparr>"

definition rancher_config :: Object where
  "rancher_config = \<lparr>o_meta = (zero_meta OperatorNamespace OperatorConfigName)\<lparr>om_creationTimestamp := 4\<rparr>,
     o_body = ConfigMapB (fmap_of_list [(RancherProjectIDKey, ''c-1:p-2'')])\<rparr>"

section \<open>Properties\<close>

lemma changed_input_admitted:
  assumes "ref \<in> {operatorConfigRef, operatorSecretRef}" and "objref_of old = ref" and "objref_of new = ref"
    and "dataOf (o_body old) \<noteq> dataOf (o_body new)"
  obtains wt where "wt \<in> set (ctr_watches (workspaceController r g))" and "wt_kind wt = body_kind (o_body new)"
    and "admits (wt_predicate wt) (UpdateEvent (Some (AnObject old)) (Some (AnObject new)))"
    and "wt_mapFunc wt (Some (AnObject new)) = allWorkspaceRequests r"
proof (cases "ref = operatorConfigRef")
  case True
  with assms show ?thesis
    using config_input.changed_update [of old new] config_input.matches_ref [of new]
    by (intro that [of "ctr_watches (workspaceController r g) ! 0"])
       (auto simp: workspaceController_def enqueueAllWorkspacesIf_def operatorConfigRef_def)
next
  case False
  with assms show ?thesis
    using secret_input.changed_update [of old new] secret_input.matches_ref [of new]
    by (intro that [of "ctr_watches (workspaceController r g) ! 1"])
       (auto simp: workspaceController_def enqueueAllWorkspacesIf_def operatorSecretRef_def)
qed

lemma unchanged_input_dropped:
  assumes "dataOf (o_body old) = dataOf (o_body new)" and "wt \<in> set (ctr_watches (workspaceController r g))"
  shows "\<not> admits (wt_predicate wt) (UpdateEvent (Some (AnObject old)) (Some (AnObject new)))"
  using assms
  by (auto simp: workspaceController_def operatorConfigChangedPredicate_def operatorSecretChangedPredicate_def
      operatorInputPredicate_def dataChanged_def split: if_splits)

lemma allWorkspaceRequests_listed:
  "client_ListWorkspaces (r_Client r) (world s) = (Inr items, v) \<Longrightarrow> fst (allWorkspaceRequests r s) = map ws_name items"
  by (simp add: allWorkspaceRequests_def onResult_def kListWorkspaces_def apiCall_def request_def)

text \<open>
  C24: a change of an operator-wide input reaches every workspace, and nothing less does. When the data of the
  operator's ConfigMap or Secret changes, every listed workspace is enqueued; an update of any unowned ConfigMap
  or Secret that leaves its data alone (new labels, a resync) enqueues nobody.
\<close>

theorem operator_inputs_fan_out:
  assumes "watch_dispatch enqueued live"
    and "client_ListWorkspaces (r_Client r) (world s) = (Inr items, v)"
  shows "(\<forall>old new. objref_of old \<in> {operatorConfigRef, operatorSecretRef} \<longrightarrow> objref_of new = objref_of old \<longrightarrow>
            dataOf (o_body old) \<noteq> dataOf (o_body new) \<longrightarrow>
            ws_name ` set items \<subseteq> enqueued (workspaceController r g) (UpdateEvent (Some (AnObject old)) (Some (AnObject new))) s) \<and>
         (\<forall>old new. om_owners (o_meta old) = [] \<longrightarrow> om_owners (o_meta new) = [] \<longrightarrow>
            dataOf (o_body old) = dataOf (o_body new) \<longrightarrow>
            enqueued (workspaceController r g) (UpdateEvent (Some (AnObject old)) (Some (AnObject new))) s = {})"
proof (intro conjI allI impI)
  fix old new :: Object
  assume d: "dataOf (o_body old) \<noteq> dataOf (o_body new)" and o: "objref_of old \<in> {operatorConfigRef, operatorSecretRef}"
    and n: "objref_of new = objref_of old"
  obtain wt where w: "wt \<in> set (ctr_watches (workspaceController r g))" "wt_kind wt = body_kind (o_body new)"
      "admits (wt_predicate wt) (UpdateEvent (Some (AnObject old)) (Some (AnObject new)))"
    and m: "wt_mapFunc wt (Some (AnObject new)) = allWorkspaceRequests r"
    by (rule changed_input_admitted [OF o refl n d])
  have "event_object (UpdateEvent (Some (AnObject old)) (Some (AnObject new))) = Some (AnObject new)" by simp
  from watch_dispatch.watch [OF assms(1) this w, of s] m allWorkspaceRequests_listed [OF assms(2)]
  show "ws_name ` set items \<subseteq> enqueued (workspaceController r g) (UpdateEvent (Some (AnObject old)) (Some (AnObject new))) s"
    by simp
next
  fix old new :: Object
  assume "om_owners (o_meta old) = []" "om_owners (o_meta new) = []" "dataOf (o_body old) = dataOf (o_body new)"
  then show "enqueued (workspaceController r g) (UpdateEvent (Some (AnObject old)) (Some (AnObject new))) s = {}"
    by (intro watch_dispatch.stray [OF assms(1), of _ new]) (auto dest: unchanged_input_dropped)
qed

theorem operator_inputs_fan_out_witness:
  "ws_name ` set [sample_ws] \<subseteq> mem_enqueued (workspaceController offline_reconciler generation_changed)
     (UpdateEvent (Some (AnObject (newObject operatorSecretRef)))
       (Some (AnObject ((newObject operatorSecretRef)\<lparr>o_body := SecretB SecretTypeOpaque (fmap_of_list [(HarborURLKey, ''https://h'')])\<rparr>))))
     (start [])"
proof -
  have "client_ListWorkspaces mem_client (world (start [])) = (Inr [sample_ws], mem_world [])"
    by (simp add: mem_client_def)
  then have "client_ListWorkspaces (r_Client offline_reconciler) (world (start [])) = (Inr [sample_ws], mem_world [])"
    by (simp add: offline_reconciler_def)
  from operator_inputs_fan_out [OF mem_dispatch.watch_dispatch_axioms this, of generation_changed]
  show ?thesis by (auto simp: objref_of_def operatorSecretRef_def newObject_def zero_meta_def)
qed

text \<open>
  C32: an update that both filters drop cannot change a reconcile's inputs. Whatever object was updated, reading
  the operator's configuration or its Harbor credentials afterwards gives what it gave before, so no run is
  missed by not being woken.
\<close>

theorem dropped_updates_are_irrelevant:
  assumes "kube_api c store" and "store (world s) r = Some old" and "objref_of old = r" and "objref_of new = r"
    and "\<not> admits operatorConfigChangedPredicate (UpdateEvent (Some (AnObject old)) (Some (AnObject new)))"
    and "\<not> admits operatorSecretChangedPredicate (UpdateEvent (Some (AnObject old)) (Some (AnObject new)))"
    and "store (world t) = (store (world s))(r \<mapsto> new)"
  shows "(operatorConfigData c s = (Inr d, s1) \<longrightarrow> operatorConfigData c t = (Inr d', t1) \<longrightarrow> d' = d) \<and>
         (OperatorHarborCredentials c s = (Inr creds, s2) \<longrightarrow> OperatorHarborCredentials c t = (Inr creds', t2) \<longrightarrow> creds' = creds)"
proof (intro conjI impI)
  note C = kube_api.hoare_operatorConfigData [OF assms(1)]
  assume "operatorConfigData c s = (Inr d, s1)" "operatorConfigData c t = (Inr d', t1)"
  then have "d = config_of (store (world s))" "d' = config_of (store (world t))"
    using hoareD [OF C refl] by blast+
  then show "d' = d"
    using config_input.dropped_update [of "store (world s)", OF assms(2-5)] assms(7) by simp
next
  note H = kube_api.hoare_OperatorHarborCredentials [OF assms(1)]
  assume "OperatorHarborCredentials c s = (Inr creds, s2)" "OperatorHarborCredentials c t = (Inr creds', t2)"
  then have "credentials_in (store (world s)) creds" "credentials_in (store (world t)) creds'"
    using hoareD [OF H refl] by blast+
  then show "creds' = creds"
    using secret_input.dropped_update [of "store (world s)", OF assms(2-4,6)] assms(7) by (auto simp: credentials_in_def)
qed

theorem dropped_updates_are_irrelevant_witness:
  "\<exists>d d' s1 t1. operatorConfigData mem_client (start [(operatorConfigRef, rancher_config)]) = (Inr d, s1) \<and>
     operatorConfigData mem_client (start [(operatorConfigRef, set_labels (fmap_of_list [(''team'', ''infra'')]) rancher_config)]) = (Inr d', t1) \<and>
     d' = d"
proof -
  let ?new = "set_labels (fmap_of_list [(''team'', ''infra'')]) rancher_config"
  let ?s = "start [(operatorConfigRef, rancher_config)]" and ?t = "start [(operatorConfigRef, ?new)]"
  have p: "mem_persist 0 rancher_config = rancher_config" "mem_persist 0 (set_labels l rancher_config) = set_labels l rancher_config" for l
    by (simp_all add: mem_persist_def rancher_config_def)
  have o: "objref_of rancher_config = operatorConfigRef" "objref_of ?new = operatorConfigRef"
    by (simp_all add: objref_of_def rancher_config_def operatorConfigRef_def zero_meta_def)
  have "\<not> isl (fst (operatorConfigData mem_client ?s))" "\<not> isl (fst (operatorConfigData mem_client ?t))" by code_simp+
  then obtain d s1 d' t1 where r: "operatorConfigData mem_client ?s = (Inr d, s1)" "operatorConfigData mem_client ?t = (Inr d', t1)"
    by (metis run_okE)
  have "mem_lookup (world ?s) operatorConfigRef = Some rancher_config"
    and "mem_lookup (world ?t) = (mem_lookup (world ?s))(operatorConfigRef \<mapsto> ?new)"
    by (auto simp: p fun_eq_iff)
  from dropped_updates_are_irrelevant [OF mem_server.kube_api_axioms this(1) o _ _ this(2)] r
  have "d' = d"
    by (simp add: operatorConfigChangedPredicate_def operatorSecretChangedPredicate_def operatorInputPredicate_def
        dataChanged_def rancher_config_def)
  with r show ?thesis by blast
qed

text \<open>The objects a ready tenant has under the workspace's control.\<close>

definition managed_refs :: "Workspace \<Rightarrow> objref list" where
  "managed_refs w = namespaceRef (ws_namespace w) # map (roleBindingRef w) AllMemberRoles @
     [serviceAccountRef w, serviceAccountBindingRef w, resourceQuotaRef w, limitRangeRef w, networkPolicyRef w] @
     map (helmRef w) (helmSources w)"

lemma tenant_ready_owned:
  assumes "tenant_ready w version \<sigma>" and "r \<in> set (managed_refs w)" and "\<sigma> r = Some ob"
  shows "owned_by (ws_uid w) ob"
proof -
  have "owned_by (ws_uid w) ob" if "optional_ok w version r want \<sigma>" for want
    using that assms(3) by (auto simp: optional_ok_def managed_def split: option.splits)
  moreover have "owned_by (ws_uid w) ob" if "role \<in> set AllMemberRoles" "r = roleBindingRef w role" for role
    using that assms(1,3) by (auto simp: tenant_ready_def bindings_ok_def list_all_iff binding_ok_def managed_def split: if_splits)
  moreover have "owned_by (ws_uid w) ob" if "src \<in> set (helmSources w)" "r = helmRef w src" for src
    using that assms(1,3) by (auto simp: tenant_ready_def helm_ok_def list_all_iff source_ok_def managed_def)
  ultimately show ?thesis
    using assms
    by (auto simp: managed_refs_def tenant_ready_def namespace_ok_def namespace_ready_def deployer_ok_def managed_def)
qed

lemma managed_kinds: "r \<in> set (managed_refs w) \<Longrightarrow> fst r \<in> set (ctr_owns (workspaceController R g))"
  by (auto simp: managed_refs_def workspaceController_def ref_defs)



end
