(* ===== verification/Authorization.thy ===== *)
theory Authorization
  imports Samples Go_Text
begin

text \<open>
  \<open>src/internal/workspace/authorization.go\<close>: who may create, change or delete a workspace, and the checks
  on a new workspace's name and namespace.
\<close>

section \<open>Definitions\<close>

definition privilegedGroups :: "string list" where
  "privilegedGroups = [''system:masters'', ''kubeadm:cluster-admins'']"

fun anyPrivileged :: "string list \<Rightarrow> bool" where
  "anyPrivileged [] = False"
| "anyPrivileged (g # gs) = (if List.member privilegedGroups g then True else anyPrivileged gs)"

definition inPrivilegedGroup :: "UserInfo \<Rightarrow> bool" where
  "inPrivilegedGroup userInfo = anyPrivileged (ui_groups userInfo)"

fun adminAmong :: "string \<Rightarrow> WorkspaceMember list \<Rightarrow> bool" where
  "adminAmong username [] = False"
| "adminAmong username (m # ms) =
     (if m_subject m = username \<and> m_role m = MemberRoleAdmin then True else adminAmong username ms)"

definition isWorkspaceAdmin :: "string \<Rightarrow> Workspace \<Rightarrow> bool" where
  "isWorkspaceAdmin username workspace = adminAmong username (ws_members workspace)"

definition clusterWideReview :: "UserInfo \<Rightarrow> SubjectAccessReviewSpec" where
  "clusterWideReview userInfo = \<lparr>sar_user = ui_username userInfo, sar_groups = ui_groups userInfo,
     sar_uid = ui_uid userInfo, sar_extra = ui_extra userInfo,
     sar_verb = ''*'', sar_group = ''*'', sar_resource = ''*''\<rparr>"

definition hasClusterWideAccess :: "'s client \<Rightarrow> UserInfo \<Rightarrow> ('s, bool) io" where
  "hasClusterWideAccess c userInfo = kCreateReview c (clusterWideReview userInfo)"

definition AuthorizeCreation :: "'s client \<Rightarrow> UserInfo \<Rightarrow> Workspace \<Rightarrow> ('s, unit) io" where
  "AuthorizeCreation c userInfo ws =
     (if inPrivilegedGroup userInfo then ret ()
      else if isWorkspaceAdmin (ui_username userInfo) ws then ret ()
      else andThen (wrapErr ''failed to check cluster-wide access: %w'' [] (hasClusterWideAccess c userInfo)) (\<lambda>ok.
        if ok then ret ()
        else fail (Errorf ''workspace creator must be listed as a member with the 'admin' role'' [])))"

definition AuthorizeModification :: "'s client \<Rightarrow> UserInfo \<Rightarrow> Workspace \<Rightarrow> ('s, unit) io" where
  "AuthorizeModification c userInfo workspace =
     (if inPrivilegedGroup userInfo then ret ()
      else if isWorkspaceAdmin (ui_username userInfo) workspace then ret ()
      else andThen (wrapErr ''failed to check cluster-wide access: %w'' [] (hasClusterWideAccess c userInfo)) (\<lambda>ok.
        if ok then ret ()
        else fail (Errorf ''only users with the 'admin' role defined in this workspace can modify or delete it'' [])))"

fun claimedBy :: "Workspace list \<Rightarrow> Workspace \<Rightarrow> Workspace option" where
  "claimedBy [] ws = None"
| "claimedBy (existing # items) ws =
     (if ws_name existing \<noteq> ws_name ws \<and> ws_namespace existing = ws_namespace ws then Some existing
      else claimedBy items ws)"

definition ValidateNamespaceUniqueness :: "'s client \<Rightarrow> Workspace \<Rightarrow> ('s, unit) io" where
  "ValidateNamespaceUniqueness reader ws =
     andThen (wrapErr ''failed to list workspaces for namespace uniqueness check: %w'' [] (kListWorkspaces reader)) (\<lambda>items.
       case claimedBy items ws of
         Some existing \<Rightarrow> fail (Errorf ''namespace %q is already used by workspace %q'' [ws_namespace ws, ws_name existing])
       | None \<Rightarrow> ret ())"

text \<open>\<open>content.LabelValueMaxLength\<close> belongs to apimachinery and is the parameter \<open>labelValueMaxLength\<close>.\<close>

definition ValidateWorkspaceName :: "nat \<Rightarrow> string \<Rightarrow> ('s, unit) io" where
  "ValidateWorkspaceName labelValueMaxLength name =
     (if length name > labelValueMaxLength
      then fail (Errorf ''workspace metadata.name must be no more than %d bytes'' [utoa labelValueMaxLength])
      else ret ())"

section \<open>Lemmas\<close>

lemma inPrivilegedGroup_iff: "inPrivilegedGroup u \<longleftrightarrow> set (ui_groups u) \<inter> set privilegedGroups \<noteq> {}"
proof -
  have "anyPrivileged gs \<longleftrightarrow> set gs \<inter> set privilegedGroups \<noteq> {}" for gs by (induction gs) auto
  then show ?thesis by (simp add: inPrivilegedGroup_def)
qed

lemma isWorkspaceAdmin_iff:
  "isWorkspaceAdmin n w \<longleftrightarrow> (\<exists>m \<in> set (ws_members w). m_subject m = n \<and> m_role m = MemberRoleAdmin)"
proof -
  have "adminAmong n ms \<longleftrightarrow> (\<exists>m \<in> set ms. m_subject m = n \<and> m_role m = MemberRoleAdmin)" for ms
    by (induction ms) auto
  then show ?thesis by (simp add: isWorkspaceAdmin_def)
qed

lemma claimedBy_None:
  "claimedBy items ws = None \<longleftrightarrow> (\<forall>e \<in> set items. ws_name e \<noteq> ws_name ws \<longrightarrow> ws_namespace e \<noteq> ws_namespace ws)"
  by (induction items) auto

lemma claimedBy_Some:
  "claimedBy items ws = Some e \<Longrightarrow> e \<in> set items \<and> ws_name e \<noteq> ws_name ws \<and> ws_namespace e = ws_namespace ws"
  by (induction items) (auto split: if_splits)

text \<open>The callers that need no answer from the cluster authorizer.\<close>

definition locally_entitled :: "UserInfo \<Rightarrow> Workspace \<Rightarrow> bool" where
  "locally_entitled u w \<longleftrightarrow> inPrivilegedGroup u \<or> isWorkspaceAdmin (ui_username u) w"

text \<open>The answer of the cluster authorizer to the all-access question about a user.\<close>

definition review :: "'s client \<Rightarrow> UserInfo \<Rightarrow> 's \<Rightarrow> api_error + bool" where
  "review c u s = fst (client_CreateReview c (clusterWideReview u) s)"

section \<open>The contract of an authorization decision\<close>

text \<open>
  Both decisions promise the same: a caller in a privileged group or listed as admin passes without any
  request; everybody else passes exactly when the cluster authorizer grants every verb on every resource;
  and the only request ever made is that one review.
\<close>

locale authorization =
  fixes authorize :: "'s client \<Rightarrow> UserInfo \<Rightarrow> Workspace \<Rightarrow> ('s, unit) io"
  assumes local_pass: "locally_entitled u w \<Longrightarrow> authorize c u w = ret ()"
    and asks: "\<not> locally_entitled u w \<Longrightarrow> fst (authorize c u w s) = Inr () \<longleftrightarrow> review c u (world s) = Inr True"
    and requests: "emits (\<lambda>ev. ev = EvCreateReview (ui_username u)) (authorize c u w)"
begin

lemma passes_iff:
  "fst (authorize c u w s) = Inr () \<longleftrightarrow> locally_entitled u w \<or> review c u (world s) = Inr True"
  using local_pass [of u w c] asks [of u w c s] by (cases "locally_entitled u w") (auto simp: ret_def)

lemma denied: "\<not> locally_entitled u w \<Longrightarrow> review c u (world s) \<noteq> Inr True \<Longrightarrow> \<exists>e. fst (authorize c u w s) = Inl e"
  using passes_iff [of c u w s] by (cases "fst (authorize c u w s)") auto

text \<open>Only the roles in the given workspace matter.\<close>

lemma members_only:
  assumes "\<And>n. isWorkspaceAdmin n w = isWorkspaceAdmin n w'"
  shows "fst (authorize c u w s) = Inr () \<longleftrightarrow> fst (authorize c u w' s) = Inr ()"
  unfolding passes_iff locally_entitled_def assms by (rule refl)

end

lemma review_step:
  "hasClusterWideAccess c u s = (case client_CreateReview c (clusterWideReview u) (world s) of
     (Inl a, w) \<Rightarrow> (Inl (APIError a), s\<lparr>world := w, trace := trace s @ [EvCreateReview (ui_username u)]\<rparr>)
   | (Inr b, w) \<Rightarrow> (Inr b, s\<lparr>world := w, trace := trace s @ [EvCreateReview (ui_username u)]\<rparr>))"
  by (simp add: hasClusterWideAccess_def kCreateReview_def apiCall_def request_def clusterWideReview_def
      split: prod.splits sum.splits)

lemmas authorize_defs = AuthorizeCreation_def AuthorizeModification_def locally_entitled_def review_def
  review_step effect_defs

interpretation creation: authorization AuthorizeCreation
proof
  show "emits (\<lambda>ev. ev = EvCreateReview (ui_username u)) (AuthorizeCreation c u w)" for c :: "'a client" and u w
    unfolding AuthorizeCreation_def hasClusterWideAccess_def
    by (intro emits_rules) (simp add: clusterWideReview_def)
qed (auto simp: authorize_defs split: prod.splits sum.splits)

interpretation modification: authorization AuthorizeModification
proof
  show "emits (\<lambda>ev. ev = EvCreateReview (ui_username u)) (AuthorizeModification c u w)" for c :: "'a client" and u w
    unfolding AuthorizeModification_def hasClusterWideAccess_def
    by (intro emits_rules) (simp add: clusterWideReview_def)
qed (auto simp: authorize_defs split: prod.splits sum.splits)

lemma hoare_free_uniqueness:
  assumes "ValidateNamespaceUniqueness reader ws s = (Inr (), s')"
  obtains items where "client_ListWorkspaces reader (world s) = (Inr items, world s')"
    and "\<forall>e \<in> set items. ws_name e \<noteq> ws_name ws \<longrightarrow> ws_namespace e \<noteq> ws_namespace ws"
proof (cases "client_ListWorkspaces reader (world s)")
  case (Pair r w)
  with assms that show ?thesis
    by (cases r)
       (auto simp: ValidateNamespaceUniqueness_def kListWorkspaces_def apiCall_def effect_defs claimedBy_None
         split: option.splits)
qed

end
