(* ===== verification/Webhook.thy ===== *)
theory Webhook
  imports Namespaces Authorization "HOL-Library.Word"
begin

text \<open>
  \<open>src/internal/webhook/v1alpha1/workspace_webhook.go\<close>: the mutating webhook (\<open>Default\<close>) and the validating
  webhook (\<open>ValidateCreate\<close>, \<open>ValidateUpdate\<close>, \<open>ValidateDelete\<close>). Randomness is a parameter: the byte
  \<open>crypto/rand\<close> delivers and the text apimachinery's \<open>utilrand.String\<close> returns.
\<close>

section \<open>The defaulter\<close>

text \<open>\<open>rnd_Byte\<close> fails with the text of the error \<open>rand.Read\<close> reports.\<close>

record 's random =
  rnd_Byte :: "'s \<Rightarrow> (string + 8 word) \<times> 's"
  rnd_String :: "nat \<Rightarrow> 's \<Rightarrow> string \<times> 's"

definition labelTrue :: string where [go_consts]: "labelTrue = ''true''"

definition randomPrefix :: "8 word \<Rightarrow> string" where
  "randomPrefix b = [char_of (unat ((97 :: 8 word) + b mod 26))]"

text \<open>A panic ends the call like an error; its text is marked as one.\<close>

definition generateNamespaceName :: "'s random \<Rightarrow> ('s, string) io" where
  "generateNamespaceName rnd =
     onResult (\<lambda>s. case request EvRandom (rnd_Byte rnd) s of (Inl m, s') \<Rightarrow> (Inl (StdError m), s') | (Inr b, s') \<Rightarrow> (Inr b, s'))
       (\<lambda>err. fail (Wrapf ''panic: crypto/rand is unavailable: %w'' [] err))
       (\<lambda>b. \<lambda>s. case request EvRandom (rnd_String rnd 5) s of (str, s') \<Rightarrow> (Inr (randomPrefix b @ str), s'))"

definition namespaceNameAttempts :: nat where "namespaceNameAttempts = 5"

fun tryNames :: "'s client \<Rightarrow> 's random \<Rightarrow> nat \<Rightarrow> ('s, string) io" where
  "tryNames reader rnd 0 =
     fail (Errorf ''could not generate an unused namespace name in %d attempts'' [utoa namespaceNameAttempts])"
| "tryNames reader rnd (Suc n) =
     andThen (generateNamespaceName rnd) (\<lambda>name.
       onResult (kGet reader (namespaceRef name))
         (\<lambda>err. if IsNotFound err then ret name
                else fail (Wrapf ''checking generated namespace name %q: %w'' [name] err))
         (\<lambda>_. tryNames reader rnd n))"

definition generateAvailableNamespaceName :: "'s client \<Rightarrow> 's random \<Rightarrow> ('s, string) io" where
  "generateAvailableNamespaceName reader rnd = tryNames reader rnd namespaceNameAttempts"

text \<open>The keys of \<open>desired\<close>, one per member.\<close>

definition desiredLabels :: "WorkspaceMember list \<Rightarrow> string list" where
  "desiredLabels ms = map (\<lambda>m. UserLabelPrefix @ m_subject m) ms"

abbreviation with_labels :: "strmap \<Rightarrow> Workspace \<Rightarrow> Workspace" where
  "with_labels l ws \<equiv> ws\<lparr>ws_meta := (ws_meta ws)\<lparr>om_labels := l\<rparr>\<rparr>"

definition defaultMemberLabels :: "Workspace \<Rightarrow> Workspace" where
  "defaultMemberLabels ws =
     (let labels = ws_labels ws;
          desired = desiredLabels (ws_members ws);
          kept = fmfilter (\<lambda>k. \<not> (HasPrefix k UserLabelPrefix \<and> k \<notin> set desired)) labels
      in with_labels (foldl (\<lambda>l k. fmupd k labelTrue l) kept desired) ws)"

definition defaultNamespaceLabel :: "Workspace \<Rightarrow> Workspace" where
  "defaultNamespaceLabel ws = with_labels (fmupd LabelWorkspaceNamespace (ws_namespace ws) (ws_labels ws)) ws"

definition setNamespace :: "string \<Rightarrow> Workspace \<Rightarrow> Workspace" where
  "setNamespace name ws = ws\<lparr>ws_spec := (ws_spec ws)\<lparr>spec_namespace := name\<rparr>\<rparr>"

definition Default :: "'s client \<Rightarrow> 's random \<Rightarrow> Workspace \<Rightarrow> ('s, Workspace) io" where
  "Default reader rnd ws =
     andThen
       (if ws_namespace ws = []
        then andThen (generateAvailableNamespaceName reader rnd) (\<lambda>name. ret (setNamespace name ws))
        else ret ws)
       (\<lambda>ws. ret (defaultNamespaceLabel (defaultMemberLabels ws)))"

section \<open>The validator\<close>

text \<open>The admission request in the context, \<open>None\<close> when there is none.\<close>

definition RequestFromContext :: "UserInfo option \<Rightarrow> ('s, UserInfo) io" where
  "RequestFromContext ctx = (case ctx of
       None \<Rightarrow> fail (Wrapf ''unable to retrieve admission request from context: %w'' []
                       (StdError ''admission.Request not found in context''))
     | Some userInfo \<Rightarrow> ret userInfo)"

definition ValidateCreate ::
    "'s client \<Rightarrow> 's client \<Rightarrow> nat \<Rightarrow> UserInfo option \<Rightarrow> Workspace \<Rightarrow> ('s, unit) io" where
  "ValidateCreate reader c labelValueMaxLength ctx ws =
     andThen (RequestFromContext ctx) (\<lambda>userInfo.
     andThen (ValidateWorkspaceName labelValueMaxLength (ws_name ws)) (\<lambda>_.
     andThen (ValidateNamespaceUniqueness reader ws) (\<lambda>_.
     andThen (ValidateNamespaceAvailable reader ws) (\<lambda>_.
     AuthorizeCreation c userInfo ws))))"

definition ValidateUpdate ::
    "'s client \<Rightarrow> UserInfo option \<Rightarrow> Workspace \<Rightarrow> Workspace \<Rightarrow> ('s, unit) io" where
  "ValidateUpdate c ctx oldWorkspace newWorkspace =
     andThen (RequestFromContext ctx) (\<lambda>userInfo. AuthorizeModification c userInfo oldWorkspace)"

definition ValidateDelete :: "'s client \<Rightarrow> UserInfo option \<Rightarrow> Workspace \<Rightarrow> ('s, unit) io" where
  "ValidateDelete c ctx ws =
     andThen (RequestFromContext ctx) (\<lambda>userInfo. AuthorizeModification c userInfo ws)"

section \<open>Labels\<close>

lemma foldl_fmupd_lookup:
  "fmlookup (foldl (\<lambda>l k. fmupd k v l) m ks) k = (if k \<in> set ks then Some v else fmlookup m k)"
  by (induction ks arbitrary: m) auto

lemma desiredLabels_iff:
  "UserLabelPrefix @ u \<in> set (desiredLabels ms) \<longleftrightarrow> (\<exists>m \<in> set ms. m_subject m = u)"
  by (auto simp: desiredLabels_def)

lemma desiredLabels_prefix: "k \<in> set (desiredLabels ms) \<Longrightarrow> HasPrefix k UserLabelPrefix"
  by (auto simp: desiredLabels_def HasPrefix_iff)

lemma defaultMemberLabels_lookup:
  "fmlookup (ws_labels (defaultMemberLabels ws)) k =
     (if k \<in> set (desiredLabels (ws_members ws)) then Some ''true''
      else if HasPrefix k UserLabelPrefix then None else fmlookup (ws_labels ws) k)"
  by (simp add: defaultMemberLabels_def Let_def foldl_fmupd_lookup labelTrue_def)

lemma namespace_label_no_user: "\<not> HasPrefix LabelWorkspaceNamespace UserLabelPrefix"
  by (simp add: go_consts)

lemma defaults_spec [simp]:
  "ws_spec (defaultMemberLabels ws) = ws_spec ws" "ws_spec (defaultNamespaceLabel ws) = ws_spec ws"
  "ws_status (defaultMemberLabels ws) = ws_status ws" "ws_status (defaultNamespaceLabel ws) = ws_status ws"
  by (simp_all add: defaultMemberLabels_def defaultNamespaceLabel_def Let_def)

lemma setNamespace_simps [simp]:
  "ws_namespace (setNamespace n ws) = n" "ws_members (setNamespace n ws) = ws_members ws"
  "ws_meta (setNamespace n ws) = ws_meta ws"
  by (simp_all add: setNamespace_def)

text \<open>
  What the mutating webhook guarantees of a workspace \<open>ws'\<close> it lets through, given \<open>ws\<close>: members and user labels
  correspond, the namespace label is the namespace, other labels are kept.
\<close>

definition labels_mirror :: "Workspace \<Rightarrow> Workspace \<Rightarrow> bool" where
  "labels_mirror ws ws' \<longleftrightarrow>
     ws_members ws' = ws_members ws \<and>
     (\<forall>u. fmlookup (ws_labels ws') (UserLabelPrefix @ u) =
        (if \<exists>m \<in> set (ws_members ws'). m_subject m = u then Some ''true'' else None)) \<and>
     fmlookup (ws_labels ws') LabelWorkspaceNamespace = Some (ws_namespace ws') \<and>
     (\<forall>k. \<not> HasPrefix k UserLabelPrefix \<longrightarrow> k \<noteq> LabelWorkspaceNamespace \<longrightarrow>
        fmlookup (ws_labels ws') k = fmlookup (ws_labels ws) k)"

lemma labels_mirror_defaults: "labels_mirror ws (defaultNamespaceLabel (defaultMemberLabels ws))"
proof -
  have k: "LabelWorkspaceNamespace \<noteq> UserLabelPrefix @ u" for u
    using namespace_label_no_user by (auto simp: HasPrefix_iff)
  have p: "HasPrefix (UserLabelPrefix @ u) UserLabelPrefix" for u by (auto simp: HasPrefix_iff)
  show ?thesis
    unfolding labels_mirror_def
    by (auto simp: defaultNamespaceLabel_def defaultMemberLabels_lookup desiredLabels_iff k p
        dest: desiredLabels_prefix)
qed

lemma labels_mirror_setNamespace: "labels_mirror (setNamespace n ws) ws' \<Longrightarrow> labels_mirror ws ws'"
  by (simp add: labels_mirror_def)

section \<open>Generated names\<close>

definition alphanums :: string where
  "alphanums = ''bcdfghjklmnpqrstvwxz2456789''"

text \<open>
  What the random sources promise: \<open>utilrand.String(n)\<close> returns \<open>n\<close> characters of its alphabet, and drawing
  random data leaves the view \<open>view\<close> of the outside alone.
\<close>

locale random_source =
  fixes rnd :: "'s random" and view :: "'s \<Rightarrow> 'v"
  assumes string_shape: "rnd_String rnd n s = (t, s') \<Longrightarrow> length t = n \<and> set t \<subseteq> set alphanums"
    and string_keeps: "rnd_String rnd n s = (t, s') \<Longrightarrow> view s' = view s"
    and byte_keeps: "rnd_Byte rnd s = (r, s') \<Longrightarrow> view s' = view s"

definition name_shape :: "string \<Rightarrow> bool" where
  "name_shape n \<longleftrightarrow> (\<exists>c t. n = c # t \<and> is_lower c \<and> length t = 5 \<and> set t \<subseteq> set alphanums)"

lemma randomPrefix_lower: "\<exists>c. randomPrefix b = [c] \<and> is_lower c"
proof -
  have m: "unat (b mod 26) < 26" by (simp add: unat_mod)
  then have "unat ((97 :: 8 word) + b mod 26) = 97 + unat (b mod 26)"
    by (subst unat_add_lem [THEN iffD1]) simp_all
  with m show ?thesis
    unfolding randomPrefix_def is_lower_def
    by (auto simp: less_eq_char_def)
qed

lemma name_shape_valid:
  assumes "name_shape n"
  shows "dns_label n" and "length n = 6" and "n \<notin> set reserved_namespaces" and "utf8_length n \<le> 63"
proof -
  from assms obtain c t where n: "n = c # t" "is_lower c" "length t = 5" "set t \<subseteq> set alphanums"
    unfolding name_shape_def by blast
  show 6: "length n = 6" using n by simp
  have a: "is_lower x \<or> is_digit x" if "x \<in> set alphanums" for x
    using that by (auto simp: alphanums_def is_lower_def is_digit_def less_eq_char_def)
  have t: "t \<noteq> []" using n(3) by auto
  then have "last t \<in> set alphanums" using n(4) last_in_set by blast
  with n t a show "dns_label n" by (auto simp: dns_label_def list_all_iff)
  show "n \<notin> set reserved_namespaces" using 6 by (auto simp: reserved_namespaces_def)
  have "utf8_length n \<le> length n" by (simp add: utf8_length_def)
  with 6 show "utf8_length n \<le> 63" by simp
qed

context random_source
begin

lemma hoare_generateNamespaceName:
  "hoare (\<lambda>v. view v = x) (generateNamespaceName rnd) (\<lambda>n v. view v = x \<and> name_shape n) (\<lambda>_ v. view v = x)"
  unfolding generateNamespaceName_def
proof (rule hoare_onResult)
  show "hoare (\<lambda>v. view v = x)
     (\<lambda>s. case request EvRandom (rnd_Byte rnd) s of (Inl m, s') \<Rightarrow> (Inl (StdError m), s') | (Inr b, s') \<Rightarrow> (Inr b, s'))
     (\<lambda>_ v. view v = x) (\<lambda>_ v. view v = x)"
    by (rule hoareI) (auto simp: request_def dest: byte_keeps split: prod.splits sum.splits)
  show "hoare (\<lambda>v. view v = x)
     (\<lambda>s. case request EvRandom (rnd_String rnd 5) s of (str, s') \<Rightarrow> (Inr (randomPrefix b @ str), s'))
     (\<lambda>n v. view v = x \<and> name_shape n) (\<lambda>_ v. view v = x)" for b
  proof (rule hoareI)
    fix s :: "('s, event) env" and n s'
    assume "view (world s) = x"
      and "(case request EvRandom (rnd_String rnd 5) s of (str, s') \<Rightarrow> (Inr (randomPrefix b @ str), s')) = (Inr n, s')"
    moreover obtain t w where t: "rnd_String rnd 5 (world s) = (t, w)" by fastforce
    moreover obtain c where "randomPrefix b = [c]" "is_lower c" using randomPrefix_lower by blast
    ultimately show "view (world s') = x \<and> name_shape n"
      using string_shape [OF t] string_keeps [OF t] by (auto simp: request_def name_shape_def)
  qed (simp split: prod.splits)
qed (auto intro: hoare_fail)

end

text \<open>A random source beside an API server, as the defaulter uses them.\<close>

locale name_source = kube_api reader store + random_source rnd store
  for reader :: "'s client" and store :: "'s \<Rightarrow> objref \<Rightarrow> Object option" and rnd :: "'s random"
begin

lemma hoare_tryNames:
  "hoare (\<lambda>v. store v = \<sigma>) (tryNames reader rnd n)
     (\<lambda>name v. store v = \<sigma> \<and> name_shape name \<and> \<sigma> (namespaceRef name) = None) (\<lambda>_ v. store v = \<sigma>)"
proof (induction n)
  case 0
  show ?case by (auto intro: hoare_fail)
next
  case (Suc n)
  show ?case
    unfolding tryNames.simps
    by (rule hoare_andThen [OF hoare_generateNamespaceName], rule hoare_pure,
        rule hoare_onResult [OF hoare_kGet])
       (auto intro!: hoare_ret hoare_fail hoare_conseq [OF Suc])
qed

end

section \<open>A deterministic random source\<close>

text \<open>For witnesses: the byte counts up, the text is constant.\<close>

definition mem_random :: "('x mem_scheme) random" where
  "mem_random = \<lparr>rnd_Byte = (\<lambda>s. (Inr (of_nat (mem_clock s)), s\<lparr>mem_clock := Suc (mem_clock s)\<rparr>)),
     rnd_String = (\<lambda>n s. (replicate n (CHR ''b''), s))\<rparr>"

interpretation mem_names: name_source mem_client mem_lookup mem_random
  by unfold_locales (auto simp: mem_random_def alphanums_def mem_lookup_def fun_eq_iff)

section \<open>Properties\<close>

text \<open>
  C27: a workspace that leaves the mutating webhook is labelled after its members. For every user there is
  a \<open>user.otterscale.io/\<close> label exactly when the user is a member (stale ones are gone), the namespace label
  equals \<open>spec.namespace\<close>, all other labels and the members are untouched, and a namespace the caller chose
  is kept. This holds whatever the API server and the random source do.
\<close>

theorem default_labels_mirror_members:
  assumes "Default reader rnd ws s = (Inr ws', s')"
  shows "labels_mirror ws ws' \<and> (ws_namespace ws \<noteq> [] \<longrightarrow> ws_spec ws' = ws_spec ws \<and> s' = s)"
proof (cases "ws_namespace ws = []")
  case True
  with assms obtain n where "ws' = defaultNamespaceLabel (defaultMemberLabels (setNamespace n ws))"
    by (auto simp: Default_def andThen_def ret_def split: prod.splits sum.splits)
  with True show ?thesis using labels_mirror_defaults labels_mirror_setNamespace by blast
next
  case False
  with assms show ?thesis
    using labels_mirror_defaults by (auto simp: Default_def andThen_def ret_def)
qed

definition unnamed_ws :: Workspace where
  "unnamed_ws = with_labels (fmap_of_list [(UserLabelPrefix @ ''mallory'', ''true''), (''team'', ''red'')])
     (setNamespace [] sample_ws)"

theorem default_labels_mirror_members_witness:
  "\<exists>ws' s'. Default mem_client mem_random unnamed_ws (start []) = (Inr ws', s') \<and> labels_mirror unnamed_ws ws'"
proof -
  have "\<not> isl (fst (Default mem_client mem_random unnamed_ws (start [])))" by code_simp
  then obtain ws' s' where r: "Default mem_client mem_random unnamed_ws (start []) = (Inr ws', s')"
    by (rule run_okE)
  then show ?thesis using default_labels_mirror_members [OF r] by blast
qed

text \<open>
  C28: a generated namespace can be used. When the specification names none, the webhook either fails or
  sets a six-character DNS label that is not reserved and that no Namespace held when it was checked, and it
  writes nothing.
\<close>

theorem generated_namespace_is_free:
  assumes "kube_api reader store" and "random_source rnd store"
    and "ws_namespace ws = []" and "Default reader rnd ws s = (Inr ws', s')"
  shows "dns_label (ws_namespace ws') \<and> length (ws_namespace ws') = 6 \<and>
         ws_namespace ws' \<notin> set reserved_namespaces \<and>
         store (world s') (namespaceRef (ws_namespace ws')) = None \<and> store (world s') = store (world s)"
proof -
  obtain n where g: "generateAvailableNamespaceName reader rnd s = (Inr n, s')"
    and n: "ws_namespace ws' = n"
    using assms(3,4) by (auto simp: Default_def andThen_def ret_def split: prod.splits sum.splits)
  have "store (world s') = store (world s) \<and> name_shape n \<and> store (world s) (namespaceRef n) = None"
    using hoareD [OF name_source.hoare_tryNames [OF name_source.intro [OF assms(1,2)]] refl
        g [unfolded generateAvailableNamespaceName_def]] .
  then show ?thesis using name_shape_valid [of n] n by simp
qed

theorem generated_namespace_is_free_witness:
  "\<exists>ws' s'. Default mem_client mem_random unnamed_ws (start []) = (Inr ws', s') \<and> dns_label (ws_namespace ws')"
proof -
  have "\<not> isl (fst (Default mem_client mem_random unnamed_ws (start [])))" by code_simp
  then obtain ws' s' where r: "Default mem_client mem_random unnamed_ws (start []) = (Inr ws', s')"
    by (rule run_okE)
  have "ws_namespace unnamed_ws = []" by (simp add: unnamed_ws_def)
  then show ?thesis
    using generated_namespace_is_free [OF mem_server.kube_api_axioms mem_names.random_source_axioms _ r] r by blast
qed

text \<open>
  C29: the mutating webhook is idempotent. Running it again on its own output changes nothing and asks
  nobody, so re-admission and updates do not drift.
\<close>

theorem default_idempotent:
  assumes "Default reader rnd ws s = (Inr ws', s')" and "ws_namespace ws' \<noteq> []"
  shows "Default reader' rnd' ws' t = (Inr ws', t)"
proof -
  obtain v where v: "ws' = defaultNamespaceLabel (defaultMemberLabels v)"
    using assms(1) by (auto simp: Default_def andThen_def ret_def split: prod.splits sum.splits if_splits)
  have m: "ws_members ws' = ws_members v" and ns: "ws_namespace ws' = ws_namespace v" by (simp_all add: v)
  have "fmlookup (ws_labels (defaultNamespaceLabel (defaultMemberLabels ws'))) k = fmlookup (ws_labels ws') k" for k
    using desiredLabels_prefix [of k "ws_members v"] namespace_label_no_user
    by (auto simp: v defaultNamespaceLabel_def defaultMemberLabels_lookup)
  then have "ws_labels (defaultNamespaceLabel (defaultMemberLabels ws')) = ws_labels ws'"
    by (rule fmap_ext)
  then have "defaultNamespaceLabel (defaultMemberLabels ws') = ws'"
    by (simp add: defaultNamespaceLabel_def defaultMemberLabels_def Let_def)
  then show ?thesis using assms(2) by (simp add: Default_def andThen_def ret_def)
qed

theorem default_idempotent_witness:
  "\<exists>ws' s'. Default mem_client mem_random sample_ws (start []) = (Inr ws', s') \<and>
     Default mem_client mem_random ws' (start []) = (Inr ws', start [])"
proof -
  have "\<not> isl (fst (Default mem_client mem_random sample_ws (start [])))" by code_simp
  then obtain ws' s' where r: "Default mem_client mem_random sample_ws (start []) = (Inr ws', s')"
    by (rule run_okE)
  then have "ws_namespace ws' \<noteq> []" by (auto simp: Default_def andThen_def ret_def)
  then show ?thesis using default_idempotent [OF r] r by blast
qed

text \<open>
  C14: what the validating webhook lets through on creation. The name fits a label value, no other listed
  workspace claims the namespace, the namespace does not exist yet or is this workspace's own restored one
  (ownerless, identically labelled, not terminating), and the caller is privileged, an admin member of the new
  workspace, or granted everything by the cluster authorizer. Nothing in the cluster has changed.
\<close>

theorem admitted_workspace_is_sound:
  assumes "kube_api reader store" and "ValidateCreate reader c maxLength ctx ws s = (Inr (), s')"
  shows "\<exists>u items w1 w2. ctx = Some u \<and> length (ws_name ws) \<le> maxLength \<and>
     client_ListWorkspaces reader (world s) = (Inr items, w1) \<and>
     (\<forall>e \<in> set items. ws_name e \<noteq> ws_name ws \<longrightarrow> ws_namespace e \<noteq> ws_namespace ws) \<and>
     (case store w1 (namespaceRef (ws_namespace ws)) of None \<Rightarrow> True
      | Some ob \<Rightarrow> om_deletionTimestamp (o_meta ob) = 0 \<and> om_owners (o_meta ob) = [] \<and>
          hasWorkspaceIdentityLabels (om_labels (o_meta ob)) (ws_name ws)) \<and>
     store w2 = store w1 \<and> (locally_entitled u ws \<or> review c u w2 = Inr True)"
proof -
  obtain u s1 s2 where u: "ctx = Some u" and n: "length (ws_name ws) \<le> maxLength"
    and un: "ValidateNamespaceUniqueness reader ws s = (Inr (), s1)"
    and av: "ValidateNamespaceAvailable reader ws s1 = (Inr (), s2)"
    and au: "AuthorizeCreation c u ws s2 = (Inr (), s')"
    using assms(2)
    by (auto simp: ValidateCreate_def RequestFromContext_def ValidateWorkspaceName_def andThen_def ret_def fail_def
        split: option.splits prod.splits sum.splits if_splits)
  obtain items where items: "client_ListWorkspaces reader (world s) = (Inr items, world s1)"
    "\<forall>e \<in> set items. ws_name e \<noteq> ws_name ws \<longrightarrow> ws_namespace e \<noteq> ws_namespace ws"
    using un by (rule hoare_free_uniqueness)
  have "hoare (\<lambda>v. store v = store (world s1)) (ValidateNamespaceAvailable reader ws)
     (\<lambda>_ v. store v = store (world s1) \<and>
        (case store (world s1) (namespaceRef (ws_namespace ws)) of None \<Rightarrow> True
         | Some ob \<Rightarrow> om_deletionTimestamp (o_meta ob) = 0 \<and> om_owners (o_meta ob) = [] \<and>
             hasWorkspaceIdentityLabels (om_labels (o_meta ob)) (ws_name ws)))
     (\<lambda>_ _. True)"
    unfolding ValidateNamespaceAvailable_def
    by (rule hoare_onResult [OF kube_api.hoare_kGet [OF assms(1)]]) (auto intro!: hoare_ret hoare_fail)
  from hoareD [OF this refl av] have avail: "store (world s2) = store (world s1)"
    "case store (world s1) (namespaceRef (ws_namespace ws)) of None \<Rightarrow> True
         | Some ob \<Rightarrow> om_deletionTimestamp (o_meta ob) = 0 \<and> om_owners (o_meta ob) = [] \<and>
             hasWorkspaceIdentityLabels (om_labels (o_meta ob)) (ws_name ws)" by simp_all
  have "locally_entitled u ws \<or> review c u (world s2) = Inr True"
    using creation.passes_iff [of c u ws s2] au by simp
  with u n items avail show ?thesis by blast
qed

definition alice_user :: UserInfo where
  "alice_user = \<lparr>ui_username = ''alice'', ui_uid = ''u-1'', ui_groups = [''system:authenticated''], ui_extra = fmempty\<rparr>"

theorem admitted_workspace_is_sound_witness:
  "\<exists>s' u. ValidateCreate mem_client mem_client 63 (Some alice_user) sample_ws
            (start [(namespaceRef ''team-alpha'', restored_namespace)]) = (Inr (), s') \<and>
      Some alice_user = Some u \<and> (locally_entitled u sample_ws \<or> (\<exists>w. review mem_client u (w :: mem) = Inr True))"
proof -
  let ?s = "start [(namespaceRef ''team-alpha'', restored_namespace)]"
  have "\<not> isl (fst (ValidateCreate mem_client mem_client 63 (Some alice_user) sample_ws ?s))" by code_simp
  then obtain x s' where r: "ValidateCreate mem_client mem_client 63 (Some alice_user) sample_ws ?s = (Inr x, s')"
    by (rule run_okE)
  show ?thesis using admitted_workspace_is_sound [OF mem_server.kube_api_axioms, of mem_client 63 "Some alice_user" sample_ws ?s s'] r
    by auto
qed

text \<open>
  Updates and deletions are judged by the roles of the stored workspace. Both pass exactly when the
  caller is privileged, an admin in the old object, or granted everything by the cluster authorizer; the new
  object has no say, so nobody can make themselves admin and approve it in one request.
\<close>

theorem modification_judged_by_old_object:
  "(fst (ValidateUpdate c (Some u) old new s) = Inr () \<longleftrightarrow> locally_entitled u old \<or> review c u (world s) = Inr True) \<and>
   (fst (ValidateDelete c (Some u) old s) = Inr () \<longleftrightarrow> locally_entitled u old \<or> review c u (world s) = Inr True) \<and>
   fst (ValidateUpdate c None old new s) \<noteq> Inr ()"
  using modification.passes_iff [of c u old s]
  by (simp add: ValidateUpdate_def ValidateDelete_def RequestFromContext_def effect_defs)

end
