(* ===== verification/Manager.thy ===== *)
theory Manager
  imports Watches Webhook
begin

text \<open>
  \<open>src/cmd/main.go\<close>, \<open>SetupWithManager\<close> of the controller, \<open>SetupWorkspaceWebhookWithManager\<close> of the webhook and
  the scheme registration of \<open>src/api/v1alpha1\<close>: the command line, the options the servers get, and the sequence
  of registrations before the manager starts. controller-runtime is the parameter \<open>rt\<close>, a record of the calls
  \<open>main\<close> makes; the flags that libraries add to the command line (zap, kubeconfig) are the parameter \<open>libFlags\<close>,
  their values the field \<open>opt_lib\<close>.
\<close>

section \<open>The flag package\<close>

text \<open>A defined flag: whether it may stand alone, and its \<open>Value.Set\<close>.\<close>

record 'o flag =
  flag_isBool :: bool
  flag_Set :: "string \<Rightarrow> 'o \<Rightarrow> error + 'o"

datatype flag_failure = ErrHelp | FlagError error

definition ParseBool :: "string \<Rightarrow> bool option" where
  "ParseBool s =
     (if s \<in> {''1'', ''t'', ''T'', ''true'', ''TRUE'', ''True''} then Some True
      else if s \<in> {''0'', ''f'', ''F'', ''false'', ''FALSE'', ''False''} then Some False else None)"

definition BoolVar :: "(bool \<Rightarrow> 'o \<Rightarrow> 'o) \<Rightarrow> 'o flag" where
  "BoolVar upd = \<lparr>flag_isBool = True, flag_Set = \<lambda>s opts. case ParseBool s of
     Some b \<Rightarrow> Inr (upd b opts) | None \<Rightarrow> Inl (Errorf ''parse error'' [])\<rparr>"

definition StringVar :: "(string \<Rightarrow> 'o \<Rightarrow> 'o) \<Rightarrow> 'o flag" where
  "StringVar upd = \<lparr>flag_isBool = False, flag_Set = \<lambda>s opts. Inr (upd s opts)\<rparr>"

text \<open>The name of a flag argument and the value after its first \<open>=\<close>, which cannot be its first character.\<close>

definition nameValue :: "string \<Rightarrow> string \<times> string option" where
  "nameValue arg = (case Cut (tl arg) (CHR ''='') of (n, v, found) \<Rightarrow> (hd arg # n, if found then Some v else None))"

definition setFlag :: "'o flag \<Rightarrow> string \<Rightarrow> string \<Rightarrow> 'o \<Rightarrow> flag_failure + 'o" where
  "setFlag fl name value opts = (case flag_Set fl value opts of
       Inl e \<Rightarrow> Inl (FlagError (Wrapf (if flag_isBool fl then ''invalid boolean value %q for -%s: %v''
                                        else ''invalid value %q for flag -%s: %v'') [value, name] e))
     | Inr opts' \<Rightarrow> Inr opts')"

fun parseFlags :: "(string \<rightharpoonup> 'o flag) \<Rightarrow> string list \<Rightarrow> 'o \<Rightarrow> flag_failure + 'o" where
  "parseFlags formal [] opts = Inr opts"
| "parseFlags formal (s # args) opts =
     (if length s < 2 \<or> hd s \<noteq> CHR ''-'' \<or> s = ''--'' then Inr opts
      else let arg = (if s ! 1 = CHR ''-'' then drop 2 s else drop 1 s) in
        if hd arg = CHR ''-'' \<or> hd arg = CHR ''='' then Inl (FlagError (Errorf ''bad flag syntax: %s'' [s]))
        else case nameValue arg of (name, value) \<Rightarrow>
          (case formal name of
             None \<Rightarrow> if name = ''help'' \<or> name = ''h'' then Inl ErrHelp
                      else Inl (FlagError (Errorf ''flag provided but not defined: -%s'' [name]))
           | Some fl \<Rightarrow>
               (case value of
                  Some v \<Rightarrow> (case setFlag fl name v opts of Inl e \<Rightarrow> Inl e | Inr opts' \<Rightarrow> parseFlags formal args opts')
                | None \<Rightarrow>
                    if flag_isBool fl
                    then (case setFlag fl name ''true'' opts of Inl e \<Rightarrow> Inl e | Inr opts' \<Rightarrow> parseFlags formal args opts')
                    else (case args of
                            [] \<Rightarrow> Inl (FlagError (Errorf ''flag needs an argument: -%s'' [name]))
                          | v # rest \<Rightarrow> (case setFlag fl name v opts of
                               Inl e \<Rightarrow> Inl e | Inr opts' \<Rightarrow> parseFlags formal rest opts')))))"

declare parseFlags.simps(2) [simp del]

section \<open>Options\<close>

record 'l options =
  opt_metricsAddr :: string
  opt_metricsCertPath :: string
  opt_metricsCertName :: string
  opt_metricsCertKey :: string
  opt_webhookCertPath :: string
  opt_webhookCertName :: string
  opt_webhookCertKey :: string
  opt_enableLeaderElection :: bool
  opt_probeAddr :: string
  opt_secureMetrics :: bool
  opt_enableHTTP2 :: bool
  opt_lib :: 'l

definition defaultOptions :: "'l \<Rightarrow> 'l options" where
  "defaultOptions lib = \<lparr>opt_metricsAddr = ''0'', opt_metricsCertPath = [], opt_metricsCertName = ''tls.crt'',
     opt_metricsCertKey = ''tls.key'', opt_webhookCertPath = [], opt_webhookCertName = ''tls.crt'',
     opt_webhookCertKey = ''tls.key'', opt_enableLeaderElection = False, opt_probeAddr = '':8081'',
     opt_secureMetrics = True, opt_enableHTTP2 = False, opt_lib = lib\<rparr>"

definition mainFlags :: "(string \<times> 'l options flag) list" where
  "mainFlags =
     [(''metrics-bind-address'', StringVar (\<lambda>v. opt_metricsAddr_update (\<lambda>_. v))),
      (''health-probe-bind-address'', StringVar (\<lambda>v. opt_probeAddr_update (\<lambda>_. v))),
      (''leader-elect'', BoolVar (\<lambda>b. opt_enableLeaderElection_update (\<lambda>_. b))),
      (''metrics-secure'', BoolVar (\<lambda>b. opt_secureMetrics_update (\<lambda>_. b))),
      (''webhook-cert-path'', StringVar (\<lambda>v. opt_webhookCertPath_update (\<lambda>_. v))),
      (''webhook-cert-name'', StringVar (\<lambda>v. opt_webhookCertName_update (\<lambda>_. v))),
      (''webhook-cert-key'', StringVar (\<lambda>v. opt_webhookCertKey_update (\<lambda>_. v))),
      (''metrics-cert-path'', StringVar (\<lambda>v. opt_metricsCertPath_update (\<lambda>_. v))),
      (''metrics-cert-name'', StringVar (\<lambda>v. opt_metricsCertName_update (\<lambda>_. v))),
      (''metrics-cert-key'', StringVar (\<lambda>v. opt_metricsCertKey_update (\<lambda>_. v))),
      (''enable-http2'', BoolVar (\<lambda>b. opt_enableHTTP2_update (\<lambda>_. b)))]"

definition libFlag :: "'l flag \<Rightarrow> 'l options flag" where
  "libFlag fl = \<lparr>flag_isBool = flag_isBool fl,
     flag_Set = \<lambda>v opts. map_sum id (\<lambda>l. opts\<lparr>opt_lib := l\<rparr>) (flag_Set fl v (opt_lib opts))\<rparr>"

definition commandLine :: "(string \<times> 'l flag) list \<Rightarrow> string \<rightharpoonup> 'l options flag" where
  "commandLine libFlags = map_of (mainFlags @ map (apsnd libFlag) libFlags)"

section \<open>Server options\<close>

record tls_config =
  NextProtos :: "string list"

definition disableHTTP2 :: "tls_config \<Rightarrow> tls_config" where
  "disableHTTP2 c = c\<lparr>NextProtos := [''http/1.1'']\<rparr>"

definition tlsOpts :: "'l options \<Rightarrow> (tls_config \<Rightarrow> tls_config) list" where
  "tlsOpts opts = (if \<not> opt_enableHTTP2 opts then [disableHTTP2] else [])"

text \<open>\<open>CertDir\<close> and the names stay at their zero value, the empty string, unless a path is given.\<close>

record server_options =
  so_TLSOpts :: "(tls_config \<Rightarrow> tls_config) list"
  so_CertDir :: string
  so_CertName :: string
  so_KeyName :: string

record metrics_options = server_options +
  mo_BindAddress :: string
  mo_SecureServing :: bool
  mo_WithAuthenticationAndAuthorization :: bool

definition webhookServerOptions :: "'l options \<Rightarrow> server_options" where
  "webhookServerOptions opts =
     (let so = \<lparr>so_TLSOpts = tlsOpts opts, so_CertDir = [], so_CertName = [], so_KeyName = []\<rparr> in
      if length (opt_webhookCertPath opts) > 0
      then so\<lparr>so_CertDir := opt_webhookCertPath opts, so_CertName := opt_webhookCertName opts,
              so_KeyName := opt_webhookCertKey opts\<rparr>
      else so)"

definition metricsServerOptions :: "'l options \<Rightarrow> metrics_options" where
  "metricsServerOptions opts =
     (let so = \<lparr>so_TLSOpts = tlsOpts opts, so_CertDir = [], so_CertName = [], so_KeyName = [],
                mo_BindAddress = opt_metricsAddr opts, mo_SecureServing = opt_secureMetrics opts,
                mo_WithAuthenticationAndAuthorization = False\<rparr>;
          so = (if opt_secureMetrics opts then so\<lparr>mo_WithAuthenticationAndAuthorization := True\<rparr> else so)
      in if length (opt_metricsCertPath opts) > 0
         then so\<lparr>so_CertDir := opt_metricsCertPath opts, so_CertName := opt_metricsCertName opts,
                 so_KeyName := opt_metricsCertKey opts\<rparr>
         else so)"

record manager_options =
  mgr_Metrics :: metrics_options
  mgr_WebhookServer :: server_options
  mgr_HealthProbeBindAddress :: string
  mgr_LeaderElection :: bool
  mgr_LeaderElectionID :: string

definition managerOptions :: "'l options \<Rightarrow> manager_options" where
  "managerOptions opts = \<lparr>mgr_Metrics = metricsServerOptions opts, mgr_WebhookServer = webhookServerOptions opts,
     mgr_HealthProbeBindAddress = opt_probeAddr opts, mgr_LeaderElection = opt_enableLeaderElection opts,
     mgr_LeaderElectionID = ''tenant-operator-leader-election''\<rparr>"

section \<open>The manager as a parameter\<close>

record GroupVersionKind =
  gvk_Group :: string
  gvk_Version :: string
  gvk_Kind :: string

record 's WorkspaceCustomDefaulter =
  d_Reader :: "'s client"

record 's WorkspaceCustomValidator =
  v_Reader :: "'s client"
  v_Client :: "'s client"

text \<open>The calls \<open>main\<close> and the two setup functions make on controller-runtime and the environment.\<close>

record 's manager_runtime =
  rt_GetConfig :: "'s \<Rightarrow> (error + unit) \<times> 's"
  rt_NewManager :: "manager_options \<Rightarrow> 's \<Rightarrow> (error + unit) \<times> 's"
  rt_RESTMapping :: "GroupVersionKind \<Rightarrow> 's \<Rightarrow> (error + unit) \<times> 's"
  rt_CompleteController :: "'s controller_spec \<Rightarrow> 's \<Rightarrow> (error + unit) \<times> 's"
  rt_CompleteWebhook :: "'s WorkspaceCustomDefaulter \<Rightarrow> 's WorkspaceCustomValidator \<Rightarrow> 's \<Rightarrow> (error + unit) \<times> 's"
  rt_AddHealthzCheck :: "string \<Rightarrow> 's \<Rightarrow> (error + unit) \<times> 's"
  rt_AddReadyzCheck :: "string \<Rightarrow> 's \<Rightarrow> (error + unit) \<times> 's"
  rt_Start :: "'s \<Rightarrow> (error + unit) \<times> 's"
  rt_GetClient :: "'s client"
  rt_GetAPIReader :: "'s client"
  rt_Transport :: "'s transport"
  rt_GenerationChanged :: predicate_Funcs
  rt_sourceGroupVersion :: "string \<times> string"
  rt_Getenv :: "string \<Rightarrow> string"

datatype startup_event =
    EvGetConfig
  | EvNewManager manager_options
  | EvRESTMapping GroupVersionKind
  | EvCompleteController
  | EvCompleteWebhook
  | EvAddHealthzCheck string
  | EvAddReadyzCheck string
  | EvStart

type_synonym ('s, 'a) startup = "('s, startup_event, 'a) eio"

section \<open>The scheme\<close>

text \<open>
  \<open>api/v1alpha1\<close> registers its kinds by two builder functions, which \<open>AddToScheme\<close> runs in order; \<open>init\<close> of \<open>main\<close>
  panics when a registration fails (\<open>Inl\<close>). What apimachinery and the other two API groups do to a scheme is the
  parameter \<open>lib\<close>.
\<close>

record 'c scheme_runtime =
  sc_AddToGroupVersion :: "string \<times> string \<Rightarrow> 'c \<Rightarrow> 'c"
  sc_AddKnownTypes :: "string \<times> string \<Rightarrow> string list \<Rightarrow> 'c \<Rightarrow> 'c"
  sc_clientgo_AddToScheme :: "'c \<Rightarrow> error + 'c"
  sc_source_AddToScheme :: "'c \<Rightarrow> error + 'c"

definition SchemeGroupVersion :: "string \<times> string" where
  "SchemeGroupVersion = (''tenant.otterscale.io'', ''v1alpha1'')"

definition registerGroup :: "'c scheme_runtime \<Rightarrow> 'c \<Rightarrow> error + 'c" where
  "registerGroup lib scheme = Inr (sc_AddToGroupVersion lib SchemeGroupVersion scheme)"

definition registerWorkspace :: "'c scheme_runtime \<Rightarrow> 'c \<Rightarrow> error + 'c" where
  "registerWorkspace lib scheme = Inr (sc_AddKnownTypes lib SchemeGroupVersion [''Workspace'', ''WorkspaceList''] scheme)"

fun runBuilder :: "('c \<Rightarrow> error + 'c) list \<Rightarrow> 'c \<Rightarrow> error + 'c" where
  "runBuilder [] scheme = Inr scheme"
| "runBuilder (f # fs) scheme = (case f scheme of Inl e \<Rightarrow> Inl e | Inr scheme' \<Rightarrow> runBuilder fs scheme')"

definition tenant_AddToScheme :: "'c scheme_runtime \<Rightarrow> 'c \<Rightarrow> error + 'c" where
  "tenant_AddToScheme lib = runBuilder [registerGroup lib, registerWorkspace lib]"

definition main_init :: "'c scheme_runtime \<Rightarrow> 'c \<Rightarrow> error + 'c" where
  "main_init lib = runBuilder [sc_clientgo_AddToScheme lib, tenant_AddToScheme lib, sc_source_AddToScheme lib]"

locale scheme_library =
  fixes lib :: "'c scheme_runtime" and known :: "'c \<Rightarrow> (string \<times> string \<times> string) set"
  assumes types_known: "kind \<in> set kinds \<Longrightarrow> (fst gv, snd gv, kind) \<in> known (sc_AddKnownTypes lib gv kinds c)"
    and types_grow: "known c \<subseteq> known (sc_AddKnownTypes lib gv kinds c)"
    and group_grows: "known c \<subseteq> known (sc_AddToGroupVersion lib gv c)"
    and clientgo_grows: "sc_clientgo_AddToScheme lib c = Inr c' \<Longrightarrow> known c \<subseteq> known c'"
    and source_grows: "sc_source_AddToScheme lib c = Inr c' \<Longrightarrow> known c \<subseteq> known c'"
begin

lemma workspace_known:
  assumes "main_init lib c = Inr c'" and "kind \<in> {''Workspace'', ''WorkspaceList''}"
  shows "(''tenant.otterscale.io'', ''v1alpha1'', kind) \<in> known c'"
proof -
  obtain c1 where "sc_source_AddToScheme lib
      (sc_AddKnownTypes lib SchemeGroupVersion [''Workspace'', ''WorkspaceList''] c1) = Inr c'"
    using assms(1)
    by (auto simp: main_init_def tenant_AddToScheme_def registerGroup_def registerWorkspace_def split: sum.splits)
  from source_grows [OF this] types_known [of kind "[''Workspace'', ''WorkspaceList'']" SchemeGroupVersion c1] assms(2)
  show ?thesis by (auto simp: SchemeGroupVersion_def)
qed

end

text \<open>A scheme as the list of the kinds it knows.\<close>

definition list_scheme :: "(string \<times> string \<times> string) list scheme_runtime" where
  "list_scheme = \<lparr>sc_AddToGroupVersion = \<lambda>gv c. (fst gv, snd gv, ''WatchEvent'') # c,
     sc_AddKnownTypes = \<lambda>gv kinds c. map (\<lambda>k. (fst gv, snd gv, k)) kinds @ c,
     sc_clientgo_AddToScheme = \<lambda>c. Inr (([], ''v1'', ''Namespace'') # c),
     sc_source_AddToScheme = \<lambda>c. Inr ((''source.toolkit.fluxcd.io'', ''v1'', ''HelmRepository'') # c)\<rparr>"

interpretation known_kinds: scheme_library list_scheme set
  by unfold_locales (auto simp: list_scheme_def)

section \<open>Setup\<close>

record requiredKind =
  rk_provider :: string
  rk_gvk :: GroupVersionKind

definition requiredKinds :: "'s manager_runtime \<Rightarrow> requiredKind list" where
  "requiredKinds rt = [\<lparr>rk_provider = ''Flux source-controller'',
     rk_gvk = \<lparr>gvk_Group = fst (rt_sourceGroupVersion rt), gvk_Version = snd (rt_sourceGroupVersion rt),
               gvk_Kind = ''HelmRepository''\<rparr>\<rparr>]"

definition kindServed :: "'s manager_runtime \<Rightarrow> GroupVersionKind \<Rightarrow> ('s, bool) startup" where
  "kindServed rt gvk = onResult (request (EvRESTMapping gvk) (rt_RESTMapping rt gvk)) (\<lambda>_. ret False) (\<lambda>_. ret True)"

text \<open>\<open>GroupVersionKind.String()\<close>\<close>

definition gvkString :: "GroupVersionKind \<Rightarrow> string" where
  "gvkString gvk = gvk_Group gvk @ ''/'' @ gvk_Version gvk @ '', Kind='' @ gvk_Kind gvk"

definition requireKind :: "'s manager_runtime \<Rightarrow> requiredKind \<Rightarrow> ('s, unit) startup" where
  "requireKind rt required =
     andThen (kindServed rt (rk_gvk required)) (\<lambda>served.
       if \<not> served
       then fail (Errorf ''%s is not served by the cluster: the %s CRDs are required by the tenant operator''
                    [gvkString (rk_gvk required), rk_provider required])
       else ret ())"

definition SetupWithManager :: "'s manager_runtime \<Rightarrow> 's WorkspaceReconciler \<Rightarrow> ('s, unit) startup" where
  "SetupWithManager rt r =
     andThen (forEach (requireKind rt) (requiredKinds rt)) (\<lambda>_.
       request EvCompleteController (rt_CompleteController rt (workspaceController r (rt_GenerationChanged rt))))"


section \<open>main\<close>

text \<open>\<open>main_version\<close> is the initial value of \<open>version\<close>; a release build replaces it at link time.\<close>

definition main_version :: string where "main_version = ''devel''"

definition mainReconciler :: "'s manager_runtime \<Rightarrow> 's WorkspaceReconciler" where
  "mainReconciler rt = \<lparr>r_Client = rt_GetClient rt, r_Version = main_version, r_NewHarborClient = None,
     r_Transport = rt_Transport rt\<rparr>"



section \<open>The command line\<close>

text \<open>A flag argument in the form \<open>--name=value\<close>.\<close>

definition flagArg :: "string \<Rightarrow> string \<Rightarrow> string" where
  "flagArg name value = ''--'' @ name @ ''='' @ value"

definition plainName :: "string \<Rightarrow> bool" where
  "plainName name \<longleftrightarrow> name \<noteq> [] \<and> hd name \<noteq> CHR ''-'' \<and> CHR ''='' \<notin> set name"

lemma nameValue_flag: "plainName name \<Longrightarrow> nameValue (name @ CHR ''='' # value) = (name, Some value)"
  by (cases name) (auto simp: plainName_def nameValue_def Cut_found)

lemma parseFlags_flagArg:
  assumes "plainName name" and "formal name = Some fl"
  shows "parseFlags formal (flagArg name value # args) opts =
    (case setFlag fl name value opts of Inl e \<Rightarrow> Inl e | Inr opts' \<Rightarrow> parseFlags formal args opts')"
proof -
  have "hd (name @ CHR ''='' # value) = hd name" and "name \<noteq> []" using assms(1) by (auto simp: plainName_def)
  moreover have "hd name \<noteq> CHR ''-''" "hd name \<noteq> CHR ''=''" using assms(1) by (cases name, auto simp: plainName_def)+
  ultimately show ?thesis
    using assms nameValue_flag [OF assms(1), of "value"] by (simp add: flagArg_def parseFlags.simps(2))
qed

lemma mainFlags_plain: "name \<in> fst ` set mainFlags \<Longrightarrow> plainName name"
  by (auto simp: mainFlags_def plainName_def)

lemma commandLine_main: "map_of mainFlags name = Some fl \<Longrightarrow> commandLine libFlags name = Some fl"
  by (simp add: commandLine_def)

text \<open>Every option spelled out.\<close>

definition boolText :: "bool \<Rightarrow> string" where
  "boolText b = (if b then ''true'' else ''false'')"

definition renderFlags :: "'l options \<Rightarrow> string list" where
  "renderFlags opts =
     [flagArg ''metrics-bind-address'' (opt_metricsAddr opts),
      flagArg ''health-probe-bind-address'' (opt_probeAddr opts),
      flagArg ''leader-elect'' (boolText (opt_enableLeaderElection opts)),
      flagArg ''metrics-secure'' (boolText (opt_secureMetrics opts)),
      flagArg ''webhook-cert-path'' (opt_webhookCertPath opts),
      flagArg ''webhook-cert-name'' (opt_webhookCertName opts),
      flagArg ''webhook-cert-key'' (opt_webhookCertKey opts),
      flagArg ''metrics-cert-path'' (opt_metricsCertPath opts),
      flagArg ''metrics-cert-name'' (opt_metricsCertName opts),
      flagArg ''metrics-cert-key'' (opt_metricsCertKey opts),
      flagArg ''enable-http2'' (boolText (opt_enableHTTP2 opts))]"

lemma ParseBool_boolText [simp]: "ParseBool (boolText b) = Some b"
  by (simp add: boolText_def ParseBool_def)

lemma setFlag_main [simp]:
  "setFlag (StringVar upd) name value opts = Inr (upd value opts)"
  "setFlag (BoolVar bupd) name (boolText b) opts = Inr (bupd b opts)"
  by (simp_all add: setFlag_def StringVar_def BoolVar_def)

lemma parse_main_flag:
  assumes "map_of mainFlags name = Some fl" and "setFlag fl name value opts = Inr opts'"
  shows "parseFlags (commandLine libFlags) (flagArg name value # args) opts = parseFlags (commandLine libFlags) args opts'"
proof -
  have "plainName name" by (rule mainFlags_plain) (use assms(1) in \<open>force dest: map_of_SomeD\<close>)
  from parseFlags_flagArg [of name "commandLine libFlags" fl "value" args opts, OF this commandLine_main [OF assms(1)]] assms(2)
  show ?thesis by simp
qed

text \<open>The flag an argument names.\<close>

definition argName :: "string \<Rightarrow> string" where
  "argName s = fst (nameValue (if s ! 1 = CHR ''-'' then drop 2 s else drop 1 s))"

lemma setFlag_Inr: "setFlag fl name v opts = Inr opts' \<Longrightarrow> flag_Set fl v opts = Inr opts'"
  by (simp add: setFlag_def split: sum.splits)

lemma parseFlags_Cons:
  assumes "parseFlags formal (s # args) opts = Inr opts'"
  shows "opts' = opts \<or> (\<exists>fl v o2 rest. formal (argName s) = Some fl \<and> flag_Set fl v opts = Inr o2 \<and>
     parseFlags formal rest o2 = Inr opts' \<and> set rest \<subseteq> set args \<and> length rest \<le> length args)"
proof -
  obtain name val where nv: "nameValue (if s ! 1 = CHR ''-'' then drop 2 s else drop 1 s) = (name, val)" by fastforce
  have tail: "\<exists>fl v o2 rest. formal name = Some fl \<and> flag_Set fl v opts = Inr o2 \<and>
      parseFlags formal rest o2 = Inr opts' \<and> set rest \<subseteq> set args \<and> length rest \<le> length args"
    if "formal name = Some fl" "setFlag fl name v opts = Inr o2" "parseFlags formal rest o2 = Inr opts'"
      "rest = args \<or> (\<exists>x. args = x # rest)" for fl v o2 rest
    using that setFlag_Inr [OF that(2)] by (intro exI conjI) auto
  have a: "argName s = name" unfolding argName_def nv by simp
  show ?thesis
  proof (cases "length s < 2 \<or> hd s \<noteq> CHR ''-'' \<or> s = ''--''")
    case True
    with assms show ?thesis by (auto simp: parseFlags.simps(2))
  next
    case False
    note step = assms [unfolded parseFlags.simps(2) Let_def if_not_P [OF False] nv prod.case]
    then obtain fl where fl: "formal name = Some fl" by (cases "formal name") (simp_all split: if_splits)
    show ?thesis
    proof (cases val)
      case (Some v)
      with step fl obtain o2 where "setFlag fl name v opts = Inr o2" "parseFlags formal args o2 = Inr opts'"
        by (auto split: if_splits sum.splits)
      with tail [OF fl] a show ?thesis by auto
    next
      case None
      show ?thesis
      proof (cases "flag_isBool fl")
        case True
        with step fl None obtain o2 where "setFlag fl name ''true'' opts = Inr o2" "parseFlags formal args o2 = Inr opts'"
          by (auto split: if_splits sum.splits)
        with tail [OF fl] a show ?thesis by auto
      next
        case False
        with step fl None obtain v rest o2 where "args = v # rest" "setFlag fl name v opts = Inr o2" "parseFlags formal rest o2 = Inr opts'"
          by (auto split: if_splits sum.splits list.splits)
        with tail [OF fl] a show ?thesis by auto
      qed
    qed
  qed
qed

text \<open>What no flag on the command line changes stays as it was.\<close>

lemma parseFlags_keeps:
  assumes "parseFlags formal args opts = Inr opts'" and "P opts"
    and "\<And>name fl v o1 o2. formal name = Some fl \<Longrightarrow> name \<in> argName ` set args \<Longrightarrow> flag_Set fl v o1 = Inr o2 \<Longrightarrow> P o1 \<Longrightarrow> P o2"
  shows "P opts'"
  using assms
proof (induction "length args" arbitrary: args opts rule: less_induct)
  case less
  show ?case
  proof (cases args)
    case (Cons s tail)
    from parseFlags_Cons [OF less.prems(1) [unfolded Cons]] show ?thesis
    proof (elim disjE exE conjE)
      fix fl v o2 rest
      assume r: "formal (argName s) = Some fl" "flag_Set fl v opts = Inr o2" "parseFlags formal rest o2 = Inr opts'"
        and s: "set rest \<subseteq> set tail" "length rest \<le> length tail"
      have "P o2" using less.prems(3) [OF r(1) _ r(2) less.prems(2)] Cons by simp
      moreover have "argName ` set rest \<subseteq> argName ` set args" using s(1) Cons by auto
      ultimately show ?thesis
        using less.hyps [OF _ r(3)] less.prems(3) s(2) Cons by (simp, blast)
    qed (use less.prems(2) in simp)
  qed (use less.prems in simp)
qed

section \<open>Properties\<close>

text \<open>
  C35: every configuration can be given on the command line. Parsing the arguments that spell an option record out
  gives that record back, whatever flags the libraries add and whatever characters the values hold.
\<close>

theorem flags_round_trip:
  "parseFlags (commandLine libFlags) (renderFlags opts) (defaultOptions (opt_lib opts)) = Inr opts"
proof -
  have main_step: "parseFlags (commandLine libFlags) (flagArg name val # args) opts = parseFlags (commandLine libFlags) args opts'"
    if "case map_of mainFlags name of Some fl \<Rightarrow> setFlag fl name val opts = Inr opts' | None \<Rightarrow> False"
    for name val args opts and opts' :: "'a options"
    using that parse_main_flag [of name _ val opts opts' libFlags args] by (simp split: option.splits)
  show ?thesis
    unfolding renderFlags_def mainFlags_def [symmetric]
    by (rule trans [OF main_step], simp add: mainFlags_def)+ (simp add: defaultOptions_def)
qed

text \<open>The TLS configuration a server ends up with.\<close>

definition applyTLS :: "(tls_config \<Rightarrow> tls_config) list \<Rightarrow> tls_config \<Rightarrow> tls_config" where
  "applyTLS fs c = foldl (\<lambda>c f. f c) c fs"

lemma mainFlags_http2:
  assumes "commandLine libFlags name = Some fl" and "name \<noteq> ''enable-http2''" and "flag_Set fl v o1 = Inr o2"
  shows "opt_enableHTTP2 o2 = opt_enableHTTP2 o1"
proof -
  let ?keeps = "\<lambda>fl. \<forall>v o1 o2. flag_Set fl v o1 = Inr o2 \<longrightarrow> opt_enableHTTP2 o2 = opt_enableHTTP2 o1"
  have "list_all (\<lambda>(n, fl). n \<noteq> ''enable-http2'' \<longrightarrow> ?keeps fl) mainFlags"
    by (simp add: mainFlags_def StringVar_def BoolVar_def split: option.splits)
  then have m: "?keeps fl" if "(name, fl) \<in> set mainFlags" using that assms(2) by (auto simp: list_all_iff)
  have l: "?keeps (libFlag fl)" for fl
    by (auto simp: libFlag_def map_sum_def split: sum.splits)
  have "(name, fl) \<in> set (mainFlags @ map (apsnd libFlag) libFlags)"
    using assms(1) unfolding commandLine_def by (rule map_of_SomeD)
  then consider "(name, fl) \<in> set mainFlags" | lf where "fl = libFlag lf" by auto
  then have "?keeps fl" by cases (use m l in simp_all)
  with assms(3) show ?thesis by blast
qed

text \<open>
  C34: HTTP/2 stays off unless it is asked for. However the command line is composed, if no argument names
  \<open>enable-http2\<close> then the webhook server and the metrics server both speak HTTP/1.1 only; and the metrics endpoint
  is behind authentication and authorization exactly when it is served securely.
\<close>

theorem http2_off_unless_asked:
  assumes "parseFlags (commandLine libFlags) args (defaultOptions lib) = Inr opts"
    and "''enable-http2'' \<notin> argName ` set args"
  shows "NextProtos (applyTLS (so_TLSOpts (mgr_WebhookServer (managerOptions opts))) c) = [''http/1.1''] \<and>
         NextProtos (applyTLS (so_TLSOpts (mgr_Metrics (managerOptions opts))) c) = [''http/1.1''] \<and>
         mo_WithAuthenticationAndAuthorization (mgr_Metrics (managerOptions opts)) =
           mo_SecureServing (mgr_Metrics (managerOptions opts))"
proof -
  have "\<not> opt_enableHTTP2 opts"
    by (rule parseFlags_keeps [where P = "\<lambda>opts. \<not> opt_enableHTTP2 opts", OF assms(1)])
       (use assms(2) mainFlags_http2 in \<open>force simp: defaultOptions_def\<close>)+
  then show ?thesis
    by (simp add: managerOptions_def webhookServerOptions_def metricsServerOptions_def Let_def tlsOpts_def applyTLS_def
        disableHTTP2_def)
qed

theorem http2_off_unless_asked_witness:
  "\<exists>opts. parseFlags (commandLine []) [''--leader-elect'', ''-metrics-bind-address'', '':8443'', ''--metrics-secure=false''] (defaultOptions ()) = Inr opts \<and>
     NextProtos (applyTLS (so_TLSOpts (mgr_Metrics (managerOptions opts))) \<lparr>NextProtos = []\<rparr>) = [''http/1.1'']"
proof -
  let ?args = "[''--leader-elect'', ''-metrics-bind-address'', '':8443'', ''--metrics-secure=false'']"
  have "\<not> isl (parseFlags (commandLine []) ?args (defaultOptions ()))" by code_simp
  then obtain opts where p: "parseFlags (commandLine []) ?args (defaultOptions ()) = Inr opts"
    by (cases "parseFlags (commandLine []) ?args (defaultOptions ())") auto
  have "''enable-http2'' \<notin> argName ` set ?args" by code_simp
  from http2_off_unless_asked [OF p this, of "\<lparr>NextProtos = []\<rparr>"] p show ?thesis by blast
qed


lemma requireKind_call:
  "requireKind rt required = request (EvRESTMapping (rk_gvk required)) (\<lambda>w. apfst (\<lambda>res. case res of
         Inl _ \<Rightarrow> Inl (Errorf ''%s is not served by the cluster: the %s CRDs are required by the tenant operator''
                    [gvkString (rk_gvk required), rk_provider required])
       | Inr u \<Rightarrow> Inr u) (rt_RESTMapping rt (rk_gvk required) w))"
  by (auto simp: requireKind_def kindServed_def effect_defs fun_eq_iff split: prod.splits sum.splits)







text \<open>A runtime where every call succeeds, for witnesses.\<close>

definition calm_runtime :: "mem manager_runtime" where
  "calm_runtime = \<lparr>rt_GetConfig = \<lambda>w. (Inr (), w), rt_NewManager = \<lambda>_ w. (Inr (), w), rt_RESTMapping = \<lambda>_ w. (Inr (), w),
     rt_CompleteController = \<lambda>_ w. (Inr (), w), rt_CompleteWebhook = \<lambda>_ _ w. (Inr (), w),
     rt_AddHealthzCheck = \<lambda>_ w. (Inr (), w), rt_AddReadyzCheck = \<lambda>_ w. (Inr (), w), rt_Start = \<lambda>w. (Inr (), w),
     rt_GetClient = mem_client, rt_GetAPIReader = mem_client, rt_Transport = \<lparr>tr_Do = \<lambda>_ w. (Inl ''offline'', w), tr_MapOrder = \<lambda>_ ks. ks\<rparr>,
     rt_GenerationChanged = generation_changed, rt_sourceGroupVersion = (''source.toolkit.fluxcd.io'', ''v1''),
     rt_Getenv = \<lambda>_. []\<rparr>"


text \<open>
  A missing prerequisite is reported by name. When the cluster does not serve \<open>HelmRepository\<close>, setting the
  controller up fails with an error that names the kind and its provider, and no controller is registered.
\<close>

theorem missing_crd_reported:
  assumes "fst (rt_RESTMapping rt \<lparr>gvk_Group = fst (rt_sourceGroupVersion rt), gvk_Version = snd (rt_sourceGroupVersion rt),
             gvk_Kind = ''HelmRepository''\<rparr> (world s)) = Inl e"
    and "SetupWithManager rt r s = (res, s')"
  shows "res = Inl (Errorf ''%s is not served by the cluster: the %s CRDs are required by the tenant operator''
           [fst (rt_sourceGroupVersion rt) @ ''/'' @ snd (rt_sourceGroupVersion rt) @ '', Kind=HelmRepository'', ''Flux source-controller'']) \<and>
         EvCompleteController \<notin> set (drop (length (trace s)) (trace s'))"
proof -
  obtain w where "rt_RESTMapping rt \<lparr>gvk_Group = fst (rt_sourceGroupVersion rt), gvk_Version = snd (rt_sourceGroupVersion rt),
             gvk_Kind = ''HelmRepository''\<rparr> (world s) = (Inl e, w)"
    using assms(1) by (metis prod.collapse)
  with assms(2) show ?thesis
    by (auto simp: SetupWithManager_def requiredKinds_def requireKind_call gvkString_def andThen_def request_def)
qed

theorem missing_crd_reported_witness:
  "\<exists>e s'. SetupWithManager (calm_runtime\<lparr>rt_RESTMapping := \<lambda>_ w. (Inl (Errorf ''no matches for kind'' []), w)\<rparr>) (mainReconciler calm_runtime)
      \<lparr>world = mem_world [], trace = []\<rparr> = (Inl e, s') \<and> EvCompleteController \<notin> set (trace s')"
proof -
  let ?rt = "calm_runtime\<lparr>rt_RESTMapping := \<lambda>_ w. (Inl (Errorf ''no matches for kind'' []), w)\<rparr>"
  obtain res s' where m: "SetupWithManager ?rt (mainReconciler calm_runtime) \<lparr>world = mem_world [], trace = []\<rparr> = (res, s')" by fastforce
  from missing_crd_reported [OF _ m] m show ?thesis by auto
qed

text \<open>
  After \<open>init\<close> the manager's scheme knows the workspace kinds, in the group and version the CRD is published
  under: registering the other API groups neither hides nor replaces them.
\<close>

theorem scheme_knows_workspace:
  assumes "scheme_library lib known" and "main_init lib c = Inr c'"
  shows "{(''tenant.otterscale.io'', ''v1alpha1'', ''Workspace''), (''tenant.otterscale.io'', ''v1alpha1'', ''WorkspaceList'')} \<subseteq> known c'"
  using scheme_library.workspace_known [OF assms] by simp

theorem scheme_knows_workspace_witness:
  "\<exists>c'. main_init list_scheme [] = Inr c' \<and> (''tenant.otterscale.io'', ''v1alpha1'', ''Workspace'') \<in> set c'"
proof -
  have "\<not> isl (main_init list_scheme [])" by code_simp
  then obtain c' where c: "main_init list_scheme [] = Inr c'" by (cases "main_init list_scheme []") auto
  from scheme_knows_workspace [OF known_kinds.scheme_library_axioms c] c show ?thesis by auto
qed

end
