(* ===== verification/Lifecycle.thy ===== *)
theory Lifecycle
  imports Webhook
begin

text \<open>
  What the webhooks achieve over time: the life of the stored workspaces under any sequence of requests. A step is
  one thing the API server does, with the webhooks registered as in \<open>src/internal/webhook/v1alpha1/workspace_webhook.go\<close>
  (mutating on create and update, validating on create, update and delete, \<open>failurePolicy=fail\<close>) and the rules of the
  CustomResourceDefinition between the two. A creation is admitted first and stored later, so that creations can
  overlap; \<open>serial\<close> restricts the runs to those in which they do not.
\<close>

section \<open>Steps\<close>

record api_state =
  stored :: "Workspace list"
  inflight :: "Workspace list"

definition replaceWorkspace :: "Workspace \<Rightarrow> Workspace \<Rightarrow> api_state \<Rightarrow> api_state" where
  "replaceWorkspace old new S = S\<lparr>stored := map (\<lambda>w. if w = old then new else w) (stored S)\<rparr>"

text \<open>
  \<open>listing\<close> reads the stored workspaces off the outside. The outside is arbitrary at every call; only the
  workspaces it lists while a creation is validated are those stored then. The label of a step is the user whose
  request it is; storing an admitted object and writing the status subresource, which no webhook sees, have none.
\<close>

inductive api_step ::
    "'s client \<Rightarrow> 's client \<Rightarrow> 's random \<Rightarrow> nat \<Rightarrow> ('s \<Rightarrow> Workspace list) \<Rightarrow> bool \<Rightarrow>
     api_state \<Rightarrow> UserInfo option \<Rightarrow> api_state \<Rightarrow> bool"
  for reader c rnd maxLength listing serial where
  admit_create: "(serial \<longrightarrow> inflight S = []) \<Longrightarrow> Default reader rnd ws s = (Inr ws', s1) \<Longrightarrow> valid_spec (ws_spec ws') \<Longrightarrow>
     set (listing (world s2)) = set (stored S) \<Longrightarrow> ValidateCreate reader c maxLength (Some u) ws' s2 = (Inr (), s3) \<Longrightarrow>
     api_step reader c rnd maxLength listing serial S (Some u) (S\<lparr>inflight := ws' # inflight S\<rparr>)"
| store_created: "ws \<in> set (inflight S) \<Longrightarrow> ws_name ws \<notin> ws_name ` set (stored S) \<Longrightarrow>
     api_step reader c rnd maxLength listing serial S None
       (S\<lparr>stored := ws # stored S, inflight := removeAll ws (inflight S)\<rparr>)"
| abandon: "api_step reader c rnd maxLength listing serial S None (S\<lparr>inflight := removeAll ws (inflight S)\<rparr>)"
| update: "old \<in> set (stored S) \<Longrightarrow> ws_name new = ws_name old \<Longrightarrow> ws_status new = ws_status old \<Longrightarrow>
     Default reader rnd new s = (Inr new', s1) \<Longrightarrow> valid_spec_update (ws_spec old) (ws_spec new') \<Longrightarrow>
     ValidateUpdate c (Some u) old new' s2 = (Inr (), s3) \<Longrightarrow>
     api_step reader c rnd maxLength listing serial S (Some u) (replaceWorkspace old new' S)"
| delete: "old \<in> set (stored S) \<Longrightarrow> ValidateDelete c (Some u) old s = (Inr (), s1) \<Longrightarrow>
     api_step reader c rnd maxLength listing serial S (Some u) (S\<lparr>stored := removeAll old (stored S)\<rparr>)"
| write_status: "old \<in> set (stored S) \<Longrightarrow>
     api_step reader c rnd maxLength listing serial S None (replaceWorkspace old (old\<lparr>ws_status := status\<rparr>) S)"

inductive api_reach :: "'s client \<Rightarrow> 's client \<Rightarrow> 's random \<Rightarrow> nat \<Rightarrow> ('s \<Rightarrow> Workspace list) \<Rightarrow> bool \<Rightarrow> api_state \<Rightarrow> bool"
  for reader c rnd maxLength listing serial where
  reach_start: "api_reach reader c rnd maxLength listing serial \<lparr>stored = [], inflight = []\<rparr>"
| reach_step: "api_reach reader c rnd maxLength listing serial S \<Longrightarrow>
     api_step reader c rnd maxLength listing serial S actor S' \<Longrightarrow> api_reach reader c rnd maxLength listing serial S'"

inductive_cases api_stepE: "api_step reader c rnd maxLength listing serial S actor S'"

section \<open>What admission gives each workspace\<close>

definition sound_workspace :: "nat \<Rightarrow> Workspace \<Rightarrow> bool" where
  "sound_workspace maxLength w \<longleftrightarrow> valid_spec (ws_spec w) \<and> ws_namespace w \<noteq> [] \<and> labels_mirror w w \<and>
     length (ws_name w) \<le> maxLength"

lemma generated_nonempty: "generateAvailableNamespaceName reader rnd s = (Inr n, s') \<Longrightarrow> n \<noteq> []"
proof -
  have "tryNames reader rnd k s = (Inr n, s') \<Longrightarrow> n \<noteq> []" for k
    by (induction k arbitrary: s)
       (auto simp: generateNamespaceName_def effect_defs randomPrefix_def split: prod.splits sum.splits if_splits)
  then show "generateAvailableNamespaceName reader rnd s = (Inr n, s') \<Longrightarrow> n \<noteq> []"
    by (simp add: generateAvailableNamespaceName_def)
qed

lemma Default_result:
  assumes "Default reader rnd ws s = (Inr ws', s')"
  shows "ws_name ws' = ws_name ws" and "ws_status ws' = ws_status ws" and "ws_namespace ws' \<noteq> []" and "labels_mirror ws' ws'"
proof -
  obtain v where v: "ws' = defaultNamespaceLabel (defaultMemberLabels v)" "ws_namespace v \<noteq> []"
      "ws_name v = ws_name ws" "ws_status v = ws_status ws"
    using assms generated_nonempty
    by (cases "ws_namespace ws = []") (fastforce simp: Default_def andThen_def ret_def setNamespace_def split: prod.splits sum.splits)+
  then show "ws_name ws' = ws_name ws" and "ws_status ws' = ws_status ws" and "ws_namespace ws' \<noteq> []"
    by (simp_all add: defaultNamespaceLabel_def defaultMemberLabels_def Let_def)
  show "labels_mirror ws' ws'"
    using labels_mirror_defaults [of v] v(1) by (simp add: labels_mirror_def)
qed

lemma ValidateCreate_name: "ValidateCreate reader c maxLength ctx ws s = (Inr (), s') \<Longrightarrow> length (ws_name ws) \<le> maxLength"
  by (auto simp: ValidateCreate_def RequestFromContext_def ValidateWorkspaceName_def andThen_def ret_def fail_def
      split: option.splits prod.splits sum.splits if_splits)

lemma stored_replace [simp]:
  "set (stored (replaceWorkspace old new S)) = (\<lambda>w. if w = old then new else w) ` set (stored S)"
  "inflight (replaceWorkspace old new S) = inflight S"
  by (simp_all add: replaceWorkspace_def)

lemma names_replace: "ws_name new = ws_name old \<Longrightarrow> map ws_name (stored (replaceWorkspace old new S)) = map ws_name (stored S)"
  by (simp add: replaceWorkspace_def)

lemma step_keeps_sound:
  assumes "api_step reader c rnd maxLength listing serial S actor S'"
    and "distinct (map ws_name (stored S))" and "\<forall>w \<in> set (stored S) \<union> set (inflight S). sound_workspace maxLength w"
  shows "distinct (map ws_name (stored S')) \<and> (\<forall>w \<in> set (stored S') \<union> set (inflight S'). sound_workspace maxLength w)"
  using assms(1)
proof cases
  case (admit_create ws s ws' s1 s2 u s3)
  then show ?thesis
    using assms Default_result [OF admit_create(4)] ValidateCreate_name [OF admit_create(7)] by (auto simp: sound_workspace_def)
next
  case (update old new s new' s1 u s2 s3)
  have "sound_workspace maxLength new'"
    using assms(3) update Default_result [OF update(6)] by (auto simp: sound_workspace_def valid_spec_update_def)
  moreover have "ws_name new' = ws_name old" using Default_result(1) [OF update(6)] update(4) by simp
  ultimately show ?thesis using assms(2,3) update by (auto simp: names_replace)
next
  case (write_status old status)
  then have "sound_workspace maxLength (old\<lparr>ws_status := status\<rparr>)"
    using assms(3) by (auto simp: sound_workspace_def labels_mirror_def)
  then show ?thesis using assms(2,3) write_status by (auto simp: names_replace)
qed (use assms(2,3) in \<open>auto simp: distinct_map inj_on_diff distinct_removeAll\<close>)

lemma reach_sound:
  assumes "api_reach reader c rnd maxLength listing serial S"
  shows "distinct (map ws_name (stored S)) \<and> (\<forall>w \<in> set (stored S) \<union> set (inflight S). sound_workspace maxLength w)"
  using assms
proof (induction rule: api_reach.induct)
  case (reach_step S actor S')
  then show ?case using step_keeps_sound by blast
qed simp

section \<open>Namespaces\<close>

text \<open>The one thing the uniqueness check needs of the API server: its list of workspaces is complete.\<close>

locale complete_listing =
  fixes reader :: "'s client" and listing :: "'s \<Rightarrow> Workspace list"
  assumes lists_stored: "client_ListWorkspaces reader v = (Inr items, v') \<Longrightarrow> set items = set (listing v)"
begin

lemma admitted_unclaimed:
  assumes "ValidateCreate reader c maxLength (Some u) ws s = (Inr (), s')" and "e \<in> set (listing (world s))"
    and "ws_name e \<noteq> ws_name ws"
  shows "ws_namespace e \<noteq> ws_namespace ws"
proof -
  obtain s1 where "ValidateNamespaceUniqueness reader ws s = (Inr (), s1)"
    using assms(1)
    by (auto simp: ValidateCreate_def RequestFromContext_def ValidateWorkspaceName_def andThen_def ret_def fail_def
        split: prod.splits sum.splits if_splits)
  then show ?thesis using hoare_free_uniqueness lists_stored assms(2,3) by metis
qed

text \<open>
  In a serial run, what is stored and what is about to be stored never claim one namespace under two names.
\<close>

definition unclaimed :: "api_state \<Rightarrow> bool" where
  "unclaimed S \<longleftrightarrow> length (inflight S) \<le> 1 \<and>
     (\<forall>e \<in> set (stored S). \<forall>w \<in> set (stored S) \<union> set (inflight S). ws_name e \<noteq> ws_name w \<longrightarrow> ws_namespace e \<noteq> ws_namespace w)"

lemma unclaimed_replace:
  assumes "unclaimed S" and "old \<in> set (stored S)" and "ws_name new = ws_name old" and "ws_namespace new = ws_namespace old"
  shows "unclaimed (replaceWorkspace old new S)"
  using assms unfolding unclaimed_def stored_replace by (auto split: if_splits)

lemma step_unclaimed:
  assumes "api_step reader c rnd maxLength listing True S actor S'" and "unclaimed S"
  shows "unclaimed S'"
  using assms(1)
proof cases
  case (admit_create ws s ws' s1 s2 u s3)
  then show ?thesis
    using assms(2) admitted_unclaimed [OF admit_create(7)] by (auto simp: unclaimed_def)
next
  case (store_created ws)
  then have "inflight S = [ws]" using assms(2) by (cases "inflight S") (auto simp: unclaimed_def)
  with store_created assms(2) show ?thesis by (auto simp: unclaimed_def)
next
  case (update old new s new' s1 u s2 s3)
  then show ?thesis
    using unclaimed_replace [OF assms(2), of old new'] Default_result(1) [OF update(6)] by (simp add: valid_spec_update_def)
next
  case (write_status old status)
  then show ?thesis using unclaimed_replace [OF assms(2), of old] by simp
qed (use assms(2) in \<open>auto simp: unclaimed_def intro: le_trans [OF length_removeAll_less_eq]\<close>)

lemma reach_unclaimed:
  assumes "api_reach reader c rnd maxLength listing True S"
  shows "unclaimed S"
  using assms
proof (induction rule: api_reach.induct)
  case reach_start
  then show ?case by (simp add: unclaimed_def)
next
  case (reach_step S actor S')
  then show ?case using step_unclaimed by blast
qed

end

interpretation mem_listing: complete_listing mem_client mem_workspaces
  by unfold_locales (auto simp: mem_client_def)

section \<open>Properties\<close>

text \<open>
  C10: Whatever requests arrive and however they overlap, every stored workspace is sound: names are distinct, the
  specification keeps the rules of the CRD (so there is an admin and no reserved namespace), a namespace is set and
  is a DNS label, the name fits a label value, and the labels mirror the members and the namespace.\<close>

theorem stored_workspaces_are_sound:
  assumes "api_reach reader c rnd maxLength listing serial S"
  shows "distinct (map ws_name (stored S)) \<and>
    (\<forall>w \<in> set (stored S). valid_spec (ws_spec w) \<and> dns_label (ws_namespace w) \<and> length (ws_name w) \<le> maxLength \<and> labels_mirror w w)"
  using reach_sound [OF assms] by (auto simp: sound_workspace_def valid_spec_def)

text \<open>
  C12: As long as creations do not overlap, no two stored workspaces claim the same namespace, whatever updates,
  deletions and status writes happen in between. The API server only has to list all stored workspaces.\<close>

theorem serial_namespaces_unique:
  assumes "complete_listing reader listing" and "api_reach reader c rnd maxLength listing True S"
  shows "\<forall>a \<in> set (stored S). \<forall>b \<in> set (stored S). ws_namespace a = ws_namespace b \<longrightarrow> a = b"
proof -
  have "ws_name a = ws_name b" if "a \<in> set (stored S)" "b \<in> set (stored S)" "ws_namespace a = ws_namespace b" for a b
    using complete_listing.reach_unclaimed [OF assms] that
    unfolding complete_listing.unclaimed_def [OF assms(1)] by blast
  moreover have "inj_on ws_name (set (stored S))" using reach_sound [OF assms(2)] by (simp add: distinct_map)
  ultimately show ?thesis unfolding inj_on_def by blast
qed

definition entitled :: "'s client \<Rightarrow> UserInfo option \<Rightarrow> Workspace \<Rightarrow> bool" where
  "entitled c actor w \<longleftrightarrow> (\<exists>u. actor = Some u \<and> (locally_entitled u w \<or> (\<exists>v. review c u v = Inr True)))"

lemma modification_entitled:
  assumes "fst (AuthorizeModification c u w s) = Inr ()"
  shows "entitled c (Some u) w"
  using assms unfolding modification.passes_iff entitled_def by blast

lemma step_namespace:
  assumes "api_step reader c rnd maxLength listing serial S actor S'" and "w' \<in> set (stored S')" and "ws_name w' \<in> ws_name ` set (stored S)"
  shows "\<exists>v \<in> set (stored S). ws_name v = ws_name w' \<and> ws_namespace v = ws_namespace w'"
  using assms(1)
proof cases
  case (update old new s new' s1 u s2 s3)
  then show ?thesis using assms(2,3) Default_result(1) [OF update(6)]
    by (auto simp: valid_spec_update_def split: if_splits)
next
  case (write_status old status)
  then show ?thesis using assms(2,3) by (auto split: if_splits)
qed (use assms(2,3) in auto)

text \<open>
  C11: What one request can do to a stored workspace. Its name and its namespace never change. Its specification and
  labels change, and it disappears, only by a request of a user who was entitled to it before the request: in a
  privileged group, admin in the stored object, or granted everything by the cluster authorizer.\<close>

theorem change_needs_entitlement:
  assumes "api_reach reader c rnd maxLength listing serial S" and "api_step reader c rnd maxLength listing serial S actor S'"
    and "w \<in> set (stored S)"
  shows "(\<forall>w' \<in> set (stored S'). ws_name w' = ws_name w \<longrightarrow> ws_namespace w' = ws_namespace w) \<and>
    (entitled c actor w \<or> (\<exists>w' \<in> set (stored S'). ws_meta w' = ws_meta w \<and> ws_spec w' = ws_spec w))"
proof
  have "inj_on ws_name (set (stored S))" using reach_sound [OF assms(1)] by (simp add: distinct_map)
  then show "\<forall>w' \<in> set (stored S'). ws_name w' = ws_name w \<longrightarrow> ws_namespace w' = ws_namespace w"
    using step_namespace [OF assms(2)] assms(3) by (metis imageI inj_onD)
  show "entitled c actor w \<or> (\<exists>w' \<in> set (stored S'). ws_meta w' = ws_meta w \<and> ws_spec w' = ws_spec w)"
    using assms(2)
  proof cases
    case (update old new s new' s1 u s2 s3)
    have "entitled c actor old"
      unfolding update(1) by (rule modification_entitled [of _ _ _ s2])
        (use update(8) in \<open>simp add: ValidateUpdate_def RequestFromContext_def andThen_def ret_def\<close>)
    then show ?thesis using update(2) assms(3) by (cases "w = old") auto
  next
    case (delete old u s s1)
    have "entitled c actor old"
      unfolding delete(1) by (rule modification_entitled [of _ _ _ s])
        (use delete(4) in \<open>simp add: ValidateDelete_def RequestFromContext_def andThen_def ret_def\<close>)
    then show ?thesis using delete(2) assms(3) by (cases "w = old") auto
  next
    case (write_status old status)
    then show ?thesis using assms(3) by (cases "w = old") auto
  qed (use assms(3) in auto)
qed

section \<open>A run\<close>

text \<open>Two workspaces of two teams that ask for the same namespace.\<close>

definition named_ws :: "string \<Rightarrow> Workspace" where
  "named_ws name = sample_ws\<lparr>ws_meta := sample_meta\<lparr>om_name := name\<rparr>\<rparr>"

definition with_stored :: "Workspace list \<Rightarrow> mem st" where
  "with_stored ws = \<lparr>world = \<lparr>mem_objs = Map.empty, mem_workspaces = ws, mem_clock = 1, mem_clusterAdmins = []\<rparr>, trace = []\<rparr>"

abbreviation mem_step :: "bool \<Rightarrow> api_state \<Rightarrow> UserInfo option \<Rightarrow> api_state \<Rightarrow> bool" where
  "mem_step \<equiv> api_step (mem_client :: mem client) mem_client mem_random 63 mem_workspaces"

abbreviation mem_reach :: "bool \<Rightarrow> api_state \<Rightarrow> bool" where
  "mem_reach \<equiv> api_reach (mem_client :: mem client) mem_client mem_random 63 mem_workspaces"

definition labelled :: "string \<Rightarrow> Workspace" where
  "labelled name = defaultNamespaceLabel (defaultMemberLabels (named_ws name))"

lemma named_simps [simp]:
  "ws_spec (named_ws n) = sample_spec" "ws_name (named_ws n) = n" "ws_spec (labelled n) = sample_spec" "ws_name (labelled n) = n"
  by (simp_all add: labelled_def named_ws_def defaultNamespaceLabel_def defaultMemberLabels_def Let_def)

lemma sample_spec_valid: "valid_spec sample_spec"
  by code_simp

lemma default_named: "Default mem_client mem_random (named_ws n) s = (Inr (labelled n), s)"
  by (simp add: Default_def andThen_def ret_def labelled_def)

lemma alice_entitled: "locally_entitled alice_user (labelled n)"
  by (simp add: locally_entitled_def isWorkspaceAdmin_iff alice_user_def alice_def)

lemma empty_cluster:
  "client_ListWorkspaces mem_client (world (with_stored ws)) = (Inr ws, world (with_stored ws))"
  "client_Get mem_client r (world (with_stored ws)) = (Inl (NotFound ''object''), world (with_stored ws))"
  by (simp_all add: mem_client_def mem_Get_def mem_lookup_def with_stored_def)

lemma admit_named:
  assumes "length n \<le> 63"
  shows "\<exists>s'. ValidateCreate mem_client mem_client 63 (Some alice_user) (labelled n) (with_stored []) = (Inr (), s')"
  using assms
  by (simp add: ValidateCreate_def RequestFromContext_def ValidateWorkspaceName_def ValidateNamespaceUniqueness_def
      ValidateNamespaceAvailable_def creation.local_pass [OF alice_entitled] effect_defs
      kListWorkspaces_def kGet_def apiCall_def empty_cluster)

lemma reach_admitted:
  assumes "mem_reach serial \<lparr>stored = [], inflight = ws\<rparr>"
    and "length n \<le> 63" and "serial \<longrightarrow> ws = []"
  shows "mem_reach serial \<lparr>stored = [], inflight = labelled n # ws\<rparr>"
proof -
  obtain s' where v: "ValidateCreate mem_client mem_client 63 (Some alice_user) (labelled n) (with_stored []) = (Inr (), s')"
    using admit_named [OF assms(2)] by blast
  have l: "set (mem_workspaces (world (with_stored []))) = set (stored \<lparr>stored = [], inflight = ws\<rparr>)"
    by (simp add: with_stored_def)
  have "mem_step serial \<lparr>stored = [], inflight = ws\<rparr> (Some alice_user)
      (\<lparr>stored = [], inflight = ws\<rparr>\<lparr>inflight := labelled n # inflight \<lparr>stored = [], inflight = ws\<rparr>\<rparr>)"
    by (rule api_step.admit_create) (use assms(3) sample_spec_valid default_named l v in \<open>simp_all, blast+\<close>)
  from api_reach.reach_step [OF assms(1) this] show ?thesis by simp
qed

lemma reach_one: "mem_reach serial \<lparr>stored = [labelled ''a''], inflight = []\<rparr>"
  using api_reach.reach_step [OF reach_admitted [OF api_reach.reach_start, of "''a''"] api_step.store_created [of "labelled ''a''"]]
  by simp

theorem stored_workspaces_are_sound_witness:
  "\<exists>S. mem_reach False S \<and> stored S \<noteq> [] \<and>
     (\<forall>w \<in> set (stored S). dns_label (ws_namespace w) \<and> labels_mirror w w)"
  using stored_workspaces_are_sound [OF reach_one] reach_one by (intro exI [of _ "\<lparr>stored = [labelled ''a''], inflight = []\<rparr>"]) auto

theorem serial_namespaces_unique_witness:
  "\<exists>S. mem_reach True S \<and> stored S \<noteq> [] \<and>
     (\<forall>a \<in> set (stored S). \<forall>b \<in> set (stored S). ws_namespace a = ws_namespace b \<longrightarrow> a = b)"
  using serial_namespaces_unique [OF mem_listing.complete_listing_axioms reach_one] reach_one
  by (intro exI [of _ "\<lparr>stored = [labelled ''a''], inflight = []\<rparr>"]) auto

lemma delete_step:
  "\<exists>S'. mem_step False \<lparr>stored = [labelled ''a''], inflight = []\<rparr> (Some alice_user) S'"
proof -
  have d: "ValidateDelete (mem_client :: mem client) (Some alice_user) (labelled ''a'') (with_stored []) = (Inr (), with_stored [])"
    by (simp add: ValidateDelete_def RequestFromContext_def modification.local_pass [OF alice_entitled] andThen_def ret_def)
  show ?thesis by (rule exI, rule api_step.delete [OF _ d]) simp
qed

theorem change_needs_entitlement_witness:
  "\<exists>S'. mem_step False \<lparr>stored = [labelled ''a''], inflight = []\<rparr> (Some alice_user) S' \<and>
     (entitled (mem_client :: mem client) (Some alice_user) (labelled ''a'') \<or> (\<exists>w' \<in> set (stored S'). ws_spec w' = sample_spec))"
proof -
  obtain S' where s: "mem_step False \<lparr>stored = [labelled ''a''], inflight = []\<rparr> (Some alice_user) S'"
    using delete_step by blast
  from change_needs_entitlement [OF reach_one s, of "labelled ''a''"] s show ?thesis by auto
qed


end
