(* ===== verification/Liveness.thy ===== *)
theory Liveness
  imports Controller
begin

text \<open>
  That a reconcile gets through. Against an API server that answers (\<open>healthy_cluster\<close>) and a Harbor that answers
  (\<open>harbor_up\<close>), with nobody else's objects in the way, every component succeeds, whatever state the namespace is in.
  Success is stated as a Hoare triple whose error postcondition is \<open>False\<close>.
\<close>

section \<open>Operating conditions\<close>

locale healthy_cluster = kube_api_up c store + kube_cluster c store
  for c :: "'s client" and store :: "'s \<Rightarrow> objref \<Rightarrow> Object option" +
  assumes owner_kept: "controllable_by (ws_uid w) ob \<Longrightarrow> client_SetControllerReference c w ob = Inr ob' \<Longrightarrow>
      controllable_by (ws_uid w) ob'"
    and patch_up: "fst (client_PatchStatus c b w s) = Inr ()"

definition harbor_up :: "'s HarborClient \<Rightarrow> bool" where
  "harbor_up H \<longleftrightarrow> (\<forall>p ds r. outcome (\<lambda>_. True) (\<lambda>_. False) (EnsureProject H p) \<and>
     outcome (\<lambda>_. True) (\<lambda>_. False) (ReconcileProjectMembers H p ds) \<and>
     outcome (\<lambda>_. True) (\<lambda>_. False) (EnsureRobot H p r) \<and> outcome (\<lambda>_. True) (\<lambda>_. False) (RefreshRobotSecret H p r))"

text \<open>No object of the workspace is controlled by somebody else, and the namespace is not somebody else's.\<close>

definition unobstructed :: "Workspace \<Rightarrow> (objref \<Rightarrow> Object option) \<Rightarrow> bool" where
  "unobstructed w \<sigma> \<longleftrightarrow> (\<forall>r ob. own_ref w r \<longrightarrow> \<sigma> r = Some ob \<longrightarrow> controllable_by (ws_uid w) ob)"

definition clear_for :: "Workspace \<Rightarrow> (objref \<Rightarrow> Object option) \<Rightarrow> bool" where
  "clear_for w \<sigma> \<longleftrightarrow> \<sigma> (namespaceRef (ws_namespace w)) \<noteq> None \<and> unobstructed w \<sigma>"

lemma unobstructed_upd: "unobstructed w \<sigma> \<Longrightarrow> (\<And>ob. x = Some ob \<Longrightarrow> controllable_by (ws_uid w) ob) \<Longrightarrow> unobstructed w (\<sigma>(r := x))"
  by (auto simp: unobstructed_def)

lemma clear_for_upd:
  "clear_for w \<sigma> \<Longrightarrow> k \<noteq> NamespaceK \<Longrightarrow> (\<And>ob. x = Some ob \<Longrightarrow> controllable_by (ws_uid w) ob) \<Longrightarrow> clear_for w (\<sigma>((k, ns, n) := x))"
  by (simp add: clear_for_def unobstructed_upd)

lemma unobstructed_current: "unobstructed w \<sigma> \<Longrightarrow> own_ref w r \<Longrightarrow> controllable_by (ws_uid w) (current \<sigma> (newObject r))"
  by (cases r; cases "\<sigma> r") (auto simp: unobstructed_def current_newObject controllable_by_def)

lemma persisted_controllable: "persisted ob st \<Longrightarrow> controllable_by u st \<longleftrightarrow> controllable_by u ob"
  by (simp add: persisted_def controllable_by_def)

lemma hoare_forEach_inv: "(\<And>x. x \<in> set xs \<Longrightarrow> hoare P (f x) (\<lambda>_. P) E) \<Longrightarrow> hoare P (forEach f xs) (\<lambda>_. P) E"
  by (induction xs) (auto intro: hoare_ret hoare_andThen)

lemma hoare_seq_inv: "hoare P m (\<lambda>_. P) E \<Longrightarrow> (\<And>x. hoare P (f x) (\<lambda>_. P) E) \<Longrightarrow> hoare P (andThen m f) (\<lambda>_. P) E"
  by (rule hoare_andThen)

lemma hoare_succeeds: "hoare P m Q (\<lambda>_ _. False) \<Longrightarrow> P (world s) \<Longrightarrow> \<exists>x s'. m s = (Inr x, s') \<and> Q x (world s')"
  by (cases "m s"; cases "fst (m s)") (auto dest: hoareD hoare_errD)

section \<open>Every step succeeds\<close>

context healthy_cluster
begin

lemma up_put:
  assumes "\<And>ob. controllable_by (ws_uid w) ob \<Longrightarrow> \<exists>ob'. f ob = Inr ob' \<and> controllable_by (ws_uid w) ob'" and "k \<noteq> NamespaceK"
  shows "hoare (\<lambda>v. clear_for w (store v)) (kCreateOrUpdate c (k, ws_namespace w, n) f) (\<lambda>_ v. clear_for w (store v)) (\<lambda>_ _. False)"
proof (rule hoareI)
  fix s :: "'s st" and x s'
  assume clear: "clear_for w (store (world s))" and run: "kCreateOrUpdate c (k, ws_namespace w, n) f s = (Inr x, s')"
  have "controllable_by (ws_uid w) (current (store (world s)) (newObject (k, ws_namespace w, n)))"
    using clear assms(2) by (intro unobstructed_current) (auto simp: clear_for_def own_ref_def)
  with hoareD [OF hoare_kCreateOrUpdate refl run] assms(1) clear assms(2)
  show "clear_for w (store (world s'))" by (fastforce simp: persisted_controllable intro!: clear_for_upd)
next
  fix s :: "'s st" and e s'
  assume clear: "clear_for w (store (world s))" and run: "kCreateOrUpdate c (k, ws_namespace w, n) f s = (Inl e, s')"
  have "controllable_by (ws_uid w) (current (store (world s)) (newObject (k, ws_namespace w, n)))"
    using clear assms(2) by (intro unobstructed_current) (auto simp: clear_for_def own_ref_def)
  then obtain ob' where "f (current (store (world s)) (newObject (k, ws_namespace w, n))) = Inr ob'" using assms(1) by blast
  moreover have "store (world s) (NamespaceK, [], ws_namespace w) \<noteq> None" using clear by (simp add: clear_for_def)
  ultimately show False using run by (elim kCreateOrUpdate_succeeds) auto
qed

lemma stamp_controllable:
  assumes "controllable_by (ws_uid w) ob"
  shows "\<exists>ob'. stamp c w l g ob = Inr ob' \<and> controllable_by (ws_uid w) ob'"
proof -
  have "controllable_by (ws_uid w) (ob\<lparr>o_meta := (o_meta ob)\<lparr>om_labels := l\<rparr>, o_body := g (o_body ob)\<rparr>)"
    using assms by (simp add: controllable_by_def)
  then show ?thesis unfolding stamp_def using owner_free owner_kept by blast
qed

lemmas up_stamp = up_put [OF stamp_controllable]

lemma up_delete:
  assumes "k \<noteq> NamespaceK"
  shows "hoare (\<lambda>v. clear_for w (store v)) (ignoreNotFound (kDelete c (k, ws_namespace w, n))) (\<lambda>_ v. clear_for w (store v)) (\<lambda>_ _. False)"
proof (rule hoareI)
  fix s :: "'s st" and x s'
  assume "clear_for w (store (world s))" and "ignoreNotFound (kDelete c (k, ws_namespace w, n)) s = (Inr x, s')"
  then show "clear_for w (store (world s'))"
    using hoareD [OF hoare_delete_ignoring_absence refl] assms by (fastforce intro: clear_for_upd)
next
  fix s :: "'s st" and e s'
  assume "ignoreNotFound (kDelete c (k, ws_namespace w, n)) s = (Inl e, s')"
  then show False using delete_succeeds [of "(k, ws_namespace w, n)" s] by auto
qed

lemmas up_rules = hoare_wrap up_stamp up_delete hoare_seq_inv hoare_forEach_inv

lemma up_components:
  "hoare (\<lambda>v. clear_for w (store v)) (ReconcileRoleBindings c w version) (\<lambda>_ v. clear_for w (store v)) (\<lambda>_ _. False)"
  "hoare (\<lambda>v. clear_for w (store v)) (ReconcileServiceAccount c w version) (\<lambda>_ v. clear_for w (store v)) (\<lambda>_ _. False)"
  "hoare (\<lambda>v. clear_for w (store v)) (ReconcileResourceQuota c w version) (\<lambda>_ v. clear_for w (store v)) (\<lambda>_ _. False)"
  "hoare (\<lambda>v. clear_for w (store v)) (ReconcileLimitRange c w version) (\<lambda>_ v. clear_for w (store v)) (\<lambda>_ _. False)"
  "hoare (\<lambda>v. clear_for w (store v)) (ReconcileNetworkIsolation c w version) (\<lambda>_ v. clear_for w (store v)) (\<lambda>_ _. False)"
  unfolding ReconcileRoleBindings_def reconcileRoleBinding_def ReconcileServiceAccount_def ReconcileResourceQuota_def
    ReconcileLimitRange_def ReconcileNetworkIsolation_def Let_def ref_defs
  by (auto intro!: up_rules split: option.splits)

lemma up_helm:
  assumes "url_Parse url = Inr u"
  shows "hoare (\<lambda>v. clear_for w (store v)) (ReconcileHelmRepository c w version url) (\<lambda>_ v. clear_for w (store v)) (\<lambda>_ _. False)"
  unfolding ReconcileHelmRepository_def reconcileHelmSource_def buildHelmRepositoryURL_def helmRef_def
  using assms by (auto intro!: up_rules)

lemma up_get:
  "hoare (\<lambda>v. P (store v)) (kGet c r) (\<lambda>ob v. P (store v) \<and> store v r = Some ob) (\<lambda>e v. P (store v) \<and> IsNotFound e \<and> store v r = None)"
proof (rule hoareI)
  fix s :: "'s st" and e s'
  assume p: "P (store (world s))" and run: "kGet c r s = (Inl e, s')"
  have "IsNotFound e"
    using run get_up [of "world s" r] get_up_absent [of "world s" r]
    by (cases "store (world s) r"; cases "client_Get c r (world s)")
       (auto simp: kGet_def apiCall_def request_def)
  with p hoare_errD [OF hoare_kGet refl run] show "P (store (world s')) \<and> IsNotFound e \<and> store (world s') r = None" by simp
qed (use hoareD [OF hoare_kGet refl] in auto)

lemma up_config: "hoare (\<lambda>v. store v = \<sigma>) (operatorConfigData c) (\<lambda>_ v. store v = \<sigma>) (\<lambda>_ _. False)"
  unfolding operatorConfigData_def
  by (rule hoare_onResult [OF up_get [where P = "\<lambda>\<tau>. \<tau> = \<sigma>"]]) (auto intro!: hoare_ret hoare_fail)

lemma namespaceMutate_own:
  assumes "\<not> foreign w ob \<or> om_creationTimestamp (o_meta ob) = 0"
  obtains m where "om_owners m = om_owners (o_meta ob)"
    and "namespaceMutate c w version p ob = client_SetControllerReference c w (ob\<lparr>o_meta := m\<rparr>)"
proof -
  define m1 where "m1 = (o_meta ob)\<lparr>om_labels := om_labels (o_meta ob) ++\<^sub>f LabelsForWorkspace (ws_name w) version ++\<^sub>f podSecurityLabels\<rparr>"
  define m2 where "m2 = (if p \<noteq> [] then m1\<lparr>om_annotations := fmupd rancherProjectIDAnnotation p (om_annotations m1)\<rparr> else m1)"
  have "namespaceMutate c w version p ob = client_SetControllerReference c w (ob\<lparr>o_meta := m2\<rparr>)"
    using assms unfolding namespaceMutate_def foreign_def Let_def m1_def m2_def by auto
  then show ?thesis by (intro that [of m2]) (simp_all add: m1_def m2_def)
qed

lemma up_namespaceMutate:
  assumes "unobstructed w \<sigma>" and "\<not> (\<exists>ob. \<sigma> (namespaceRef (ws_namespace w)) = Some ob \<and> foreign w ob)"
  shows "\<exists>ob'. namespaceMutate c w version p (current \<sigma> (newObject (namespaceRef (ws_namespace w)))) = Inr ob' \<and> controllable_by (ws_uid w) ob'"
proof -
  let ?ob = "current \<sigma> (newObject (namespaceRef (ws_namespace w)))"
  have c: "controllable_by (ws_uid w) ?ob" by (rule unobstructed_current [OF assms(1)]) (simp add: own_ref_def)
  have f: "\<not> foreign w ?ob \<or> om_creationTimestamp (o_meta ?ob) = 0"
    using assms(2) by (cases "\<sigma> (namespaceRef (ws_namespace w))") (auto simp: current_newObject)
  have k: "controllable_by (ws_uid w) (?ob\<lparr>o_meta := m\<rparr>)" if "om_owners m = om_owners (o_meta ?ob)" for m
    using c that by (simp add: controllable_by_def)
  from f obtain m where "om_owners m = om_owners (o_meta ?ob)"
    and "namespaceMutate c w version p ?ob = client_SetControllerReference c w (?ob\<lparr>o_meta := m\<rparr>)"
    by (rule namespaceMutate_own)
  with k owner_free owner_kept show ?thesis by metis
qed

lemma up_namespace:
  assumes "unobstructed w \<sigma>" and "\<not> (\<exists>ob. \<sigma> (namespaceRef (ws_namespace w)) = Some ob \<and> foreign w ob)"
  shows "hoare (\<lambda>v. store v = \<sigma>) (ReconcileNamespace c w version)
    (\<lambda>_ v. clear_for w (store v) \<and> only_changes {namespaceRef (ws_namespace w)} \<sigma> (store v)) (\<lambda>_ _. False)"
  unfolding ReconcileNamespace_def Let_def
proof (rule hoare_andThen [OF up_config], rule hoare_wrap, rule hoareI)
  fix config and s :: "'s st" and x s'
  assume "store (world s) = \<sigma>"
    and "kCreateOrUpdate c (namespaceRef (ws_namespace w)) (namespaceMutate c w version (mapGet config RancherProjectIDKey)) s = (Inr x, s')"
  with hoareD [OF hoare_kCreateOrUpdate] obtain ob' st where
    "namespaceMutate c w version (mapGet config RancherProjectIDKey) (current \<sigma> (newObject (namespaceRef (ws_namespace w)))) = Inr ob'"
    and p: "persisted ob' st" and st: "store (world s') = \<sigma>(namespaceRef (ws_namespace w) := Some st)" by blast
  then have "controllable_by (ws_uid w) st"
    using up_namespaceMutate [OF assms, of version "mapGet config RancherProjectIDKey"] by (auto simp: persisted_controllable [OF p])
  with assms(1) st show "clear_for w (store (world s')) \<and> only_changes {namespaceRef (ws_namespace w)} \<sigma> (store (world s'))"
    by (auto simp: clear_for_def intro!: unobstructed_upd)
next
  fix config and s :: "'s st" and e s'
  assume "store (world s) = \<sigma>"
    and "kCreateOrUpdate c (namespaceRef (ws_namespace w)) (namespaceMutate c w version (mapGet config RancherProjectIDKey)) s = (Inl e, s')"
  with up_namespaceMutate [OF assms] show False by (metis kCreateOrUpdate_succeeds Inl_Inr_False Pair_inject)
qed

lemma up_credentials:
  "hoare (\<lambda>v. clear_for w (store v) \<and> credentials_in (store v) creds) (OperatorHarborCredentials c)
     (\<lambda>x v. clear_for w (store v) \<and> x = creds) (\<lambda>_ _. False)"
  unfolding OperatorHarborCredentials_def Let_def
  by (rule hoare_seq_wrapErr [OF up_get [where P = "\<lambda>\<sigma>. clear_for w \<sigma> \<and> credentials_in \<sigma> creds"]])
     (auto simp: credentials_in_def missingKeys_empty intro!: hoare_ret hoare_fail)

lemma up_harbor:
  assumes beside: "harbor_beside H scope store" and up: "harbor_up H"
  shows "hoare (\<lambda>v. clear_for w (store v)) (ReconcileHarbor c w version H url) (\<lambda>_ v. clear_for w (store v)) (\<lambda>_ _. False)"
proof -
  have answers: "hoare (\<lambda>v. clear_for w (store v)) m (\<lambda>_ v. clear_for w (store v)) (\<lambda>_ _. False)"
    if "keeps store m" and "outcome (\<lambda>_. True) (\<lambda>_. False) m" for m :: "('s, 'b) io"
    by (rule hoareI) (use keepsD [OF that(1)] outcomeD(2) [OF that(2)] in auto)
  note calls = answers [OF harbor_beside.keeps_project [OF beside]] answers [OF harbor_beside.keeps_members [OF beside]]
    answers [OF harbor_beside.keeps_ensure [OF beside]] answers [OF harbor_beside.keeps_refresh [OF beside]]
  have missing: "hoare (\<lambda>v. clear_for w (store v)) (imagePullSecretMissing c ns) (\<lambda>_ v. clear_for w (store v)) (\<lambda>_ _. False)" for ns
    unfolding imagePullSecretMissing_def
    by (rule hoare_onResult [OF up_get [where P = "clear_for w"]]) (auto intro!: hoare_ret hoare_fail)
  have sa: "\<exists>ob'. addPullSecret ob = Inr ob' \<and> controllable_by (ws_uid w) ob'" if "controllable_by (ws_uid w) ob" for ob
    using that by (simp add: addPullSecret_def controllable_by_def)
  show ?thesis
    unfolding ReconcileHarbor_def obtainCredentials_def reconcileImagePullSecret_def ensureImagePullSecret_def Let_def
      imagePullSecretRef_def defaultServiceAccountRef_def
    using up unfolding harbor_up_def
    by (auto intro!: hoare_seq_inv hoare_wrap calls missing hoare_ret up_stamp up_put [OF sa] split: option.splits)
qed

lemma up_updateStatus:
  assumes "r_Client r = c"
  shows "hoare (\<lambda>_. True) (updateStatus r w ms) (\<lambda>_ _. True) (\<lambda>_ _. False)"
proof -
  have o: "hoare (\<lambda>_. True) (observedRef r k n ns) (\<lambda>_ _. True) (\<lambda>_ _. False)" for k n ns
    unfolding observedRef_def assms
    by (rule hoare_onResult [OF up_get [where P = "\<lambda>_. True"]]) (auto intro!: hoare_ret hoare_fail)
  have p: "hoare (\<lambda>_. True) (patchIfChanged r w st) (\<lambda>_ _. True) (\<lambda>_ _. False)" for st
    using patch_up by (auto simp: hoare_def patchIfChanged_def assms andThen_def wrapErr_def onResult_def kPatchStatus_def
        apiCall_def request_def ret_def eventf_def split: prod.splits sum.splits) (metis Inl_Inr_False fst_conv)+
  then have "hoare (\<lambda>_. True) (\<lambda>s. patchIfChanged r w (f s) s) (\<lambda>_ _. True) (\<lambda>_ _. False)" for f
    by (simp add: hoare_def)
  then show ?thesis unfolding updateStatus_def by (intro hoare_andThen [OF o])
qed

end

interpretation mem_healthy: healthy_cluster mem_client mem_lookup
  by unfold_locales (auto simp: mem_client_def mem_SetControllerReference_def controllable_by_def list_all_iff split: if_splits)

lemma up_reconcileResources:
  assumes "healthy_cluster (r_Client r) store" and "harbor_sound r store" and "harbor_up (harborClient r creds)"
    and "url_Parse (hcr_URL creds) = Inr u" and "credentials_in \<sigma> creds" and "unobstructed w \<sigma>"
    and "\<not> (\<exists>ob. \<sigma> (namespaceRef (ws_namespace w)) = Some ob \<and> foreign w ob)"
  shows "hoare (\<lambda>v. store v = \<sigma>) (reconcileResources r w) (\<lambda>_ v. clear_for w (store v)) (\<lambda>_ _. False)"
proof -
  note up = healthy_cluster.up_components [OF assms(1)] healthy_cluster.up_helm [OF assms(1,4)]
  obtain scope where scope: "harbor_beside (harborClient r creds) scope store"
    using assms(2) unfolding harbor_sound_def by blast
  have "operatorSecretRef \<notin> {namespaceRef (ws_namespace w)}" by (simp add: operatorSecretRef_def)
  then have keep: "only_changes {namespaceRef (ws_namespace w)} \<sigma> \<tau> \<Longrightarrow> credentials_in \<tau> creds" for \<tau>
    using stableD [OF stable_credentials] assms(5) by blast
  have ns: "hoare (\<lambda>v. store v = \<sigma>) (ReconcileNamespace (r_Client r) w (r_Version r))
      (\<lambda>_ v. clear_for w (store v) \<and> credentials_in (store v) creds) (\<lambda>_ _. False)"
    by (rule hoare_conseq [OF healthy_cluster.up_namespace [OF assms(1,6,7)]]) (auto intro: keep)
  show ?thesis
    unfolding reconcileResources_def Let_def
    by (rule hoare_andThen [OF ns], rule hoare_andThen [OF healthy_cluster.up_credentials [OF assms(1)]], rule hoare_pure, simp,
        rule hoare_andThen [OF healthy_cluster.up_harbor [OF assms(1) scope assms(3)]],
        (rule hoare_andThen [OF up(6)] hoare_andThen [OF up(1)] hoare_andThen [OF up(2)] hoare_andThen [OF up(3)]
           hoare_andThen [OF up(4)] hoare_andThen [OF up(5)])+, rule hoare_ret)
qed

end
