(* ===== verification/Quiescence.thy ===== *)
theory Quiescence
  imports Controller
begin

text \<open>
  That the control loop comes to rest. A reconcile that has succeeded leaves a state in which the next one changes
  no object: every mutate function is at a fixed point there, nothing is left to delete, and the pull Secret is
  not rewritten once Harbor knows the robot. \<open>settling\<close> is that argument for one computation; it composes along the
  sequence of the components because their objects are different.
\<close>

section \<open>Computations that settle\<close>

text \<open>
  \<open>rests\<close>: from a state in \<open>F\<close>, the computation leaves the objects alone, whatever its result. \<open>K\<close> is a fact about the
  rest of the outside (here: Harbor has the robot) that has to survive until it is needed. \<open>settling R D\<close>: some
  \<open>F\<close>, a statement about the objects in \<open>D\<close>, holds after a successful run, which writes in \<open>R\<close> only, and is a state of rest.
\<close>

definition rests ::
    "('s \<Rightarrow> objref \<Rightarrow> Object option) \<Rightarrow> ('s \<Rightarrow> bool) \<Rightarrow> ((objref \<Rightarrow> Object option) \<Rightarrow> bool) \<Rightarrow> ('s, 'a) io \<Rightarrow> bool" where
  "rests store K F m \<longleftrightarrow> (\<forall>\<sigma>. F \<sigma> \<longrightarrow>
     hoare (\<lambda>v. store v = \<sigma> \<and> K v) m (\<lambda>_ v. store v = \<sigma> \<and> K v) (\<lambda>_ v. store v = \<sigma>))"

definition settling ::
    "('s \<Rightarrow> objref \<Rightarrow> Object option) \<Rightarrow> ('s \<Rightarrow> bool) \<Rightarrow> objref set \<Rightarrow> objref set \<Rightarrow> ('s, 'a) io \<Rightarrow> bool" where
  "settling store K R D m \<longleftrightarrow> (\<exists>F. runs_keeping store R m F \<and> rests store K F m \<and> stable (- D) F)"

lemma settlingI: "runs_keeping store R m F \<Longrightarrow> rests store K F m \<Longrightarrow> stable (- D) F \<Longrightarrow> settling store K R D m"
  unfolding settling_def by blast

lemma stable_mono: "stable R I \<Longrightarrow> R' \<subseteq> R \<Longrightarrow> stable R' I"
  unfolding stable_def by (meson only_changes_mono)

lemma runs_keepingD:
  "runs_keeping store R m F \<Longrightarrow> stable R I \<Longrightarrow> hoare (\<lambda>v. I (store v)) m (\<lambda>_ v. I (store v) \<and> F (store v)) (\<lambda>_ v. I (store v))"
  unfolding runs_keeping_def by blast

lemma restsD: "rests store K F m \<Longrightarrow> F \<sigma> \<Longrightarrow>
    hoare (\<lambda>v. store v = \<sigma> \<and> K v) m (\<lambda>_ v. store v = \<sigma> \<and> K v) (\<lambda>_ v. store v = \<sigma>)"
  unfolding rests_def by blast

lemma settling_ret: "settling store K R D (ret x)"
  by (rule settlingI [where F = "\<lambda>_. True"]) (auto simp: runs_keeping_def rests_def stable_def intro!: hoare_ret)

lemma settling_fail: "settling store K R D (fail e)"
  by (rule settlingI [where F = "\<lambda>_. True"]) (auto simp: runs_keeping_def rests_def stable_def intro!: hoare_fail)

lemma settling_wrap: "settling store K R D m \<Longrightarrow> settling store K R D (wrapErr f as m)"
  unfolding settling_def runs_keeping_def rests_def by (elim exE) (auto intro!: exI hoare_wrap)

lemma settling_seq:
  assumes "settling store K R1 D1 m" and "settling store K R2 D2 n" and "D1 \<inter> R2 = {}"
  shows "settling store K (R1 \<union> R2) (D1 \<union> D2) (andThen m (\<lambda>_. n))"
proof -
  obtain F where F: "runs_keeping store R1 m F" "rests store K F m" "stable (- D1) F"
    using assms(1) unfolding settling_def by blast
  obtain G where G: "runs_keeping store R2 n G" "rests store K G n" "stable (- D2) G"
    using assms(2) unfolding settling_def by blast
  have s: "stable R2 F" using stable_mono [OF F(3)] assms(3) by blast
  show ?thesis
  proof (rule settlingI [where F = "\<lambda>\<sigma>. F \<sigma> \<and> G \<sigma>"])
    show "runs_keeping store (R1 \<union> R2) (andThen m (\<lambda>_. n)) (\<lambda>\<sigma>. F \<sigma> \<and> G \<sigma>)"
      unfolding runs_keeping_def
    proof (intro allI impI)
      fix I
      assume I: "stable (R1 \<union> R2) I"
      have n: "hoare (\<lambda>v. I (store v) \<and> F (store v)) n (\<lambda>_ v. I (store v) \<and> F (store v) \<and> G (store v)) (\<lambda>_ v. I (store v))"
        by (rule hoare_conseq [OF runs_keepingD [OF G(1) stable_conj [OF stable_mono [OF I] s]]]) auto
      show "hoare (\<lambda>v. I (store v)) (andThen m (\<lambda>_. n)) (\<lambda>_ v. I (store v) \<and> F (store v) \<and> G (store v)) (\<lambda>_ v. I (store v))"
        by (rule runs_keeping_seq [where J = I, OF F(1) stable_mono [OF I] _ n]) auto
    qed
    show "rests store K (\<lambda>\<sigma>. F \<sigma> \<and> G \<sigma>) (andThen m (\<lambda>_. n))"
      unfolding rests_def by (auto intro: hoare_andThen restsD [OF F(2)] restsD [OF G(2)])
    show "stable (- (D1 \<union> D2)) (\<lambda>\<sigma>. F \<sigma> \<and> G \<sigma>)"
      by (intro stable_conj stable_mono [OF F(3)] stable_mono [OF G(3)]) auto
  qed
qed

lemma settling_forEach:
  assumes "\<And>x. x \<in> set xs \<Longrightarrow> settling store K {ref x} {ref x} (f x)" and "distinct (map ref xs)"
  shows "settling store K (ref ` set xs) (ref ` set xs) (forEach f xs)"
  using assms
proof (induction xs)
  case Nil
  show ?case by (simp add: settling_ret)
next
  case (Cons x xs)
  have "settling store K ({ref x} \<union> ref ` set xs) ({ref x} \<union> ref ` set xs) (andThen (f x) (\<lambda>_. forEach f xs))"
    by (rule settling_seq) (use Cons in auto)
  then show ?case by simp
qed

section \<open>The API server\<close>

text \<open>A mutate function that leaves alone what it has produced and the server has stored.\<close>

definition repeatable :: "(Object \<Rightarrow> error + Object) \<Rightarrow> bool" where
  "repeatable f \<longleftrightarrow> (\<forall>ob ob' st. f ob = Inr ob' \<longrightarrow> persisted ob' st \<longrightarrow> f st = Inr st)"

text \<open>
  \<open>CreateOrUpdate\<close> sends no update when the mutate function has left the object as it is; setting an owner that is set
  already changes nothing, and depends on the metadata of the owner only. Requests to the API server do not touch \<open>K\<close>.
\<close>

locale quiet_cluster = kube_cluster c store
  for c :: "'s client" and store :: "'s \<Rightarrow> objref \<Rightarrow> Object option" +
  fixes K :: "'s \<Rightarrow> bool"
  assumes write_same: "client_CreateOrUpdate c ob f s = (Inr u, s') \<Longrightarrow> store s (objref_of ob) = Some cur \<Longrightarrow> f cur = Inr cur \<Longrightarrow>
      store s' = store s"
    and owner_again: "client_SetControllerReference c w ob = Inr ob' \<Longrightarrow> om_owners (o_meta x) = om_owners (o_meta ob') \<Longrightarrow>
      client_SetControllerReference c w x = Inr x"
    and owner_meta: "ws_meta w = ws_meta w' \<Longrightarrow> client_SetControllerReference c w = client_SetControllerReference c w'"
    and get_K: "client_Get c r s = (a, s') \<Longrightarrow> K s' = K s"
    and get_workspace_K: "client_GetWorkspace c n s = (y, s') \<Longrightarrow> K s' = K s"
    and write_K: "client_CreateOrUpdate c ob f s = (b, s') \<Longrightarrow> K s' = K s"
    and delete_K: "client_Delete c r s = (d, s') \<Longrightarrow> K s' = K s"
begin

lemma keeps_K:
  "keeps K (kGet c r)" "keeps K (kCreateOrUpdate c r f)" "keeps K (kDelete c r)" "keeps K (ignoreNotFound (kDelete c r))"
  by (rule keepsI, auto simp: kube_defs request_def ignoreNotFound_def onResult_def ret_def fail_def
      split: prod.splits sum.splits if_splits dest: get_K write_K delete_K)+

lemma rests_kept:
  assumes "keeps K m" and "\<And>\<sigma>. F \<sigma> \<Longrightarrow> hoare (\<lambda>v. store v = \<sigma>) m (\<lambda>_ v. store v = \<sigma>) (\<lambda>_ v. store v = \<sigma>)"
  shows "rests store K F m"
  unfolding rests_def
proof (intro allI impI, rule hoareI)
  fix \<sigma> and s :: "'s st" and x s'
  assume "F \<sigma>" "store (world s) = \<sigma> \<and> K (world s)" "m s = (Inr x, s')"
  then show "store (world s') = \<sigma> \<and> K (world s')" using hoareD [OF assms(2)] keepsD [OF assms(1)] by blast
next
  fix \<sigma> and s :: "'s st" and e s'
  assume "F \<sigma>" "store (world s) = \<sigma> \<and> K (world s)" "m s = (Inl e, s')"
  then show "store (world s') = \<sigma>" using hoare_errD [OF assms(2)] by blast
qed

subsection \<open>One object\<close>

lemma put_rests:
  assumes "\<sigma> r = Some st" and "f st = Inr st"
  shows "hoare (\<lambda>v. store v = \<sigma>) (kCreateOrUpdate c r f) (\<lambda>_ v. store v = \<sigma>) (\<lambda>_ v. store v = \<sigma>)"
proof (rule hoareI)
  fix s :: "'s st" and u s'
  assume "store (world s) = \<sigma>" and "kCreateOrUpdate c r f s = (Inr u, s')"
  then show "store (world s') = \<sigma>"
    using write_same [of "newObject r" f "world s" u "world s'" st] assms
    by (auto simp: kCreateOrUpdate_def request_def split: prod.splits)
qed (use hoare_errD [OF hoare_kCreateOrUpdate] in blast)

lemma settling_put:
  assumes "repeatable f"
  shows "settling store K {r} {r} (kCreateOrUpdate c r f)"
proof (rule settlingI [where F = "\<lambda>\<sigma>. \<exists>st. \<sigma> r = Some st \<and> f st = Inr st"])
  show "runs_keeping store {r} (kCreateOrUpdate c r f) (\<lambda>\<sigma>. \<exists>st. \<sigma> r = Some st \<and> f st = Inr st)"
    unfolding runs_keeping_def
  proof (intro allI impI, rule hoareI)
    fix I and s :: "'s st" and u s'
    assume I: "stable {r} I" "I (store (world s))" and run: "kCreateOrUpdate c r f s = (Inr u, s')"
    from hoareD [OF hoare_kCreateOrUpdate refl run] obtain ob' st where
      st: "f (current (store (world s)) (newObject r)) = Inr ob'" "persisted ob' st" "store (world s') = (store (world s))(r := Some st)"
      by blast
    moreover have "only_changes {r} (store (world s)) ((store (world s))(r := Some st))" by (simp add: only_changes_def)
    ultimately show "I (store (world s')) \<and> (\<exists>st. store (world s') r = Some st \<and> f st = Inr st)"
      using I stableD assms unfolding repeatable_def by fastforce
  qed (use hoare_errD [OF hoare_kCreateOrUpdate refl] in auto)
  show "rests store K (\<lambda>\<sigma>. \<exists>st. \<sigma> r = Some st \<and> f st = Inr st) (kCreateOrUpdate c r f)"
    by (rule rests_kept [OF keeps_K(2)]) (use put_rests in blast)
qed (auto intro!: stableI dest: only_changesD)

lemma settling_delete: "settling store K {r} {r} (ignoreNotFound (kDelete c r))"
proof (rule settlingI [where F = "\<lambda>\<sigma>. \<sigma> r = None"])
  show "runs_keeping store {r} (ignoreNotFound (kDelete c r)) (\<lambda>\<sigma>. \<sigma> r = None)"
    unfolding runs_keeping_def
  proof (intro allI impI, rule hoareI)
    fix I and s :: "'s st" and u s'
    assume I: "stable {r} I" "I (store (world s))" and run: "ignoreNotFound (kDelete c r) s = (Inr u, s')"
    from hoareD [OF hoare_delete_ignoring_absence refl run] have st: "store (world s') = (store (world s))(r := None)" .
    moreover have "only_changes {r} (store (world s)) ((store (world s))(r := None))" by (simp add: only_changes_def)
    ultimately show "I (store (world s')) \<and> store (world s') r = None" using I stableD by fastforce
  qed (use hoare_errD [OF hoare_delete_ignoring_absence refl] in auto)
  show "rests store K (\<lambda>\<sigma>. \<sigma> r = None) (ignoreNotFound (kDelete c r))"
    by (rule rests_kept [OF keeps_K(4)], rule hoare_conseq [OF hoare_delete_ignoring_absence]) (auto simp: fun_upd_idem)
qed (auto intro!: stableI dest: only_changesD)

lemma stamp_repeatable:
  assumes "\<And>b. g (g b) = g b"
  shows "repeatable (stamp c w l g)"
  unfolding repeatable_def
proof (intro allI impI)
  fix ob ob' st
  assume f: "stamp c w l g ob = Inr ob'" and p: "persisted ob' st"
  have m: "om_labels (o_meta st) = l" "o_body st = g (o_body ob)"
    using stamp_result [OF f] p by (auto simp: persisted_def managed_def)
  then have "st\<lparr>o_meta := (o_meta st)\<lparr>om_labels := l\<rparr>, o_body := g (o_body st)\<rparr> = st" using assms by simp
  then show "stamp c w l g st = Inr st"
    using owner_again [OF f [unfolded stamp_def], of st] p by (simp add: stamp_def persisted_def)
qed

lemmas settling_stamp = settling_put [OF stamp_repeatable]

subsection \<open>The components\<close>

lemma settling_components:
  "settling store K (bindings_scope w) (bindings_scope w) (ReconcileRoleBindings c w version)"
  "settling store K (deployer_scope w) (deployer_scope w) (ReconcileServiceAccount c w version)"
  "settling store K {resourceQuotaRef w} {resourceQuotaRef w} (ReconcileResourceQuota c w version)"
  "settling store K {limitRangeRef w} {limitRangeRef w} (ReconcileLimitRange c w version)"
  "settling store K {networkPolicyRef w} {networkPolicyRef w} (ReconcileNetworkIsolation c w version)"
  "settling store K (helm_scope w) (helm_scope w) (ReconcileHelmRepository c w version url)"
proof -
  show "settling store K (bindings_scope w) (bindings_scope w) (ReconcileRoleBindings c w version)"
    unfolding ReconcileRoleBindings_def bindings_scope_def Let_def
    by (rule settling_forEach)
       (auto simp: reconcileRoleBinding_def Let_def roleBindingRef_def AllMemberRoles_def go_consts
          intro!: settling_wrap settling_stamp settling_delete)
  have "settling store K ({serviceAccountRef w} \<union> {serviceAccountBindingRef w}) ({serviceAccountRef w} \<union> {serviceAccountBindingRef w})
      (ReconcileServiceAccount c w version)"
    unfolding ReconcileServiceAccount_def
    by (rule settling_seq) (auto simp: ref_defs intro!: settling_wrap settling_stamp)
  then show "settling store K (deployer_scope w) (deployer_scope w) (ReconcileServiceAccount c w version)"
    by (simp add: deployer_scope_def insert_is_Un [of "serviceAccountRef w" "{_}"])
  show "settling store K {resourceQuotaRef w} {resourceQuotaRef w} (ReconcileResourceQuota c w version)"
    "settling store K {limitRangeRef w} {limitRangeRef w} (ReconcileLimitRange c w version)"
    "settling store K {networkPolicyRef w} {networkPolicyRef w} (ReconcileNetworkIsolation c w version)"
    unfolding ReconcileResourceQuota_def ReconcileLimitRange_def ReconcileNetworkIsolation_def
    by (auto intro!: settling_wrap settling_stamp settling_delete split: option.splits)
  show "settling store K (helm_scope w) (helm_scope w) (ReconcileHelmRepository c w version url)"
    unfolding ReconcileHelmRepository_def helm_scope_def
    by (rule settling_forEach [OF _ helmSources_refs])
       (auto simp: reconcileHelmSource_def intro!: settling_wrap settling_stamp settling_fail split: sum.splits)
qed

subsection \<open>The namespace\<close>

lemma namespaceMutate_repeatable: "repeatable (namespaceMutate c w version p)"
  unfolding repeatable_def
proof (intro allI impI)
  fix ob ob' st
  assume f: "namespaceMutate c w version p ob = Inr ob'" and st: "persisted ob' st"
  define add where "add m = m\<lparr>om_labels := om_labels m ++\<^sub>f LabelsForWorkspace (ws_name w) version ++\<^sub>f podSecurityLabels,
      om_annotations := (if p \<noteq> [] then fmupd rancherProjectIDAnnotation p (om_annotations m) else om_annotations m)\<rparr>" for m :: ObjectMeta
  have u: "namespaceMutate c w version p x = (if \<not> IsOwned (om_owners (o_meta x)) (ws_uid w) \<and> om_creationTimestamp (o_meta x) \<noteq> 0 \<and>
        \<not> (om_owners (o_meta x) = [] \<and> hasWorkspaceIdentityLabels (om_labels (o_meta x)) (ws_name w))
      then Inl (NamespaceConflictError (om_name (o_meta x))) else client_SetControllerReference c w (x\<lparr>o_meta := add (o_meta x)\<rparr>))" for x
    by (simp add: namespaceMutate_def Let_def add_def)
  from f have s: "client_SetControllerReference c w (ob\<lparr>o_meta := add (o_meta ob)\<rparr>) = Inr ob'"
    by (simp add: u split: if_splits)
  obtain rs where o: "ob' = ob\<lparr>o_meta := (add (o_meta ob))\<lparr>om_owners := rs\<rparr>\<rparr>" "owned_by (ws_uid w) ob'"
    using owner_set [OF s] by auto
  have l: "om_labels (o_meta st) = om_labels (add (o_meta ob))" "om_annotations (o_meta st) = om_annotations (add (o_meta ob))"
    using st o(1) by (auto simp: persisted_def)
  have twice: "x ++\<^sub>f y ++\<^sub>f z ++\<^sub>f y ++\<^sub>f z = x ++\<^sub>f y ++\<^sub>f z" for x y z :: strmap
    by (rule fmap_ext) simp
  have "om_labels (add (o_meta st)) = om_labels (o_meta st)" "om_annotations (add (o_meta st)) = om_annotations (o_meta st)"
    by (simp_all add: l) (simp_all add: add_def l twice)
  then have "add (o_meta st) = o_meta st" by (simp add: add_def)
  moreover have "IsOwned (om_owners (o_meta st)) (ws_uid w)"
    using o(2) st by (auto simp: persisted_def owned_by_def IsOwned_iff list_ex_iff)
  ultimately show "namespaceMutate c w version p st = Inr st"
    using owner_again [OF s, of st] st by (simp add: u persisted_def)
qed

definition namespace_rest :: "Workspace \<Rightarrow> string \<Rightarrow> (objref \<Rightarrow> Object option) \<Rightarrow> bool" where
  "namespace_rest w version \<sigma> \<longleftrightarrow> (\<exists>st. \<sigma> (namespaceRef (ws_namespace w)) = Some st \<and>
     namespaceMutate c w version (mapGet (config_of \<sigma>) RancherProjectIDKey) st = Inr st)"

lemma keeps_config: "keeps K (operatorConfigData c)"
  unfolding operatorConfigData_def by (intro keeps_rules keeps_K)

text \<open>Reading the configuration first, with the mutate function that it determines.\<close>

lemma ReconcileNamespace_with:
  assumes "hoare (\<lambda>v. store v = \<sigma>) (kCreateOrUpdate c (namespaceRef (ws_namespace w))
      (namespaceMutate c w version (mapGet (config_of \<sigma>) RancherProjectIDKey))) (\<lambda>_ v. Q (store v)) (\<lambda>_ v. E (store v))" and "E \<sigma>"
  shows "hoare (\<lambda>v. store v = \<sigma>) (ReconcileNamespace c w version) (\<lambda>_ v. Q (store v)) (\<lambda>_ v. E (store v))"
  unfolding ReconcileNamespace_def Let_def
proof (rule hoare_seq [OF hoare_operatorConfigData])
  fix m
  show "hoare (\<lambda>v. store v = \<sigma> \<and> m = config_of \<sigma>)
      (wrapErr ''reconciling Namespace %q: %w'' [ws_namespace w] (kCreateOrUpdate c (namespaceRef (ws_namespace w))
        (namespaceMutate c w version (mapGet m RancherProjectIDKey)))) (\<lambda>_ v. Q (store v)) (\<lambda>_ v. E (store v))"
    using hoare_wrap [OF assms(1)] by (cases "m = config_of \<sigma>") (simp_all, simp add: hoare_def)
qed (use assms(2) in auto)

lemma settling_namespace:
  "settling store K {namespaceRef (ws_namespace w)} {namespaceRef (ws_namespace w), operatorConfigRef} (ReconcileNamespace c w version)"
proof (rule settlingI [where F = "namespace_rest w version"])
  let ?r = "namespaceRef (ws_namespace w)" and ?f = "\<lambda>\<sigma>. namespaceMutate c w version (mapGet (config_of \<sigma>) RancherProjectIDKey)"
  have put: "hoare (\<lambda>v. store v = \<sigma>) (kCreateOrUpdate c ?r (?f \<sigma>))
      (\<lambda>_ v. I (store v) \<and> namespace_rest w version (store v)) (\<lambda>_ v. I (store v))" if I: "stable {?r} I" "I \<sigma>" for I \<sigma>
  proof (rule hoare_conseq [OF hoare_kCreateOrUpdate])
    fix v
    assume "\<exists>ob' st. ?f \<sigma> (current \<sigma> (newObject ?r)) = Inr ob' \<and> persisted ob' st \<and> store v = \<sigma>(?r := Some st)"
    then obtain st where st: "?f \<sigma> st = Inr st" "store v = \<sigma>(?r := Some st)"
      using namespaceMutate_repeatable unfolding repeatable_def by blast
    have "I (store v)" by (rule stableD [OF I(1) _ I(2)]) (use st(2) in \<open>simp add: only_changes_def\<close>)
    with st show "I (store v) \<and> namespace_rest w version (store v)"
      by (simp add: namespace_rest_def config_of_def operatorConfigRef_def)
  qed (use that in auto)
  show "runs_keeping store {?r} (ReconcileNamespace c w version) (namespace_rest w version)"
    unfolding runs_keeping_def
    by (intro allI impI hoareI)
       (blast dest: hoareD [OF ReconcileNamespace_with [OF put] refl] hoare_errD [OF ReconcileNamespace_with [OF put] refl])+
  have "hoare (\<lambda>v. store v = \<sigma>) (ReconcileNamespace c w version) (\<lambda>_ v. store v = \<sigma>) (\<lambda>_ v. store v = \<sigma>)"
    if "namespace_rest w version \<sigma>" for \<sigma>
    using that put_rests by (intro ReconcileNamespace_with) (auto simp: namespace_rest_def)
  then show "rests store K (namespace_rest w version) (ReconcileNamespace c w version)"
    by (intro rests_kept) (unfold ReconcileNamespace_def Let_def, intro keeps_rules keeps_K keeps_config)
  show "stable (- {?r, operatorConfigRef}) (namespace_rest w version)"
  proof (rule stableI)
    fix \<sigma> \<tau>
    assume o: "only_changes (- {?r, operatorConfigRef}) \<sigma> \<tau>" and "namespace_rest w version \<sigma>"
    moreover have "\<tau> ?r = \<sigma> ?r" "\<tau> operatorConfigRef = \<sigma> operatorConfigRef" using o by (auto dest: only_changesD)
    ultimately show "namespace_rest w version \<tau>" by (simp add: namespace_rest_def config_of_def)
  qed
qed

subsection \<open>Harbor\<close>

lemma hoare_answer:
  assumes "keeps store m" and "hoare K m (\<lambda>x v. K v \<and> P x) (\<lambda>_ _. True)"
  shows "hoare (\<lambda>v. store v = \<sigma> \<and> K v) m (\<lambda>x v. (store v = \<sigma> \<and> K v) \<and> P x) (\<lambda>_ v. store v = \<sigma>)"
  by (rule hoareI) (use keepsD [OF assms(1)] hoareD [OF assms(2)] in auto)

lemma missing_no:
  assumes "pull_ready w \<sigma>"
  shows "hoare (\<lambda>v. store v = \<sigma> \<and> K v) (imagePullSecretMissing c (ws_namespace w)) (\<lambda>b v. (store v = \<sigma> \<and> K v) \<and> \<not> b) (\<lambda>_ v. store v = \<sigma>)"
proof (rule hoareI)
  have k: "keeps K (imagePullSecretMissing c (ws_namespace w))"
    unfolding imagePullSecretMissing_def by (intro keeps_rules keeps_K)
  fix s :: "'s st" and b s'
  assume "store (world s) = \<sigma> \<and> K (world s)" and run: "imagePullSecretMissing c (ws_namespace w) s = (Inr b, s')"
  then show "(store (world s') = \<sigma> \<and> K (world s')) \<and> \<not> b"
    using hoareD [OF hoare_imagePullSecretMissing _ run] keepsD [OF k run] assms by (auto simp: pull_ready_def)
qed (use hoare_errD [OF hoare_imagePullSecretMissing] in blast)

end

text \<open>From now on Harbor has the robot, so \<open>EnsureRobot\<close> has no new secret to return.\<close>

definition robot_known :: "('s \<Rightarrow> bool) \<Rightarrow> 's HarborClient \<Rightarrow> string \<Rightarrow> bool" where
  "robot_known K H p \<longleftrightarrow> hoare K (EnsureProject H p) (\<lambda>_. K) (\<lambda>_ _. True) \<and>
     (\<forall>ds. hoare K (ReconcileProjectMembers H p ds) (\<lambda>_. K) (\<lambda>_ _. True)) \<and>
     hoare K (EnsureRobot H p p) (\<lambda>x v. K v \<and> x = None) (\<lambda>_ _. True)"

context quiet_cluster
begin

lemma rests_harbor:
  assumes beside: "harbor_beside H scope store" and known: "robot_known K H (ws_namespace w)"
  shows "rests store K (pull_ready w) (ReconcileHarbor c w version H url)"
  unfolding rests_def
proof (intro allI impI)
  fix \<sigma>
  assume p: "pull_ready w \<sigma>"
  let ?P = "\<lambda>v. store v = \<sigma> \<and> K v" and ?E = "\<lambda>_ v. store v = \<sigma>" and ?n = "ws_namespace w"
  note R = known [unfolded robot_known_def]
  have proj: "hoare ?P (EnsureProject H ?n) (\<lambda>_. ?P) ?E"
    using hoare_answer [OF harbor_beside.keeps_project [OF beside], where P = "\<lambda>_. True" and \<sigma> = \<sigma>] R by simp
  have mem: "hoare ?P (ReconcileProjectMembers H ?n ds) (\<lambda>_. ?P) ?E" for ds
    using hoare_answer [OF harbor_beside.keeps_members [OF beside], where P = "\<lambda>_. True" and \<sigma> = \<sigma>] R by simp
  have robot: "hoare ?P (EnsureRobot H ?n ?n) (\<lambda>x v. ?P v \<and> x = None) ?E"
    using hoare_answer [OF harbor_beside.keeps_ensure [OF beside], where P = "\<lambda>x. x = None" and \<sigma> = \<sigma>] R by simp
  have creds: "hoare ?P (obtainCredentials c H ?n ?n ?n) (\<lambda>x v. ?P v \<and> x = None) ?E"
    unfolding obtainCredentials_def
  proof (rule hoare_andThen [OF hoare_wrap [OF robot]], rule hoare_pure)
    fix x :: "RobotCredentials option"
    assume "x = None"
    then show "hoare ?P (if x = None then andThen (imagePullSecretMissing c ?n) (\<lambda>missing. if missing
          then wrapErr ''refreshing Harbor robot secret: %w'' [] (RefreshRobotSecret H ?n ?n) else ret x) else ret x)
        (\<lambda>x v. ?P v \<and> x = None) ?E"
      by (simp, intro hoare_andThen [OF missing_no [OF p]] hoare_pure) (auto intro: hoare_ret)
  qed
  obtain sa where sa: "\<sigma> (defaultServiceAccountRef ?n) = Some sa" "addPullSecret sa = Inr sa"
    using p by (auto simp: pull_ready_def addPullSecret_def)
  have "rests store K (\<lambda>\<tau>. \<tau> = \<sigma>) (ensureImagePullSecret c ?n)"
    unfolding ensureImagePullSecret_def
    by (rule rests_kept) (auto intro!: keeps_rules keeps_K hoare_wrap put_rests [where f = addPullSecret and \<sigma> = \<sigma>, OF sa])
  then have ens: "hoare ?P (ensureImagePullSecret c ?n) (\<lambda>_. ?P) ?E" by (simp add: rests_def)
  show "hoare ?P (ReconcileHarbor c w version H url) (\<lambda>_. ?P) ?E"
    unfolding ReconcileHarbor_def Let_def
    by (intro hoare_andThen [OF hoare_wrap [OF proj]] hoare_andThen [OF hoare_wrap [OF mem]] hoare_andThen [OF creds] hoare_pure)
       (auto intro!: hoare_andThen [OF ens] hoare_ret)
qed

subsection \<open>A whole run\<close>

definition tail_scope :: "Workspace \<Rightarrow> objref set" where
  "tail_scope w = helm_scope w \<union> (bindings_scope w \<union> (deployer_scope w \<union> ({resourceQuotaRef w} \<union> ({limitRangeRef w} \<union> {networkPolicyRef w}))))"

lemma tail_apart:
  "operatorSecretRef \<notin> tail_scope w" "tail_scope w \<inter> {namespaceRef (ws_namespace w), operatorConfigRef} = {}"
  "imagePullSecretRef (ws_namespace w) \<notin> tail_scope w" "defaultServiceAccountRef (ws_namespace w) \<notin> tail_scope w"
  by (auto simp: tail_scope_def ref_defs AllMemberRoles_def helmSources_def go_consts)

lemma settling_tail:
  "settling store K (tail_scope w) (tail_scope w) (forEach (\<lambda>x. fst (snd x)) (tail_steps c w version url))"
proof -
  note q = objects_apart [of "resourceQuotaRef w" w] objects_apart [of "limitRangeRef w" w] objects_apart [of "networkPolicyRef w" w]
  have "settling store K (tail_scope w \<union> {}) (tail_scope w \<union> {})
      (andThen (ReconcileHelmRepository c w version url) (\<lambda>_. andThen (ReconcileRoleBindings c w version) (\<lambda>_.
       andThen (ReconcileServiceAccount c w version) (\<lambda>_. andThen (ReconcileResourceQuota c w version) (\<lambda>_.
       andThen (ReconcileLimitRange c w version) (\<lambda>_. andThen (ReconcileNetworkIsolation c w version) (\<lambda>_. ret ())))))))"
    unfolding tail_scope_def Un_assoc
    by (intro settling_seq settling_components settling_ret) (use q scopes_apart [of w] in auto)
  then show ?thesis by (simp add: tail_steps_def)
qed

lemma credentials_unique: "credentials_in \<sigma> a \<Longrightarrow> credentials_in \<sigma> b \<Longrightarrow> a = b"
  by (auto simp: credentials_in_def)

lemma keeps_credentials: "keeps K (OperatorHarborCredentials c)"
  unfolding OperatorHarborCredentials_def Let_def by (intro keeps_rules keeps_K)

lemma credentials_again:
  assumes "credentials_in \<sigma> creds"
  shows "hoare (\<lambda>v. store v = \<sigma> \<and> K v) (OperatorHarborCredentials c) (\<lambda>x v. (store v = \<sigma> \<and> K v) \<and> x = creds) (\<lambda>_ v. store v = \<sigma>)"
proof (rule hoareI)
  fix s :: "'s st" and x s'
  assume "store (world s) = \<sigma> \<and> K (world s)" and run: "OperatorHarborCredentials c s = (Inr x, s')"
  then show "(store (world s') = \<sigma> \<and> K (world s')) \<and> x = creds"
    using hoareD [OF hoare_OperatorHarborCredentials _ run] keepsD [OF keeps_credentials run] credentials_unique assms by blast
qed (use hoare_errD [OF hoare_OperatorHarborCredentials] in blast)

text \<open>
  A run as a sequence of three parts: the namespace (resting in \<open>N\<close>), Harbor, and the remaining components (resting in
  \<open>T url\<close>, for the Harbor address in the operator's Secret).
\<close>

lemma reach_rest:
  assumes N: "runs_keeping store {namespaceRef (ws_namespace w)} (ReconcileNamespace c w version) N"
    and sN: "stable (- {namespaceRef (ws_namespace w), operatorConfigRef}) N"
    and T: "\<And>url. runs_keeping store (tail_scope w) (tail url) (T url)" and H: "\<And>creds. \<exists>scope. harbor_beside (H creds) scope store"
  shows "hoare (\<lambda>_. True) (andThen (ReconcileNamespace c w version) (\<lambda>_. andThen (OperatorHarborCredentials c) (\<lambda>creds.
      andThen (ReconcileHarbor c w version (H creds) (hcr_URL creds)) (\<lambda>ms. andThen (tail (hcr_URL creds)) (\<lambda>_. ret ms)))))
    (\<lambda>_ v. N (store v) \<and> pull_ready w (store v) \<and> (\<exists>creds. credentials_in (store v) creds \<and> T (hcr_URL creds) (store v))) (\<lambda>_ _. True)"
    (is "hoare _ _ (\<lambda>_ v. ?F (store v)) _")
proof -
  have t: "hoare (\<lambda>v. (N (store v) \<and> credentials_in (store v) creds) \<and> pull_ready w (store v))
      (andThen (tail (hcr_URL creds)) (\<lambda>_. ret ms)) (\<lambda>_ v. ?F (store v)) (\<lambda>_ _. True)" for creds and ms :: "string list"
  proof (rule runs_keeping_seq [where J = "\<lambda>_. True", OF T])
    show "stable (tail_scope w) (\<lambda>\<sigma>. (N \<sigma> \<and> credentials_in \<sigma> creds) \<and> pull_ready w \<sigma>)"
      using tail_apart [of w] by (intro stable_conj stable_mono [OF sN] stable_credentials stable_pull_ready) auto
  qed (auto intro: hoare_ret)
  have h: "hoare (\<lambda>v. N (store v) \<and> credentials_in (store v) creds)
      (andThen (ReconcileHarbor c w version (H creds) (hcr_URL creds)) (\<lambda>ms. andThen (tail (hcr_URL creds)) (\<lambda>_. ret ms)))
      (\<lambda>_ v. ?F (store v)) (\<lambda>_ _. True)" for creds
  proof -
    obtain scope where "harbor_beside (H creds) scope store" using H by blast
    from runs_harbor [OF this] show ?thesis
    proof (rule runs_keeping_seq [where J = "\<lambda>_. True", OF _ _ _ t])
      show "stable (harbor_scope w) (\<lambda>\<sigma>. N \<sigma> \<and> credentials_in \<sigma> creds)"
        using scopes_apart(1) [of w] secret_apart(1) [of w]
        by (intro stable_conj stable_mono [OF sN] stable_credentials) auto
    qed simp
  qed
  have "hoare (\<lambda>v. True \<and> N (store v)) (andThen (OperatorHarborCredentials c) (\<lambda>creds.
      andThen (ReconcileHarbor c w version (H creds) (hcr_URL creds)) (\<lambda>ms. andThen (tail (hcr_URL creds)) (\<lambda>_. ret ms))))
      (\<lambda>_ v. ?F (store v)) (\<lambda>_ _. True)"
    using hoare_credentials_keeping [where I = N and J = "\<lambda>_. True", OF h] by simp
  then show ?thesis by (intro runs_keeping_seq [where I = "\<lambda>_. True" and J = "\<lambda>_. True", OF N]) (auto intro: stableI)
qed

lemma stay_at_rest:
  assumes N: "rests store K N (ReconcileNamespace c w version)" and T: "\<And>url. rests store K (T url) (tail url)"
    and H: "\<And>creds. \<exists>scope. harbor_beside (H creds) scope store" and known: "\<And>creds. robot_known K (H creds) (ws_namespace w)"
  shows "rests store K (\<lambda>\<sigma>. N \<sigma> \<and> pull_ready w \<sigma> \<and> (\<exists>creds. credentials_in \<sigma> creds \<and> T (hcr_URL creds) \<sigma>))
    (andThen (ReconcileNamespace c w version) (\<lambda>_. andThen (OperatorHarborCredentials c) (\<lambda>creds.
      andThen (ReconcileHarbor c w version (H creds) (hcr_URL creds)) (\<lambda>ms. andThen (tail (hcr_URL creds)) (\<lambda>_. ret ms)))))"
  unfolding rests_def
proof (intro allI impI, elim conjE exE)
  fix \<sigma> creds
  assume n: "N \<sigma>" and p: "pull_ready w \<sigma>" and cr: "credentials_in \<sigma> creds" and t: "T (hcr_URL creds) \<sigma>"
  obtain scope where "harbor_beside (H creds) scope store" using H by blast
  note h = restsD [OF rests_harbor [OF this known] p]
  have rest: "hoare (\<lambda>v. store v = \<sigma> \<and> K v)
      (andThen (ReconcileHarbor c w version (H creds) (hcr_URL creds)) (\<lambda>ms. andThen (tail (hcr_URL creds)) (\<lambda>_. ret ms)))
      (\<lambda>_ v. store v = \<sigma> \<and> K v) (\<lambda>_ v. store v = \<sigma>)"
    by (intro hoare_andThen [OF h] hoare_andThen [OF restsD [OF T t]] hoare_ret) simp
  show "hoare (\<lambda>v. store v = \<sigma> \<and> K v) (andThen (ReconcileNamespace c w version) (\<lambda>_. andThen (OperatorHarborCredentials c) (\<lambda>creds.
      andThen (ReconcileHarbor c w version (H creds) (hcr_URL creds)) (\<lambda>ms. andThen (tail (hcr_URL creds)) (\<lambda>_. ret ms)))))
      (\<lambda>_ v. store v = \<sigma> \<and> K v) (\<lambda>_ v. store v = \<sigma>)"
    by (intro hoare_andThen [OF restsD [OF N n]] hoare_andThen [OF credentials_again [OF cr]] hoare_pure) (simp add: rest)
qed

lemma resources_rest:
  assumes client: "r_Client r = c" and harbor: "harbor_sound r store"
    and known: "\<And>creds. robot_known K (harborClient r creds) (ws_namespace w)"
  obtains F where "hoare (\<lambda>_. True) (reconcileResources r w) (\<lambda>_ v. F (store v)) (\<lambda>_ _. True)"
    and "rests store K F (reconcileResources r w)"
proof -
  let ?v = "r_Version r"
  obtain N where N: "runs_keeping store {namespaceRef (ws_namespace w)} (ReconcileNamespace c w ?v) N"
    "rests store K N (ReconcileNamespace c w ?v)" "stable (- {namespaceRef (ws_namespace w), operatorConfigRef}) N"
    using settling_namespace unfolding settling_def by blast
  have "\<forall>url. \<exists>F. runs_keeping store (tail_scope w) (forEach (\<lambda>x. fst (snd x)) (tail_steps c w ?v url)) F \<and>
      rests store K F (forEach (\<lambda>x. fst (snd x)) (tail_steps c w ?v url))"
    using settling_tail [of w ?v] unfolding settling_def by blast
  then obtain T where T: "\<And>url. runs_keeping store (tail_scope w) (forEach (\<lambda>x. fst (snd x)) (tail_steps c w ?v url)) (T url)"
    "\<And>url. rests store K (T url) (forEach (\<lambda>x. fst (snd x)) (tail_steps c w ?v url))" by metis
  have H: "\<exists>scope. harbor_beside (harborClient r creds) scope store" for creds
    using harbor unfolding harbor_sound_def by blast
  note run = reconcileResources_steps [of r w, unfolded client]
  let ?F = "\<lambda>\<sigma>. N \<sigma> \<and> pull_ready w \<sigma> \<and> (\<exists>creds. credentials_in \<sigma> creds \<and> T (hcr_URL creds) \<sigma>)"
  show ?thesis
  proof (rule that [of ?F])
    show "hoare (\<lambda>_. True) (reconcileResources r w) (\<lambda>_ v. ?F (store v)) (\<lambda>_ _. True)"
      unfolding run by (rule reach_rest [OF N(1,3) T(1) H])
    show "rests store K ?F (reconcileResources r w)"
      unfolding run by (rule stay_at_rest [OF N(2) T(2) H known])
  qed
qed

text \<open>The status of the workspace plays no part in what is written.\<close>

lemma resources_status_free:
  assumes "r_Client r = c" and "ws_meta w' = ws_meta w" and "ws_spec w' = ws_spec w"
  shows "reconcileResources r w' = reconcileResources r w"
proof -
  have o: "client_SetControllerReference c w' = client_SetControllerReference c w" by (rule owner_meta [OF assms(2)])
  have n: "namespaceMutate c w' version p = namespaceMutate c w version p" for version p
    by (rule ext) (simp add: namespaceMutate_def assms o Let_def)
  have s: "stamp c w' l g = stamp c w l g" for l g by (rule ext) (simp add: stamp_def o)
  show ?thesis
    unfolding reconcileResources_def ReconcileNamespace_def ReconcileHarbor_def reconcileImagePullSecret_def
      ReconcileHelmRepository_def reconcileHelmSource_def helmSources_def helmLabels_def ReconcileRoleBindings_def reconcileRoleBinding_def
      ReconcileServiceAccount_def deployerSubject_def ReconcileResourceQuota_def ReconcileLimitRange_def ReconcileNetworkIsolation_def
      isolationPolicy_def ref_defs Let_def assms n s by simp
qed

end

text \<open>The in-memory API server, beside any other state.\<close>

interpretation mem_quiet: quiet_cluster mem_client mem_lookup "\<lambda>s. K (mem.more s)" for K
proof
  fix ob f s u s' cur
  assume run: "client_CreateOrUpdate mem_client ob f s = (Inr u, s')" and cur: "mem_lookup s (objref_of ob) = Some cur" "f cur = Inr cur"
  have t: "om_creationTimestamp (o_meta cur) \<noteq> 0" by (rule mem_server.stored_created [OF cur(1)])
  then have "mem_objs s' = (mem_objs s)(objref_of ob := Some cur)"
    using run cur by (auto simp: mem_client_def mem_CreateOrUpdate_def current_def mem_persist_def split: if_splits)
  from mem_lookup_upd [OF t this] cur(1) show "mem_lookup s' = mem_lookup s" by (simp add: fun_upd_idem)
next
  fix w ob ob' and x :: Object
  let ?keep = "filter (\<lambda>r. or_uid r \<noteq> ws_uid w)" and ?own = "\<lparr>or_uid = ws_uid w, or_name = ws_name w, or_controller = True\<rparr>"
  assume "client_SetControllerReference mem_client w ob = Inr ob'" and "om_owners (o_meta x) = om_owners (o_meta ob')"
  then have o: "om_owners (o_meta x) = ?keep (om_owners (o_meta ob)) @ [?own]" and c: "controllable_by (ws_uid w) ob"
    by (auto simp: mem_client_def mem_SetControllerReference_def split: if_splits)
  have "controllable_by (ws_uid w) x" using c by (auto simp: controllable_by_def o list_all_iff)
  moreover have "?keep (om_owners (o_meta x)) @ [?own] = om_owners (o_meta x)" by (simp add: o)
  ultimately show "client_SetControllerReference mem_client w x = Inr x"
    by (simp add: mem_client_def mem_SetControllerReference_def)
qed (auto simp: mem_client_def mem_Get_def mem_GetWorkspace_def mem_CreateOrUpdate_def mem_Delete_def mem_SetControllerReference_def
      split: option.splits sum.splits if_splits)

end
