(* ===== verification/Harbor_Server.thy ===== *)
theory Harbor_Server
  imports Harbor_Client
begin

text \<open>
  The other side of the Harbor client: what Harbor's REST API promises about the members of a project, as the
  locale \<open>harbor_members\<close>, and what \<open>ReconcileProjectMembers\<close> achieves against a server that keeps the promise. An
  in-memory Harbor that reads the URLs and JSON bodies the client writes interprets the locale.
\<close>

section \<open>The contract of the member endpoints\<close>

type_synonym membership = "string \<rightharpoonup> int \<times> int"

definition setRole :: "int \<Rightarrow> int \<Rightarrow> membership \<Rightarrow> membership" where
  "setRole i role M = (\<lambda>u. map_option (\<lambda>(j, r). if j = i then (j, role) else (j, r)) (M u))"

definition dropMember :: "int \<Rightarrow> membership \<Rightarrow> membership" where
  "dropMember i M = (\<lambda>u. case M u of None \<Rightarrow> None | Some (j, r) \<Rightarrow> if j = i then None else Some (j, r))"

definition membership_of :: "existingMember list \<Rightarrow> membership" where
  "membership_of ms = map_of (map (\<lambda>m. (em_Username m, em_ID m, em_RoleID m)) ms)"

text \<open>
  \<open>members v\<close> maps the members of the project to their member id and role, \<open>users v\<close> are the users Harbor has,
  \<open>intact v\<close> says that Harbor's data are consistent. Harbor pages its listings: a project of at most \<open>page\<close> members
  is listed whole. Adding answers 201, 409 for a member and 404 for an unknown user; updating and deleting are
  addressed by member id.
\<close>

locale harbor_members =
  fixes tr :: "'s transport" and c :: httpClient and project :: string
    and members :: "'s \<Rightarrow> membership" and users :: "'s \<Rightarrow> string set" and intact :: "'s \<Rightarrow> bool"
    and page :: nat
  assumes lists: "intact v \<Longrightarrow> card (dom (members v)) \<le> page \<Longrightarrow> tr_Do tr (httpRequest c MethodGet (membersPath project) None) v = (Inr resp, v') \<Longrightarrow>
      StatusCode resp = StatusOK \<Longrightarrow> decodeMemberList (Body resp) = Inr ms \<Longrightarrow>
      intact v' \<and> members v' = members v \<and> users v' = users v \<and> distinct (map em_Username ms) \<and> membership_of ms = members v"
    and adds: "intact v \<Longrightarrow> valid_utf8 u \<Longrightarrow>
      tr_Do tr (httpRequest c MethodPost (membersPath project) (Some (Marshal (addMemberBody u role)))) v = (Inr resp, v') \<Longrightarrow>
      (StatusCode resp = StatusCreated \<longrightarrow> intact v' \<and> users v' = users v \<and> u \<in> users v \<and> members v u = None \<and>
         (\<exists>i. members v' = (members v)(u \<mapsto> (i, role)))) \<and>
      (StatusCode resp = StatusConflict \<longrightarrow> intact v' \<and> users v' = users v \<and> members v u \<noteq> None \<and> members v' = members v) \<and>
      (StatusCode resp = StatusNotFound \<longrightarrow> intact v' \<and> users v' = users v \<and> u \<notin> users v \<and> members v' = members v)"
    and updates: "intact v \<Longrightarrow>
      tr_Do tr (httpRequest c MethodPut (memberPath (membersPath project) i) (Some (Marshal (goMap [(''role_id'', JInt role)])))) v = (Inr resp, v') \<Longrightarrow>
      StatusCode resp = StatusOK \<Longrightarrow> intact v' \<and> users v' = users v \<and> members v' = setRole i role (members v)"
    and deletes: "intact v \<Longrightarrow>
      tr_Do tr (httpRequest c MethodDelete (memberPath (membersPath project) i) None) v = (Inr resp, v') \<Longrightarrow>
      StatusCode resp = StatusOK \<Longrightarrow> intact v' \<and> users v' = users v \<and> members v' = dropMember i (members v)"
    and unique_ids: "intact v \<Longrightarrow> members v a = Some (i, r) \<Longrightarrow> members v b = Some (i, r') \<Longrightarrow> a = b"
    and known_users: "intact v \<Longrightarrow> dom (members v) \<subseteq> users v"
    and visits_all: "set (tr_MapOrder tr v ks) = set ks"

section \<open>What the loop has achieved so far\<close>

definition roles_of :: "ProjectMember list \<Rightarrow> string \<rightharpoonup> int" where
  "roles_of ds = map_of (map (\<lambda>d. (pm_Username d, pm_RoleID d)) ds)"

text \<open>
  After the entries \<open>ds\<close>: a user among them has the role of the first entry for it, unless Harbor does not have
  the user; everybody else is as at the start (\<open>M0\<close>) and still in the lookup \<open>E\<close>.
\<close>

definition synced_at :: "membership \<Rightarrow> string set \<Rightarrow> ProjectMember list \<Rightarrow> string list \<Rightarrow>
    (string \<times> existingMember) list \<Rightarrow> membership \<Rightarrow> string \<Rightarrow> bool" where
  "synced_at M0 U ds missing E M u \<longleftrightarrow>
     (if u \<in> pm_Username ` set ds
      then map_of E u = None \<and> (u \<in> set missing \<longleftrightarrow> u \<notin> U) \<and>
           map_option snd (M u) = (if u \<in> U then roles_of ds u else None)
      else u \<notin> set missing \<and> M u = M0 u \<and> map_option (\<lambda>m. (em_ID m, em_RoleID m)) (map_of E u) = M0 u)"

definition synced :: "membership \<Rightarrow> string set \<Rightarrow> ProjectMember list \<Rightarrow> string list \<Rightarrow>
    (string \<times> existingMember) list \<Rightarrow> membership \<Rightarrow> bool" where
  "synced M0 U ds missing E M \<longleftrightarrow> (\<forall>u. synced_at M0 U ds missing E M u)"

lemma roles_of_snoc:
  "roles_of (ds @ [d]) u = (case roles_of ds u of Some r \<Rightarrow> Some r | None \<Rightarrow> if u = pm_Username d then Some (pm_RoleID d) else None)"
  by (auto simp: roles_of_def map_add_def split: option.splits)

lemma roles_of_None: "roles_of ds u = None \<longleftrightarrow> u \<notin> pm_Username ` set ds"
  by (simp add: roles_of_def map_of_eq_None_iff image_image)

lemma roles_of_new:
  "pm_Username d \<notin> pm_Username ` set ds \<Longrightarrow> roles_of (ds @ [d]) u = (if u = pm_Username d then Some (pm_RoleID d) else roles_of ds u)"
  using roles_of_None [of ds "pm_Username d"] by (auto simp: roles_of_snoc split: option.splits)

lemma roles_of_old: "pm_Username d \<in> pm_Username ` set ds \<or> u \<noteq> pm_Username d \<Longrightarrow> roles_of (ds @ [d]) u = roles_of ds u"
  using roles_of_None [of ds "pm_Username d"] by (auto simp: roles_of_snoc split: option.splits)

lemma names_snoc: "u \<in> pm_Username ` set (ds @ [d]) \<longleftrightarrow> u = pm_Username d \<or> u \<in> pm_Username ` set ds"
  by auto

lemma synced_same:
  assumes "synced M0 U ds missing E M" and "pm_Username d \<in> pm_Username ` set ds"
  shows "synced M0 U (ds @ [d]) missing E M"
  using assms unfolding synced_def synced_at_def names_snoc roles_of_old [OF disjI1 [OF assms(2)]] by metis

lemma synced_found:
  assumes "\<And>u. synced_at M0 U ds missing E M u" and "map_of E (pm_Username d) = Some cur" and "pm_Username d \<in> U"
  shows "synced_at M0 U (ds @ [d]) missing (AList.delete (pm_Username d) E) (M(pm_Username d \<mapsto> (em_ID cur, pm_RoleID d))) u"
proof -
  have new: "pm_Username d \<notin> pm_Username ` set ds"
    using assms(1) [of "pm_Username d"] assms(2) by (auto simp: synced_at_def)
  show ?thesis
    using assms(1) [of u] new assms(3) unfolding synced_at_def names_snoc roles_of_new [OF new]
    by (auto simp: delete_conv split: if_splits)
qed

lemma synced_added:
  assumes "\<And>u. synced_at M0 U ds missing E M u" and "M (pm_Username d) = None" and "pm_Username d \<in> U"
    and "map_of E (pm_Username d) = None"
  shows "synced_at M0 U (ds @ [d]) missing E (M(pm_Username d \<mapsto> (i, pm_RoleID d))) u"
proof -
  have new: "pm_Username d \<notin> pm_Username ` set ds"
    using assms(1) [of "pm_Username d"] assms(2,3) roles_of_None [of ds "pm_Username d"] by (auto simp: synced_at_def)
  show ?thesis
    using assms(1) [of u] new assms(3,4) unfolding synced_at_def names_snoc roles_of_new [OF new]
    by (auto split: if_splits)
qed

lemma synced_missing:
  assumes "synced_at M0 U ds missing E M u" and "pm_Username d \<notin> U" and "dom M \<subseteq> U" and "map_of E (pm_Username d) = None"
  shows "synced_at M0 U (ds @ [d]) (missing @ [pm_Username d]) E M u"
proof -
  have m: "M (pm_Username d) = None" using assms(2,3) by auto
  have r: "u \<noteq> pm_Username d \<Longrightarrow> roles_of (ds @ [d]) u = roles_of ds u" by (simp add: roles_of_old)
  show ?thesis
    using assms(1,2,4) m r unfolding synced_at_def names_snoc
    by (cases "u = pm_Username d") (auto split: if_splits)
qed

section \<open>Calls and loops against such a server\<close>

lemma hoare_http_do:
  assumes "\<And>v resp v'. P v \<Longrightarrow> tr_Do tr (httpRequest c m path body) v = (Inr resp, v') \<Longrightarrow> Q resp v'"
  shows "hoare P (http_do tr c m path body) Q (\<lambda>e _. \<not> IsErrUserNotFound e)"
proof (cases "url_Parse (hc_baseURL c @ path)")
  case (Inl err)
  then have "\<not> IsErrUserNotFound err"
    by (auto simp: url_Parse_def split: prod.splits option.splits if_splits)
  with Inl show ?thesis by (simp add: http_do_def hoare_fail)
next
  case (Inr url)
  show ?thesis
  proof (rule hoareI)
    fix s resp s'
    assume "P (world s)" and "http_do tr c m path body s = (Inr resp, s')"
    then show "Q resp (world s')" using assms [of "world s"] Inr
      by (cases "tr_Do tr (httpRequest c m path body) (world s)"; cases "fst (tr_Do tr (httpRequest c m path body) (world s))")
         (auto simp: http_do_def request_def Let_def)
  next
    fix s e s'
    assume "P (world s)" and "http_do tr c m path body s = (Inl e, s')"
    then show "\<not> IsErrUserNotFound e" using Inr
      by (cases "tr_Do tr (httpRequest c m path body) (world s)"; cases "fst (tr_Do tr (httpRequest c m path body) (world s))")
         (auto simp: http_do_def request_def Let_def)
  qed
qed

lemma membersByName_map_of:
  assumes "distinct (map em_Username ms)"
  shows "map_option (\<lambda>m. (em_ID m, em_RoleID m)) (map_of (membersByName ms) u) = membership_of ms u"
proof -
  have "map_of (foldl (\<lambda>m e. AList.update (em_Username e) e m) al ms) u =
      (case map_of (rev (map (\<lambda>e. (em_Username e, e)) ms)) u of Some e \<Rightarrow> Some e | None \<Rightarrow> map_of al u)" for al
    by (induction ms arbitrary: al) (auto simp: update_conv map_add_def split: option.splits)
  from this [of "[]"] have "map_of (membersByName ms) u = map_of (rev (map (\<lambda>e. (em_Username e, e)) ms)) u"
    by (auto simp: membersByName_def split: option.splits)
  also have "\<dots> = map_of (map (\<lambda>e. (em_Username e, e)) ms) u"
    using assms by (subst map_of_inject_set [THEN iffD2]) (simp_all add: comp_def rev_map [symmetric])
  moreover have "map_option (\<lambda>m. (em_ID m, em_RoleID m)) (map_of (map (\<lambda>e. (em_Username e, e)) ms) u) = membership_of ms u"
    by (induction ms) (auto simp: membership_of_def)
  ultimately show ?thesis by simp
qed

lemma synced_start:
  assumes "distinct (map em_Username ms)" and "membership_of ms = M"
  shows "synced M U [] [] (membersByName ms) M"
  using membersByName_map_of [OF assms(1)] assms(2) by (simp add: synced_def synced_at_def)

text \<open>What is left in the lookup when every entry has been handled is exactly what has to go.\<close>

lemma synced_final:
  assumes "synced M0 U ds missing E M" and "dom M \<subseteq> U"
  shows "map_option snd (if u \<in> fst ` set E then None else M u) = (if u \<in> U then roles_of ds u else None)"
    and "set missing = pm_Username ` set ds - U"
proof -
  have "u \<in> fst ` set E \<longleftrightarrow> map_of E u \<noteq> None" by (simp add: map_of_eq_None_iff)
  then show "map_option snd (if u \<in> fst ` set E then None else M u) = (if u \<in> U then roles_of ds u else None)"
    using assms(1) roles_of_None [of ds u] unfolding synced_def synced_at_def by (smt (verit) option.map_disc_iff option.simps(8))
  show "set missing = pm_Username ` set ds - U"
  proof (rule set_eqI)
    fix u
    show "u \<in> set missing \<longleftrightarrow> u \<in> pm_Username ` set ds - U"
      using assms(1) unfolding synced_def synced_at_def by (cases "u \<in> pm_Username ` set ds") auto
  qed
qed

context harbor_members
begin

definition at :: "membership \<Rightarrow> string set \<Rightarrow> 's \<Rightarrow> bool" where
  "at M U v \<longleftrightarrow> intact v \<and> members v = M \<and> users v = U"

lemma at_facts: "at M U v \<Longrightarrow> dom M \<subseteq> U" "at M U v \<Longrightarrow> M a = Some (i, r) \<Longrightarrow> M b = Some (i, r') \<Longrightarrow> a = b"
  using known_users unique_ids unfolding at_def by blast+

lemma hoare_add:
  assumes "valid_utf8 u"
  shows "hoare (at M U) (addProjectMember tr c (membersPath project) u role)
    (\<lambda>_ v. M u = None \<and> u \<in> U \<and> (\<exists>i. at (M(u \<mapsto> (i, role))) U v) \<or> M u \<noteq> None \<and> at M U v)
    (\<lambda>e v. IsErrUserNotFound e \<longrightarrow> u \<notin> U \<and> at M U v)"
  unfolding addProjectMember_def doJSON_def
proof (rule hoare_seq [OF hoare_http_do [where Q = "\<lambda>resp v'.
    (StatusCode resp = StatusCreated \<longrightarrow> M u = None \<and> u \<in> U \<and> (\<exists>i. at (M(u \<mapsto> (i, role))) U v')) \<and>
    (StatusCode resp = StatusConflict \<longrightarrow> M u \<noteq> None \<and> at M U v') \<and>
    (StatusCode resp = StatusNotFound \<longrightarrow> u \<notin> U \<and> at M U v')"]])
  fix v resp v'
  assume "at M U v" and "tr_Do tr (httpRequest c MethodPost (membersPath project) (Some (Marshal (addMemberBody u role)))) v = (Inr resp, v')"
  then show "(StatusCode resp = StatusCreated \<longrightarrow> M u = None \<and> u \<in> U \<and> (\<exists>i. at (M(u \<mapsto> (i, role))) U v')) \<and>
    (StatusCode resp = StatusConflict \<longrightarrow> M u \<noteq> None \<and> at M U v') \<and>
    (StatusCode resp = StatusNotFound \<longrightarrow> u \<notin> U \<and> at M U v')"
    using adds [OF _ assms] unfolding at_def by metis
qed (auto intro!: hoare_ret hoare_fail simp: unexpectedStatus_def)

lemma hoare_update:
  "hoare (at M U) (updateProjectMember tr c (membersPath project) i role) (\<lambda>_. at (setRole i role M) U) (\<lambda>_ _. True)"
  unfolding updateProjectMember_def doJSON_def
  by (rule hoare_seq [OF hoare_http_do [where Q = "\<lambda>resp v'. StatusCode resp = StatusOK \<longrightarrow> at (setRole i role M) U v'"]])
     (use updates in \<open>auto intro!: hoare_ret hoare_fail simp: at_def\<close>)

lemma hoare_remove:
  "hoare (at M U) (deleteProjectMember tr c (membersPath project) i) (\<lambda>_. at (dropMember i M) U) (\<lambda>_ _. True)"
  unfolding deleteProjectMember_def
  by (rule hoare_seq [OF hoare_http_do [where Q = "\<lambda>resp v'. StatusCode resp = StatusOK \<longrightarrow> at (dropMember i M) U v'"]])
     (use deletes in \<open>auto intro!: hoare_ret hoare_fail simp: at_def\<close>)

lemma setRole_one: "at M U v \<Longrightarrow> M u = Some (i, r) \<Longrightarrow> setRole i role M = M(u \<mapsto> (i, role))"
  using at_facts(2) by (fastforce simp: setRole_def fun_eq_iff map_option_case split: option.splits)

text \<open>How far the synchronisation has come, as a statement about the server.\<close>

definition progress :: "membership \<Rightarrow> string set \<Rightarrow> ProjectMember list \<Rightarrow> string list \<Rightarrow>
    (string \<times> existingMember) list \<Rightarrow> 's \<Rightarrow> bool" where
  "progress M0 U ds missing E v \<longleftrightarrow> (\<exists>M. at M U v \<and> synced M0 U ds missing E M)"

lemma progress_ex: "(\<And>M. synced M0 U ds missing E M \<Longrightarrow> hoare (at M U) m Q F) \<Longrightarrow> hoare (progress M0 U ds missing E) m Q F"
  unfolding progress_def by (rule hoare_ex, rule hoare_pure) blast

lemma found_progress:
  assumes a: "at M U v" and y: "synced M0 U ds missing E M" and e: "map_of E (pm_Username d) = Some cur"
  shows "M (pm_Username d) = Some (em_ID cur, em_RoleID cur)"
    and "synced M0 U (ds @ [d]) missing (AList.delete (pm_Username d) E) (M(pm_Username d \<mapsto> (em_ID cur, pm_RoleID d)))"
proof -
  show m: "M (pm_Username d) = Some (em_ID cur, em_RoleID cur)"
    using y e unfolding synced_def synced_at_def by (metis option.simps(3,9))
  have "pm_Username d \<in> U" using at_facts(1) [OF a] m by auto
  with synced_found [of M0 U ds missing E M d cur] y e
  show "synced M0 U (ds @ [d]) missing (AList.delete (pm_Username d) E) (M(pm_Username d \<mapsto> (em_ID cur, pm_RoleID d)))"
    unfolding synced_def by blast
qed

lemma hoare_found:
  assumes "map_of E (pm_Username d) = Some cur"
  shows "hoare (progress M0 U ds missing E)
     (if em_RoleID cur \<noteq> pm_RoleID d
      then wrapErr ''updating member %s: %w'' [pm_Username d] (updateProjectMember tr c (membersPath project) (em_ID cur) (pm_RoleID d))
      else ret ()) (\<lambda>_. progress M0 U (ds @ [d]) missing (AList.delete (pm_Username d) E)) (\<lambda>_ _. True)"
proof (rule progress_ex)
  fix M
  assume y: "synced M0 U ds missing E M"
  have done_by: "progress M0 U (ds @ [d]) missing (AList.delete (pm_Username d) E) v"
    if "at M U v0" "at (M(pm_Username d \<mapsto> (em_ID cur, pm_RoleID d))) U v" for v v0
    using that found_progress(2) [OF that(1) y assms] unfolding progress_def by blast
  have upd: "hoare (at M U) (updateProjectMember tr c (membersPath project) (em_ID cur) (pm_RoleID d))
      (\<lambda>_. progress M0 U (ds @ [d]) missing (AList.delete (pm_Username d) E)) (\<lambda>_ _. True)"
  proof (rule hoareI)
    fix s x s'
    assume a: "at M U (world s)" and "updateProjectMember tr c (membersPath project) (em_ID cur) (pm_RoleID d) s = (Inr x, s')"
    then have "at (setRole (em_ID cur) (pm_RoleID d) M) U (world s')" using hoareD [OF hoare_update] by blast
    with done_by [OF a] setRole_one [OF a found_progress(1) [OF a y assms]]
    show "progress M0 U (ds @ [d]) missing (AList.delete (pm_Username d) E) (world s')" by simp
  qed simp
  have same: "M = M(pm_Username d \<mapsto> (em_ID cur, pm_RoleID d))" if "em_RoleID cur = pm_RoleID d" "at M U v" for v
    using found_progress(1) [OF that(2) y assms] that(1) by (auto simp: fun_eq_iff)
  show "hoare (at M U) (if em_RoleID cur \<noteq> pm_RoleID d
      then wrapErr ''updating member %s: %w'' [pm_Username d] (updateProjectMember tr c (membersPath project) (em_ID cur) (pm_RoleID d))
      else ret ()) (\<lambda>_. progress M0 U (ds @ [d]) missing (AList.delete (pm_Username d) E)) (\<lambda>_ _. True)"
    using upd same done_by by (auto intro!: hoare_ret hoare_wrap)
qed

lemma hoare_absent:
  assumes "map_of E (pm_Username d) = None" and "valid_utf8 (pm_Username d)"
  shows "hoare (progress M0 U ds missing E) (addProjectMember tr c (membersPath project) (pm_Username d) (pm_RoleID d))
     (\<lambda>_. progress M0 U (ds @ [d]) missing E)
     (\<lambda>e v. IsErrUserNotFound e \<longrightarrow> progress M0 U (ds @ [d]) (missing @ [pm_Username d]) E v)"
proof (rule progress_ex, rule hoare_conseq [OF hoare_add [OF assms(2)]])
  fix M and x :: unit and v
  assume y: "synced M0 U ds missing E M"
  assume "M (pm_Username d) = None \<and> pm_Username d \<in> U \<and> (\<exists>i. at (M(pm_Username d \<mapsto> (i, pm_RoleID d))) U v) \<or>
    M (pm_Username d) \<noteq> None \<and> at M U v"
  then show "progress M0 U (ds @ [d]) missing E v"
  proof (elim disjE conjE exE)
    fix i
    assume "M (pm_Username d) = None" "pm_Username d \<in> U" and a: "at (M(pm_Username d \<mapsto> (i, pm_RoleID d))) U v"
    with synced_added [of M0 U ds missing E M d i] y assms(1) show ?thesis
      unfolding progress_def synced_def by blast
  next
    assume m: "M (pm_Username d) \<noteq> None" and a: "at M U v"
    have "pm_Username d \<in> pm_Username ` set ds"
      using y assms(1) m unfolding synced_def synced_at_def by (metis option.map_disc_iff)
    with a synced_same [OF y] show ?thesis unfolding progress_def by blast
  qed
next
  fix M e v
  assume y: "synced M0 U ds missing E M" and "IsErrUserNotFound e \<longrightarrow> pm_Username d \<notin> U \<and> at M U v"
  then show "IsErrUserNotFound e \<longrightarrow> progress M0 U (ds @ [d]) (missing @ [pm_Username d]) E v"
    using synced_missing [of M0 U ds missing E M _ d] assms(1) at_facts(1) unfolding progress_def synced_def by blast
qed simp

lemma hoare_syncDesired:
  assumes "\<forall>d \<in> set desired. valid_utf8 (pm_Username d)"
  shows "hoare (progress M0 U ds missing E) (syncDesired tr c (membersPath project) desired E missing)
     (\<lambda>(E', missing'). progress M0 U (ds @ desired) missing' E') (\<lambda>_ _. True)"
  using assms
proof (induction desired arbitrary: ds E missing)
  case Nil
  then show ?case by (auto intro!: hoare_ret)
next
  case (Cons d desired)
  have rest: "hoare (progress M0 U (ds @ [d]) missing E) (syncDesired tr c (membersPath project) desired E missing)
      (\<lambda>(E', missing'). progress M0 U (ds @ d # desired) missing' E') (\<lambda>_ _. True)" for E missing
    using Cons.IH [of "ds @ [d]"] Cons.prems by simp
  show ?case
  proof (cases "map_of E (pm_Username d)")
    case (Some cur)
    then show ?thesis using hoare_andThen [OF hoare_found [OF Some] rest] by simp
  next
    case None
    have valid: "valid_utf8 (pm_Username d)" using Cons.prems by simp
    have "hoare (\<lambda>v. IsErrUserNotFound e \<longrightarrow> progress M0 U (ds @ [d]) (missing @ [pm_Username d]) E v)
        (if IsErrUserNotFound e then syncDesired tr c (membersPath project) desired E (missing @ [pm_Username d])
         else fail (Wrapf ''adding member %s: %w'' [pm_Username d] e))
        (\<lambda>(E', missing'). progress M0 U (ds @ d # desired) missing' E') (\<lambda>_ _. True)" for e
      using rest [of "missing @ [pm_Username d]" E] by (cases "IsErrUserNotFound e") (simp_all add: hoare_fail)
    from hoare_onResult [OF hoare_absent [OF None valid] this rest] None show ?thesis
      by (simp only: syncDesired.simps option.case)
  qed
qed

text \<open>
  The second loop: \<open>M1\<close> is what the first loop left, \<open>D\<close> are the names already visited; every entry of the lookup
  is as it was at the start, so the ids in it tell the members apart.
\<close>

lemma hoare_remove_one:
  assumes "M1 name = Some (i, r)" and "\<And>a r'. M1 a = Some (i, r') \<Longrightarrow> a = name"
  shows "hoare (at (\<lambda>u. if u \<in> D then None else M1 u) U) (deleteProjectMember tr c (membersPath project) i)
    (\<lambda>_. at (\<lambda>u. if u \<in> insert name D then None else M1 u) U) (\<lambda>_ _. True)"
proof -
  have "dropMember i (\<lambda>u. if u \<in> D then None else M1 u) u = (if u \<in> insert name D then None else M1 u)" for u
    using assms(1) by (cases "M1 u") (auto simp: dropMember_def dest: assms(2))
  then have drop: "dropMember i (\<lambda>u. if u \<in> D then None else M1 u) = (\<lambda>u. if u \<in> insert name D then None else M1 u)"
    by (rule ext)
  show ?thesis by (rule hoare_remove [of "\<lambda>u. if u \<in> D then None else M1 u" U i, unfolded drop])
qed

lemma hoare_leftovers:
  assumes "\<And>name cur. map_of E name = Some cur \<Longrightarrow> M1 name = Some (em_ID cur, em_RoleID cur)"
    and "\<And>a b i r r'. M1 a = Some (i, r) \<Longrightarrow> M1 b = Some (i, r') \<Longrightarrow> a = b"
    and "set names \<subseteq> fst ` set E"
  shows "hoare (at (\<lambda>u. if u \<in> D then None else M1 u) U)
     (forEach (\<lambda>name. case map_of E name of
         Some cur \<Rightarrow> wrapErr ''removing member %s: %w'' [em_Username cur]
                       (deleteProjectMember tr c (membersPath project) (em_ID cur))
       | None \<Rightarrow> ret ()) names)
     (\<lambda>_. at (\<lambda>u. if u \<in> D \<union> set names then None else M1 u) U) (\<lambda>_ _. True)"
  using assms(3)
proof (induction names arbitrary: D)
  case Nil
  then show ?case by (simp add: hoare_ret)
next
  case (Cons name names)
  then obtain cur where cur: "map_of E name = Some cur"
    by (cases "map_of E name") (auto simp: map_of_eq_None_iff)
  have "hoare (at (\<lambda>u. if u \<in> D then None else M1 u) U)
      (wrapErr ''removing member %s: %w'' [em_Username cur] (deleteProjectMember tr c (membersPath project) (em_ID cur)))
      (\<lambda>_. at (\<lambda>u. if u \<in> insert name D then None else M1 u) U) (\<lambda>_ _. True)"
    using assms(1) [OF cur] assms(2) by (intro hoare_wrap hoare_remove_one [of M1 name]) blast+
  moreover have "set names \<subseteq> fst ` set E" using Cons.prems by simp
  ultimately show ?case using Cons.IH [of "insert name D"] cur by (auto intro: hoare_andThen)
qed

definition agrees :: "string set \<Rightarrow> ProjectMember list \<Rightarrow> string list \<Rightarrow> 's \<Rightarrow> bool" where
  "agrees U ds missing v \<longleftrightarrow> (\<exists>M. at M U v \<and>
     (\<forall>u. map_option snd (M u) = (if u \<in> U then roles_of ds u else None)) \<and> set missing = pm_Username ` set ds - U)"

lemma hoare_removeLeftover:
  "hoare (progress M0 U ds missing E) (removeLeftover tr c (membersPath project) E)
     (\<lambda>_. agrees U ds missing) (\<lambda>_ _. True)"
proof (rule progress_ex, rule hoareI)
  fix M s x s'
  assume y: "synced M0 U ds missing E M" and a: "at M U (world s)"
    and run: "removeLeftover tr c (membersPath project) E s = (Inr x, s')"
  let ?names = "tr_MapOrder tr (world s) (map fst E)"
  have names: "set ?names = fst ` set E" using visits_all by simp
  have e: "M name = Some (em_ID cur, em_RoleID cur)" if "map_of E name = Some cur" for name cur
    using y that unfolding synced_def synced_at_def by (metis option.simps(3,9))
  have "at (\<lambda>u. if u \<in> {} \<union> set ?names then None else M u) U (world s')"
    by (rule hoareD [OF hoare_leftovers [where D = "{}", OF e at_facts(2) [OF a]]])
       (use a run names in \<open>simp_all add: removeLeftover_def\<close>)
  then show "agrees U ds missing (world s')"
    using synced_final [OF y at_facts(1) [OF a]] names unfolding agrees_def Un_empty_left names by blast
qed simp

lemma hoare_reconcile_members:
  assumes "\<forall>d \<in> set desired. valid_utf8 (pm_Username d)" and "card (dom M0) \<le> page"
  shows "hoare (at M0 U) (http_ReconcileProjectMembers tr c project desired)
     (agrees U desired) (\<lambda>_ _. True)"
  unfolding http_ReconcileProjectMembers_def Let_def
proof (rule hoare_seq_wrapErr [OF hoare_http_do [where Q = "\<lambda>resp v. StatusCode resp = StatusOK \<longrightarrow>
    (\<forall>ms. decodeMemberList (Body resp) = Inr ms \<longrightarrow> progress M0 U [] [] (membersByName ms) v)"]])
  fix v resp v'
  assume "at M0 U v" and "tr_Do tr (httpRequest c MethodGet (membersPath project) None) v = (Inr resp, v')"
  then show "StatusCode resp = StatusOK \<longrightarrow>
      (\<forall>ms. decodeMemberList (Body resp) = Inr ms \<longrightarrow> progress M0 U [] [] (membersByName ms) v')"
    using lists [of v resp v'] assms(2) synced_start unfolding progress_def at_def by metis
next
  fix resp
  have "hoare (progress M0 U [] [] (membersByName ms))
      (andThen (syncDesired tr c (membersPath project) desired (membersByName ms) []) (\<lambda>(existingByName, missing).
         andThen (removeLeftover tr c (membersPath project) existingByName) (\<lambda>_. ret missing)))
      (agrees U desired) (\<lambda>_ _. True)" for ms
    by (rule hoare_andThen [OF hoare_syncDesired [OF assms(1)]])
       (use hoare_andThen [OF hoare_removeLeftover hoare_ret, where Q = "agrees U desired"] in \<open>auto split: prod.splits\<close>)
  then show "hoare (\<lambda>v. StatusCode resp = StatusOK \<longrightarrow>
      (\<forall>ms. decodeMemberList (Body resp) = Inr ms \<longrightarrow> progress M0 U [] [] (membersByName ms) v))
      (if StatusCode resp \<noteq> StatusOK then fail (unexpectedStatus ''listing project members'' resp)
        else case decodeMemberList (Body resp) of
               Inl err \<Rightarrow> fail (Wrapf ''decoding project members: %w'' [] err)
             | Inr existing \<Rightarrow>
                 andThen (syncDesired tr c (membersPath project) desired (membersByName existing) []) (\<lambda>(existingByName, missing).
                   andThen (removeLeftover tr c (membersPath project) existingByName) (\<lambda>_. ret missing)))
      (agrees U desired) (\<lambda>_ _. True)"
    by (cases "decodeMemberList (Body resp)") (auto intro!: hoare_fail)
qed simp

end

section \<open>An in-memory Harbor\<close>

text \<open>
  A Harbor with one project: members with id and role, and the users it has. It reads the URLs and JSON bodies the
  client writes, answers at most \<open>page\<close> members to a listing and refuses whatever it does not understand.
\<close>

record harbor_db =
  db_members :: "(string \<times> int \<times> int) list"
  db_users :: "string list"

record member_request =
  mr_role :: int
  mr_user :: string

definition memberJson :: "string \<times> int \<times> int \<Rightarrow> json" where
  "memberJson m = (case m of (name, i, r) \<Rightarrow> goMap [(''id'', JInt i), (''role_id'', JInt r), (''entity_name'', JStr name)])"

definition requestFields :: "member_request fields" where
  "requestFields =
     [(''role_id'', \<lambda>j r. map_sum id (\<lambda>i. r\<lparr>mr_role := i\<rparr>) (decodeInt j (mr_role r))),
      (''member_user'', \<lambda>j r. map_sum id (\<lambda>n. r\<lparr>mr_user := n\<rparr>)
         (decodeStruct [(''username'', \<lambda>j' n. decodeString j' n)] (mr_user r) j))]"

definition readRequest :: "string option \<Rightarrow> member_request option" where
  "readRequest body = (case body of None \<Rightarrow> None
     | Some b \<Rightarrow> (case Decode (decodeStruct requestFields \<lparr>mr_role = 0, mr_user = []\<rparr>) b of
                    Inl _ \<Rightarrow> None | Inr q \<Rightarrow> Some q))"

definition reply :: "int \<Rightarrow> harbor_db \<Rightarrow> (string + http_response) \<times> harbor_db" where
  "reply code db = (Inr \<lparr>StatusCode = code, Body = []\<rparr>, db)"

definition memberIDs :: "harbor_db \<Rightarrow> int list" where
  "memberIDs db = map (fst \<circ> snd) (db_members db)"

definition freshID :: "harbor_db \<Rightarrow> int" where
  "freshID db = 1 + foldr max (memberIDs db) 0"

definition postMember :: "member_request \<Rightarrow> harbor_db \<Rightarrow> (string + http_response) \<times> harbor_db" where
  "postMember q db =
     (if mr_user q \<notin> set (db_users db) then reply StatusNotFound db
      else if mr_user q \<in> fst ` set (db_members db) then reply StatusConflict db
      else if \<not> valid_utf8 (mr_user q) \<or> 2 ^ 63 \<le> freshID db then reply 500 db
      else reply StatusCreated (db\<lparr>db_members := db_members db @ [(mr_user q, freshID db, mr_role q)]\<rparr>))"

definition putMember :: "int \<Rightarrow> int \<Rightarrow> harbor_db \<Rightarrow> (string + http_response) \<times> harbor_db" where
  "putMember i role db =
     (if i \<notin> set (memberIDs db) then reply StatusNotFound db
      else reply StatusOK (db\<lparr>db_members := map (\<lambda>(n, j, r). (n, j, if j = i then role else r)) (db_members db)\<rparr>))"

definition removeMember :: "int \<Rightarrow> harbor_db \<Rightarrow> (string + http_response) \<times> harbor_db" where
  "removeMember i db =
     (if i \<notin> set (memberIDs db) then reply StatusNotFound db
      else reply StatusOK (db\<lparr>db_members := filter (\<lambda>(n, j, r). j \<noteq> i) (db_members db)\<rparr>))"

definition harborServe :: "nat \<Rightarrow> string \<Rightarrow> http_request \<Rightarrow> harbor_db \<Rightarrow> (string + http_response) \<times> harbor_db" where
  "harborServe page collection req db =
     (if rq_url req = collection then
        (case rq_method req of
           MethodGet \<Rightarrow> (Inr \<lparr>StatusCode = StatusOK, Body = Marshal (JArr (map memberJson (take page (db_members db))))\<rparr>, db)
         | MethodPost \<Rightarrow> (case readRequest (rq_body req) of None \<Rightarrow> reply 400 db | Some q \<Rightarrow> postMember q db)
         | _ \<Rightarrow> reply 405 db)
      else if HasPrefix (rq_url req) (collection @ ''/'') then
        (case ParseInt (drop (length collection + 1) (rq_url req)) of
           None \<Rightarrow> reply 400 db
         | Some i \<Rightarrow> (case rq_method req of
             MethodPut \<Rightarrow> (case readRequest (rq_body req) of None \<Rightarrow> reply 400 db | Some q \<Rightarrow> putMember i (mr_role q) db)
           | MethodDelete \<Rightarrow> removeMember i db
           | _ \<Rightarrow> reply 405 db))
      else reply StatusNotFound db)"

definition harborTransport :: "nat \<Rightarrow> httpClient \<Rightarrow> string \<Rightarrow> harbor_db transport" where
  "harborTransport page c project =
     \<lparr>tr_Do = harborServe page (hc_baseURL c @ membersPath project), tr_MapOrder = (\<lambda>_ ks. ks)\<rparr>"

definition int64 :: "int \<Rightarrow> bool" where
  "int64 i \<longleftrightarrow> - (2 ^ 63) \<le> i \<and> i < 2 ^ 63"

definition db_intact :: "harbor_db \<Rightarrow> bool" where
  "db_intact db \<longleftrightarrow> distinct (map fst (db_members db)) \<and> distinct (memberIDs db) \<and>
     fst ` set (db_members db) \<subseteq> set (db_users db) \<and>
     list_all (\<lambda>(n, i, r). valid_utf8 n \<and> int64 i \<and> int64 r) (db_members db)"

abbreviation db_membership :: "harbor_db \<Rightarrow> membership" where
  "db_membership db \<equiv> map_of (db_members db)"

lemma memberJson_obj:
  "memberJson (n, i, r) = JObj [(''entity_name'', JStr n), (''id'', JInt i), (''role_id'', JInt r)]"
  by (simp add: memberJson_def goMap_def)

lemma fieldFor_exact: "find (\<lambda>f. fst f = k) flds = Some f \<Longrightarrow> fieldFor flds k = Some (snd f)"
  by (simp add: fieldFor_def)

lemma ParseInt_range: "ParseInt (itoa i) = (if int64 i then Some i else None)"
proof (cases "i < 0")
  case True
  then show ?thesis by (simp add: ParseInt_def itoa_def utoa_digits int64_def)
next
  case False
  obtain c r where u: "utoa (nat i) = c # r" by (meson list.exhaust utoa_nonempty)
  with utoa_hd [of "nat i"] have "c \<noteq> CHR ''-''" "c \<noteq> CHR ''+''" using isDigit_not_sign by auto
  with False u utoa_digits [of "nat i"] digits_value_utoa [of "nat i"] show ?thesis
    by (simp add: ParseInt_def itoa_def int64_def)
qed

lemma decodeInt_JInt: "int64 i \<Longrightarrow> decodeInt (JInt i) old = Inr i"
  by (simp add: decodeInt_def JInt_def ParseInt_range)

lemma decode_memberJson:
  assumes "int64 i" and "int64 r"
  shows "decodeStruct memberFields \<lparr>em_ID = 0, em_RoleID = 0, em_Username = []\<rparr> (memberJson (n, i, r)) =
    Inr \<lparr>em_ID = i, em_RoleID = r, em_Username = n\<rparr>"
  using assms by (simp add: memberJson_obj decodeStruct_def memberFields_def fieldFor_exact decodeInt_JInt decodeString_def)

lemma readRequest_bodies:
  "valid_utf8 u \<Longrightarrow> readRequest (Some (Marshal (addMemberBody u role))) = (if int64 role then Some \<lparr>mr_role = role, mr_user = u\<rparr> else None)"
  "readRequest (Some (Marshal (goMap [(''role_id'', JInt role)]))) = (if int64 role then Some \<lparr>mr_role = role, mr_user = []\<rparr> else None)"
proof -
  have role: "decodeInt (JInt role) old = (if int64 role then Inr role else Inl (decodeError ''cannot unmarshal number into Go value of type int''))" for old
    by (simp add: decodeInt_def JInt_def ParseInt_range)
  have "marshallable (goMap [(''role_id'', JInt role)])" by (auto simp: JInt_def)
  moreover have "depth_le maxNestingDepth (goMap [(''role_id'', JInt role)])" by (simp add: JInt_def maxNestingDepth_def)
  ultimately show "readRequest (Some (Marshal (goMap [(''role_id'', JInt role)]))) = (if int64 role then Some \<lparr>mr_role = role, mr_user = []\<rparr> else None)"
    by (simp only: readRequest_def Decode_Marshal option.case)
       (simp add: decodeStruct_def requestFields_def fieldFor_exact role)
  assume u: "valid_utf8 u"
  then have "marshallable (addMemberBody u role)" by (auto simp: addMemberBody_def JInt_def)
  moreover have "depth_le maxNestingDepth (addMemberBody u role)" by (simp add: addMemberBody_def JInt_def maxNestingDepth_def)
  ultimately show "readRequest (Some (Marshal (addMemberBody u role))) = (if int64 role then Some \<lparr>mr_role = role, mr_user = u\<rparr> else None)"
    by (simp add: readRequest_def Decode_Marshal)
       (simp add: addMemberBody_def goMap_def decodeStruct_def requestFields_def fieldFor_exact role decodeString_def)
qed

lemma decodeMemberList_Marshal:
  assumes "list_all (\<lambda>(n, i, r). valid_utf8 n \<and> int64 i \<and> int64 r) ms"
  shows "decodeMemberList (Marshal (JArr (map memberJson ms))) = Inr (map (\<lambda>(n, i, r). \<lparr>em_ID = i, em_RoleID = r, em_Username = n\<rparr>) ms)"
proof -
  have "marshallable (JArr (map memberJson ms))"
    using assms by (fastforce simp: memberJson_obj JInt_def list_all_iff)
  moreover have "depth_le maxNestingDepth (JArr (map memberJson ms))"
    by (auto simp: memberJson_obj JInt_def maxNestingDepth_def)
  moreover have "decodeElems (decodeStruct memberFields \<lparr>em_ID = 0, em_RoleID = 0, em_Username = []\<rparr>) (map memberJson ms) =
      Inr (map (\<lambda>(n, i, r). \<lparr>em_ID = i, em_RoleID = r, em_Username = n\<rparr>) ms)"
    using assms by (induction ms) (auto simp: decode_memberJson)
  ultimately show ?thesis by (simp only: decodeMemberList_def Decode_Marshal decodeSlice_def json.case)
qed

lemma setRole_map_of: "setRole i role (map_of ms) = map_of (map (\<lambda>(n, j, r). (n, j, if j = i then role else r)) ms)"
  by (induction ms) (auto simp: setRole_def fun_eq_iff)

lemma dropMember_map_of:
  "distinct (map fst ms) \<Longrightarrow> dropMember i (map_of ms) = map_of (filter (\<lambda>(n, j, r). j \<noteq> i) ms)"
  by (induction ms) (force simp: dropMember_def fun_eq_iff dest: map_of_SomeD split: option.splits)+

lemma freshID_above: "j \<in> set (memberIDs db) \<Longrightarrow> j < freshID db" and freshID_positive: "0 < freshID db"
proof -
  have "j \<in> set js \<Longrightarrow> j \<le> foldr max js 0" for js :: "int list"
    by (induction js) auto
  then show "j \<in> set (memberIDs db) \<Longrightarrow> j < freshID db" unfolding freshID_def by fastforce
  have "0 \<le> foldr max js 0" for js :: "int list"
    by (induction js) auto
  then show "0 < freshID db" unfolding freshID_def by (simp add: add_pos_nonneg)
qed

lemma map_of_snoc: "u \<notin> fst ` set ms \<Longrightarrow> map_of (ms @ [(u, x)]) = (map_of ms)(u \<mapsto> x)"
  by (simp add: map_add_upd_left dom_map_of_conv_image_fst)

lemma intact_post:
  assumes "db_intact db" and "u \<notin> fst ` set (db_members db)" and "u \<in> set (db_users db)" and "valid_utf8 u"
    and "freshID db < 2 ^ 63" and "int64 role"
  shows "db_intact (db\<lparr>db_members := db_members db @ [(u, freshID db, role)]\<rparr>)"
  using assms freshID_above [of "freshID db" db] freshID_positive [of db]
  by (auto simp: db_intact_def memberIDs_def int64_def)

lemma intact_put:
  assumes "db_intact db" and "int64 role"
  shows "db_intact (db\<lparr>db_members := map (\<lambda>(n, j, r). (n, j, if j = i then role else r)) (db_members db)\<rparr>)"
proof -
  let ?f = "\<lambda>(n, j, r). (n :: string, j, if j = i then role else r)"
  have "map fst (map ?f ms) = map fst ms" and "map (fst \<circ> snd) (map ?f ms) = map (fst \<circ> snd) ms" for ms
    by (auto simp: case_prod_unfold)
  then have "fst ` set (map ?f ms) = fst ` set ms" for ms by (metis list.set_map)
  moreover have "list_all (\<lambda>(n, i, r). valid_utf8 n \<and> int64 i \<and> int64 r) ms \<Longrightarrow>
      list_all (\<lambda>(n, i, r). valid_utf8 n \<and> int64 i \<and> int64 r) (map ?f ms)" for ms
    using assms(2) by (induction ms) auto
  ultimately show ?thesis
    using assms(1) \<open>\<And>ms. map fst (map ?f ms) = map fst ms\<close> \<open>\<And>ms. map (fst \<circ> snd) (map ?f ms) = map (fst \<circ> snd) ms\<close>
    unfolding db_intact_def memberIDs_def by (simp del: map_map list.set_map set_map)
qed

lemma intact_remove: "db_intact db \<Longrightarrow> db_intact (db\<lparr>db_members := filter P (db_members db)\<rparr>)"
  by (auto simp: db_intact_def memberIDs_def list_all_iff distinct_map_filter)

lemma intact_distinct: "db_intact db \<Longrightarrow> distinct (map fst (db_members db))"
  by (simp add: db_intact_def)

lemma whole_listing:
  assumes "db_intact db" and "card (dom (db_membership db)) \<le> page"
  shows "take page (db_members db) = db_members db"
  using assms distinct_card [of "map fst (db_members db)"] by (simp add: db_intact_def dom_map_of_conv_image_fst)

lemma membership_of_db:
  "membership_of (map (\<lambda>(n, i, r). \<lparr>em_ID = i, em_RoleID = r, em_Username = n\<rparr>) ms) = map_of ms"
  by (induction ms) (auto simp: membership_of_def)

interpretation in_memory: harbor_members "harborTransport page c project" c project db_membership "\<lambda>db. set (db_users db)" db_intact page
  for page c project
proof
  fix v v' :: harbor_db and resp ms
  assume v: "db_intact v" "card (dom (db_membership v)) \<le> page" and "decodeMemberList (Body resp) = Inr ms"
    and "tr_Do (harborTransport page c project) (httpRequest c MethodGet (membersPath project) None) v = (Inr resp, v')"
  then have "v' = v" and "ms = map (\<lambda>(n, i, r). \<lparr>em_ID = i, em_RoleID = r, em_Username = n\<rparr>) (db_members v)"
    using decodeMemberList_Marshal [of "db_members v"] whole_listing [OF v]
    by (auto simp: harborTransport_def harborServe_def httpRequest_def db_intact_def)
  with v show "db_intact v' \<and> db_membership v' = db_membership v \<and> set (db_users v') = set (db_users v) \<and>
      distinct (map em_Username ms) \<and> membership_of ms = db_membership v"
    using membership_of_db [of "db_members v"] by (simp add: db_intact_def comp_def case_prod_unfold)
next
  fix v v' :: harbor_db and u role resp
  assume "db_intact v" "valid_utf8 u"
    and "tr_Do (harborTransport page c project) (httpRequest c MethodPost (membersPath project) (Some (Marshal (addMemberBody u role)))) v = (Inr resp, v')"
  then show "(StatusCode resp = StatusCreated \<longrightarrow> db_intact v' \<and> set (db_users v') = set (db_users v) \<and> u \<in> set (db_users v) \<and>
        db_membership v u = None \<and> (\<exists>i. db_membership v' = (db_membership v)(u \<mapsto> (i, role)))) \<and>
      (StatusCode resp = StatusConflict \<longrightarrow> db_intact v' \<and> set (db_users v') = set (db_users v) \<and>
        db_membership v u \<noteq> None \<and> db_membership v' = db_membership v) \<and>
      (StatusCode resp = StatusNotFound \<longrightarrow> db_intact v' \<and> set (db_users v') = set (db_users v) \<and>
        u \<notin> set (db_users v) \<and> db_membership v' = db_membership v)"
    using intact_post [of v u role]
    by (auto simp: harborTransport_def harborServe_def httpRequest_def readRequest_bodies postMember_def reply_def
        map_of_eq_None_iff map_of_snoc simp del: Marshal.simps map_of_append split: if_splits option.splits)
next
  fix v v' :: harbor_db and i role resp
  assume "db_intact v" "StatusCode resp = StatusOK"
    and "tr_Do (harborTransport page c project) (httpRequest c MethodPut (memberPath (membersPath project) i)
       (Some (Marshal (goMap [(''role_id'', JInt role)])))) v = (Inr resp, v')"
  then show "db_intact v' \<and> set (db_users v') = set (db_users v) \<and> db_membership v' = setRole i role (db_membership v)"
    using intact_put [of v role i]
    by (auto simp: harborTransport_def harborServe_def httpRequest_def memberPath_def HasPrefix_iff ParseInt_range readRequest_bodies
        putMember_def reply_def setRole_map_of simp del: goMap_simps split: if_splits)
next
  fix v v' :: harbor_db and i resp
  assume "db_intact v" "StatusCode resp = StatusOK"
    and "tr_Do (harborTransport page c project) (httpRequest c MethodDelete (memberPath (membersPath project) i) None) v = (Inr resp, v')"
  then show "db_intact v' \<and> set (db_users v') = set (db_users v) \<and> db_membership v' = dropMember i (db_membership v)"
    using intact_remove [of v "\<lambda>(n, j, r). j \<noteq> i"] dropMember_map_of [of "db_members v" i] intact_distinct [of v]
    by (auto simp: harborTransport_def harborServe_def httpRequest_def memberPath_def HasPrefix_iff ParseInt_range
        removeMember_def reply_def split: if_splits)
next
  fix v :: harbor_db and a b i r r'
  assume "db_intact v" "db_membership v a = Some (i, r)" "db_membership v b = Some (i, r')"
  then have "(a, i, r) \<in> set (db_members v)" "(b, i, r') \<in> set (db_members v)" "inj_on (fst \<circ> snd) (set (db_members v))"
    by (auto simp: db_intact_def memberIDs_def distinct_map dest: map_of_SomeD)
  then show "a = b" unfolding inj_on_def comp_def by (metis fst_conv snd_conv)
qed (auto simp: harborTransport_def db_intact_def dom_map_of_conv_image_fst)

section \<open>The members of a project after a reconciliation\<close>

text \<open>
  C13: When \<open>ReconcileProjectMembers\<close> returns without error, every user Harbor has is a member of the project with
  exactly the role of the first entry for it in \<open>desired\<close>, and no member at all when there is none: roles are corrected,
  newcomers added, leftovers removed. The names returned are exactly the desired users Harbor does not have. The server
  is any Harbor that keeps the contract of the member endpoints and lists the project on one page.\<close>

theorem members_synchronised:
  assumes "harbor_members tr c project members users intact page"
    and "intact (world s)" and "card (dom (members (world s))) \<le> page"
    and "\<forall>d \<in> set desired. valid_utf8 (pm_Username d)"
    and "http_ReconcileProjectMembers tr c project desired s = (Inr missing, s')"
  shows "(\<forall>u. map_option snd (members (world s') u) = (if u \<in> users (world s) then roles_of desired u else None)) \<and>
    set missing = pm_Username ` set desired - users (world s)"
  using hoareD [OF harbor_members.hoare_reconcile_members [OF assms(1,4,3)] _ assms(5), of "users (world s)"] assms(2)
  by (auto simp: harbor_members.agrees_def [OF assms(1)] harbor_members.at_def [OF assms(1)])

definition sample_harbor :: "(harbor_db, event) env" where
  "sample_harbor = \<lparr>world = \<lparr>db_members = [(''al'', 1, 3), (''eve'', 2, 1)], db_users = [''al'', ''bo'', ''eve'']\<rparr>, trace = []\<rparr>"

definition sample_http :: httpClient where
  "sample_http = \<lparr>hc_baseURL = ''http://h'', hc_username = ''admin'', hc_password = ''pw''\<rparr>"

definition sample_roles :: "ProjectMember list" where
  "sample_roles = [\<lparr>pm_Username = ''al'', pm_RoleID = RoleProjectAdmin\<rparr>, \<lparr>pm_Username = ''bo'', pm_RoleID = RoleDeveloper\<rparr>,
     \<lparr>pm_Username = ''dan'', pm_RoleID = RoleGuest\<rparr>]"

definition sample_sync :: "(error + string list) \<times> (harbor_db, event) env" where
  "sample_sync = http_ReconcileProjectMembers (harborTransport 10 sample_http ''t'') sample_http ''t'' sample_roles sample_harbor"

lemma sample_urls:
  "\<exists>u. url_Parse (hc_baseURL sample_http @ membersPath ''t'') = Inr u"
  "\<exists>u. url_Parse (hc_baseURL sample_http @ memberPath (membersPath ''t'') 1) = Inr u"
  "\<exists>u. url_Parse (hc_baseURL sample_http @ memberPath (membersPath ''t'') 2) = Inr u"
  using url_Parse_plain [of "''http''" "''h''" "[]" "[]" "membersPath ''t''"]
    url_Parse_plain [of "''http''" "''h''" "[]" "[]" "memberPath (membersPath ''t'') 1"]
    url_Parse_plain [of "''http''" "''h''" "[]" "[]" "memberPath (membersPath ''t'') 2"]
  by (auto simp: sample_http_def membersPath_def memberPath_def itoa_def utoa.simps digit_char_def plainHost_def plainChar_def isAlnum_def isDigit_def)

lemma http_do_served:
  assumes "\<exists>u. url_Parse (hc_baseURL c @ path) = Inr u"
  shows "http_do (harborTransport page c p) c m path body s =
    (case harborServe page (hc_baseURL c @ membersPath p) (httpRequest c m path body) (world s) of
       (r, w) \<Rightarrow> (map_sum StdError id r, s\<lparr>world := w, trace := trace s @ [EvHTTP (httpRequest c m path body)]\<rparr>))"
  using assms by (auto simp: http_do_def request_def harborTransport_def Let_def split: prod.splits)

lemma serve_list:
  assumes "list_all (\<lambda>(n, i, r). valid_utf8 n \<and> int64 i \<and> int64 r) (db_members db)"
  shows "\<exists>body. harborServe page (hc_baseURL c @ membersPath p) (httpRequest c MethodGet (membersPath p) None) db =
    (Inr \<lparr>StatusCode = StatusOK, Body = body\<rparr>, db) \<and>
    decodeMemberList body = Inr (map (\<lambda>(n, i, r). \<lparr>em_ID = i, em_RoleID = r, em_Username = n\<rparr>) (take page (db_members db)))"
proof -
  have "list_all (\<lambda>(n, i, r). valid_utf8 n \<and> int64 i \<and> int64 r) (take page (db_members db))"
    using assms by (auto simp: list_all_iff dest: in_set_takeD)
  then show ?thesis by (auto simp: harborServe_def httpRequest_def decodeMemberList_Marshal simp del: Marshal.simps)
qed

lemma serve_member:
  "valid_utf8 u \<Longrightarrow> int64 role \<Longrightarrow>
   harborServe page (hc_baseURL c @ membersPath p) (httpRequest c MethodPost (membersPath p) (Some (Marshal (addMemberBody u role)))) =
     postMember \<lparr>mr_role = role, mr_user = u\<rparr>"
  "int64 i \<Longrightarrow> int64 role \<Longrightarrow>
   harborServe page (hc_baseURL c @ membersPath p)
      (httpRequest c MethodPut (memberPath (membersPath p) i) (Some (Marshal (goMap [(''role_id'', JInt role)])))) = putMember i role"
  "int64 i \<Longrightarrow>
   harborServe page (hc_baseURL c @ membersPath p) (httpRequest c MethodDelete (memberPath (membersPath p) i) None) = removeMember i"
  by (auto simp: harborServe_def httpRequest_def memberPath_def HasPrefix_iff ParseInt_range readRequest_bodies fun_eq_iff
      simp del: goMap_simps)

lemma harbor_order [simp]: "tr_MapOrder (harborTransport page c p) v ks = ks"
  by (simp add: harborTransport_def)

lemmas sync_run_simps = Let_def http_ReconcileProjectMembers_def effect_defs http_do_served sample_urls membersByName_def
  updateProjectMember_def addProjectMember_def deleteProjectMember_def doJSON_def removeLeftover_def serve_member int64_def
  valid_utf8_ascii postMember_def putMember_def removeMember_def reply_def memberIDs_def freshID_def go_consts

lemma sample_sync_run: "fst sample_sync = Inr [''dan''] \<and> db_members (world (snd sample_sync)) = [(''al'', 1, 1), (''bo'', 3, 2)]"
proof -
  let ?db = "\<lparr>db_members = [(''al'', 1, 3), (''eve'', 2, 1)], db_users = [''al'', ''bo'', ''eve'']\<rparr>"
  obtain body where l: "harborServe 10 (hc_baseURL sample_http @ membersPath ''t'') (httpRequest sample_http MethodGet (membersPath ''t'') None) ?db =
    (Inr \<lparr>StatusCode = StatusOK, Body = body\<rparr>, ?db)"
    "decodeMemberList body = Inr [\<lparr>em_ID = 1, em_RoleID = 3, em_Username = ''al''\<rparr>, \<lparr>em_ID = 2, em_RoleID = 1, em_Username = ''eve''\<rparr>]"
    using serve_list [of ?db 10 sample_http "''t''"]
    by (auto simp: int64_def valid_utf8_ascii)
  show ?thesis
    by (simp add: sample_sync_def sample_roles_def sample_harbor_def sync_run_simps l del: goMap_simps Marshal.simps)
qed

theorem members_synchronised_witness:
  "map_option snd (db_membership (world (snd sample_sync)) ''al'') = Some RoleProjectAdmin \<and>
   map_option snd (db_membership (world (snd sample_sync)) ''bo'') = Some RoleDeveloper \<and>
   db_membership (world (snd sample_sync)) ''eve'' = None"
proof -
  have run: "http_ReconcileProjectMembers (harborTransport 10 sample_http ''t'') sample_http ''t'' sample_roles sample_harbor =
      (Inr [''dan''], snd sample_sync)"
    using sample_sync_run by (simp add: sample_sync_def prod_eq_iff)
  have "db_intact (world sample_harbor)" and "card (dom (db_membership (world sample_harbor))) \<le> 10"
    by (simp_all add: sample_harbor_def db_intact_def memberIDs_def int64_def valid_utf8_ascii dom_map_of_conv_image_fst)
  from members_synchronised [OF in_memory.harbor_members_axioms this _ run]
  have "map_option snd (db_membership (world (snd sample_sync)) u) = (if u \<in> {''al'', ''bo'', ''eve''} then roles_of sample_roles u else None)" for u
    by (simp add: sample_roles_def valid_utf8_ascii sample_harbor_def)
  from this [of "''al''"] this [of "''bo''"] this [of "''eve''"] show ?thesis
    by (simp add: sample_roles_def roles_of_def)
qed





section \<open>Deleting robots\<close>

definition deletes_nothing :: "event \<Rightarrow> bool" where
  "deletes_nothing ev \<longleftrightarrow> (\<forall>q. ev = EvHTTP q \<longrightarrow> rq_method q \<noteq> MethodDelete)"

lemma emits_http: "P (EvHTTP (httpRequest c m path b)) \<Longrightarrow> emits P (http_do tr c m path b)"
  unfolding http_do_def Let_def
  by (cases "url_Parse (hc_baseURL c @ path)") (simp_all add: emits_fail emits_request)

lemma robot_calls_delete_nothing:
  "emits deletes_nothing (findRobot tr c p r)" "emits deletes_nothing (createRobot tr c p r)"
  unfolding findRobot_def getProjectID_def createRobot_def doJSON_def Let_def
  by (intro emits_andThen emits_wrapErr emits_http emits_if emits_sum emits_ret emits_fail;
      simp add: deletes_nothing_def httpRequest_def)+

lemma emits_deleteRobot:
  "emits (\<lambda>ev. ev = EvHTTP (httpRequest c MethodDelete (robotsPath @ ''/'' @ itoa i) None)) (deleteRobot tr c i)"
  unfolding deleteRobot_def by (intro emits_andThen emits_wrapErr emits_http emits_if emits_ret emits_fail refl)

text \<open>
  C17: refreshing a robot's secret deletes nothing but that robot: whatever Harbor and the network answer, the only
  DELETE it ever sends names the number of a robot whose full name is exactly the one looked for. A robot of another
  project, or one whose name only starts the same, is never deleted.\<close>

theorem refresh_deletes_only_that_robot:
  assumes "http_RefreshRobotSecret tr c p r s = (res, s')"
  shows "\<exists>es. trace s' = trace s @ es \<and>
    (\<forall>q. EvHTTP q \<in> set es \<longrightarrow> rq_method q = MethodDelete \<longrightarrow>
       (\<exists>robot s1. findRobot tr c p r s = (Inr (Some robot), s1) \<and> robot_Name robot = robotFullName p r \<and>
          q = httpRequest c MethodDelete (robotsPath @ ''/'' @ itoa (robot_ID robot)) None))"
proof -
  obtain found s1 where f: "findRobot tr c p r s = (found, s1)" by fastforce
  then obtain es where es: "trace s1 = trace s @ es" "list_all deletes_nothing es"
    by (rule emitsD [OF robot_calls_delete_nothing(1)])
  show ?thesis
  proof (cases "\<exists>robot. found = Inr (Some robot)")
    case False
    with f assms have "trace s' = trace s1"
      by (auto simp: http_RefreshRobotSecret_def andThen_def wrapErr_def onResult_def ret_def fail_def split: sum.splits option.splits)
    with es show ?thesis by (intro exI [of _ es]) (auto simp: list_all_iff deletes_nothing_def)
  next
    case True
    then obtain robot where robot: "found = Inr (Some robot)" by blast
    then have name: "robot_Name robot = robotFullName p r" using outcomeD(1) [OF outcome_findRobot] f by blast
    let ?del = "httpRequest c MethodDelete (robotsPath @ ''/'' @ itoa (robot_ID robot)) None"
    have "emits (\<lambda>ev. deletes_nothing ev \<or> ev = EvHTTP ?del)
       (andThen (deleteRobot tr c (robot_ID robot)) (\<lambda>_.
          andThen (wrapErr ''re-creating Harbor robot after delete: %w'' [] (createRobot tr c p r)) (\<lambda>creds.
            if creds = None
            then fail (Errorf ''refreshing Harbor robot secret: robot %q in project %q was re-created concurrently'' [r, p])
            else ret creds)))"
      by (intro emits_andThen emits_wrapErr emits_mono [OF emits_deleteRobot] emits_mono [OF robot_calls_delete_nothing(2)]
          emits_if emits_ret emits_fail) simp_all
    moreover have "(andThen (deleteRobot tr c (robot_ID robot)) (\<lambda>_.
          andThen (wrapErr ''re-creating Harbor robot after delete: %w'' [] (createRobot tr c p r)) (\<lambda>creds.
            if creds = None
            then fail (Errorf ''refreshing Harbor robot secret: robot %q in project %q was re-created concurrently'' [r, p])
            else ret creds))) s1 = (res, s')"
      using assms f robot by (simp add: http_RefreshRobotSecret_def andThen_def wrapErr_def onResult_def ret_def)
    ultimately obtain fs where "trace s' = trace s1 @ fs" "list_all (\<lambda>ev. deletes_nothing ev \<or> ev = EvHTTP ?del) fs"
      by (rule emitsD)
    with es f robot name show ?thesis
      by (intro exI [of _ "es @ fs"]) (auto simp: list_all_iff deletes_nothing_def)
  qed
qed

text \<open>A Harbor with one robot in the project, which forgets what it is told.\<close>

definition robot_server :: "nat transport" where
  "robot_server = \<lparr>tr_Do = (\<lambda>q n. (Inr (
     if rq_method q = MethodDelete then \<lparr>StatusCode = StatusOK, Body = []\<rparr>
     else if rq_method q = MethodPost then \<lparr>StatusCode = StatusCreated, Body = Marshal (JObj [(''name'', JStr ''r''), (''secret'', JStr ''s'')])\<rparr>
     else if HasPrefix (rq_url q) (hc_baseURL sample_http @ robotsPath)
     then \<lparr>StatusCode = StatusOK, Body = Marshal (JArr [JObj [(''id'', JInt 7), (''name'', JStr ''robot$t+t'')]])\<rparr>
     else \<lparr>StatusCode = StatusOK, Body = Marshal (JObj [(''project_id'', JInt 1)])\<rparr>), Suc n)), tr_MapOrder = (\<lambda>_ ks. ks)\<rparr>"

definition robot_start :: "(nat, event) env" where
  "robot_start = \<lparr>world = 0, trace = []\<rparr>"

lemma robot_refreshed: "\<not> isl (fst (http_RefreshRobotSecret robot_server sample_http ''t'' ''t'' robot_start))"
  by code_simp

theorem refresh_deletes_only_that_robot_witness:
  "\<exists>creds s'. http_RefreshRobotSecret robot_server sample_http ''t'' ''t'' robot_start = (Inr creds, s') \<and>
     (\<forall>q. EvHTTP q \<in> set (trace s') \<longrightarrow> rq_method q = MethodDelete \<longrightarrow>
        (\<exists>robot :: robotRef. robot_Name robot = robotFullName ''t'' ''t'' \<and>
           q = httpRequest sample_http MethodDelete (robotsPath @ ''/'' @ itoa (robot_ID robot)) None))"
proof -
  obtain creds s' where r: "http_RefreshRobotSecret robot_server sample_http ''t'' ''t'' robot_start = (Inr creds, s')"
    using robot_refreshed
    by (cases "http_RefreshRobotSecret robot_server sample_http ''t'' ''t'' robot_start"; cases "fst (http_RefreshRobotSecret robot_server sample_http ''t'' ''t'' robot_start)") auto
  obtain es where es: "trace s' = trace robot_start @ es" and all: "\<forall>q. EvHTTP q \<in> set es \<longrightarrow> rq_method q = MethodDelete \<longrightarrow>
      (\<exists>robot s1. findRobot robot_server sample_http ''t'' ''t'' robot_start = (Inr (Some robot), s1) \<and>
         robot_Name robot = robotFullName ''t'' ''t'' \<and>
         q = httpRequest sample_http MethodDelete (robotsPath @ ''/'' @ itoa (robot_ID robot)) None)"
    using refresh_deletes_only_that_robot [OF r] by blast
  have "trace s' = es" using es by (simp add: robot_start_def)
  with all r show ?thesis by blast
qed

end
