(* ===== verification/Bounds.thy ===== *)
theory Bounds
  imports Webhook Harbor_Server
begin

text \<open>
  How many requests an operation makes at most, whatever the answers are: the retry loop of the mutating webhook and
  the member loops of the Harbor client.
\<close>

section \<open>Counting requests\<close>

definition costs :: "nat \<Rightarrow> ('s, 'e, 'a) eff \<Rightarrow> bool" where
  "costs n m \<longleftrightarrow> (\<forall>s. length (trace (snd (m s))) \<le> length (trace s) + n)"

lemma costsD: "costs n m \<Longrightarrow> m s = (r, s') \<Longrightarrow> length (trace s') \<le> length (trace s) + n"
  unfolding costs_def by (metis snd_conv)

lemma costs_mono: "costs n m \<Longrightarrow> n \<le> k \<Longrightarrow> costs k m"
  unfolding costs_def by (meson add_left_mono le_trans)

lemma costs_pure: "costs 0 (ret x)" "costs 0 (fail e)"
  by (simp_all add: costs_def effect_defs)

lemma costs_request: "costs 1 (request ev f)"
  by (auto simp: costs_def request_def split: prod.splits)

lemma costs_apiCall: "costs 1 (apiCall ev f)"
  by (auto simp: costs_def apiCall_def request_def split: prod.splits sum.splits)

lemma costs_onResult:
  assumes "costs a m" and "\<And>e. costs b (h e)" and "\<And>x. costs b (k x)"
  shows "costs (a + b) (onResult m h k)"
  unfolding costs_def
proof
  fix s
  obtain r s' where r: "m s = (r, s')" by fastforce
  have "length (trace (snd (case r of Inl e \<Rightarrow> h e s' | Inr x \<Rightarrow> k x s'))) \<le> length (trace s') + b"
    using assms(2,3) by (cases r) (simp_all add: costs_def)
  with costsD [OF assms(1) r] r show "length (trace (snd (onResult m h k s))) \<le> length (trace s) + (a + b)"
    by (cases r) (auto simp: onResult_def)
qed

lemma costs_andThen: "costs a m \<Longrightarrow> (\<And>x. costs b (f x)) \<Longrightarrow> costs (a + b) (andThen m f)"
  unfolding andThen_onResult by (erule costs_onResult) (auto intro: costs_mono [OF costs_pure(2)])

lemma costs_wrapErr: "costs a m \<Longrightarrow> costs a (wrapErr f as m)"
  unfolding wrapErr_def using costs_onResult [of a m 0] costs_pure by fastforce

lemma costs_forEach: "(\<And>x. costs a (f x)) \<Longrightarrow> costs (a * length xs) (forEach f xs)"
  by (induction xs) (auto intro: costs_pure costs_andThen)

section \<open>The mutating webhook\<close>

lemma costs_generateNamespaceName: "costs 2 (generateNamespaceName rnd)"
proof -
  have b: "costs 1 (\<lambda>s. case request EvRandom (rnd_Byte rnd) s of (Inl m, s') \<Rightarrow> (Inl (StdError m), s') | (Inr b, s') \<Rightarrow> (Inr b, s'))"
    by (auto simp: costs_def request_def split: prod.splits sum.splits)
  have t: "costs 1 (\<lambda>s. case request EvRandom (rnd_String rnd 5) s of (str, s') \<Rightarrow> (Inr (randomPrefix p @ str), s'))" for p
    by (auto simp: costs_def request_def split: prod.splits)
  have "costs (1 + 1) (generateNamespaceName rnd)"
    unfolding generateNamespaceName_def by (intro costs_onResult b t costs_mono [OF costs_pure(2)]) simp
  then show ?thesis by (rule costs_mono) simp
qed

lemma costs_tryNames: "costs (3 * n) (tryNames reader rnd n)"
proof (induction n)
  case 0
  show ?case by (simp add: costs_pure)
next
  case (Suc n)
  have "costs (1 + 3 * n) (onResult (kGet reader (namespaceRef name)) h (\<lambda>_. tryNames reader rnd n))"
    if "\<And>e. costs 0 (h e)" for name and h :: "error \<Rightarrow> ('a, string) io"
    unfolding kGet_def by (intro costs_onResult costs_apiCall Suc costs_mono [OF that]) simp
  then have "costs (2 + (1 + 3 * n)) (tryNames reader rnd (Suc n))"
    unfolding tryNames.simps by (intro costs_andThen costs_generateNamespaceName) (simp add: costs_pure)
  then show ?case by (rule costs_mono) simp
qed

section \<open>The member loops\<close>

lemma costs_http_do: "costs 1 (http_do tr c m path b)"
  unfolding http_do_def Let_def
  using costs_request costs_mono [OF costs_pure(2), of 1] by (cases "url_Parse (hc_baseURL c @ path)") (simp_all del: One_nat_def)

lemma costs_member_calls:
  "costs 1 (addProjectMember tr c bp u role)" "costs 1 (updateProjectMember tr c bp i role)" "costs 1 (deleteProjectMember tr c bp i)"
  unfolding addProjectMember_def updateProjectMember_def deleteProjectMember_def doJSON_def
  by (rule costs_mono [OF costs_andThen [OF costs_http_do, where b = 0]]; simp add: costs_pure)+

lemma costs_syncDesired: "costs (length ds) (syncDesired tr c bp ds ex ms)"
proof (induction ds arbitrary: ex ms)
  case Nil
  show ?case by (simp add: costs_pure)
next
  case (Cons d ds)
  have "costs (1 + length ds) (syncDesired tr c bp (d # ds) ex ms)"
  proof (cases "map_of ex (pm_Username d)")
    case None
    show ?thesis unfolding syncDesired.simps None option.case
      by (intro costs_onResult costs_member_calls Cons.IH) (auto intro: Cons.IH costs_mono [OF costs_pure(2)])
  next
    case (Some cur)
    have "costs 1 (if em_RoleID cur \<noteq> pm_RoleID d then wrapErr f as (updateProjectMember tr c bp (em_ID cur) (pm_RoleID d)) else ret ())"
      for f as
      by (cases "em_RoleID cur = pm_RoleID d")
         (simp_all only: if_True if_False not_True_eq_False not_False_eq_True refl costs_wrapErr [OF costs_member_calls(2)] costs_mono [OF costs_pure(1) zero_le])
    then show ?thesis unfolding syncDesired.simps Some option.case by (intro costs_andThen Cons.IH)
  qed
  then show ?case by (rule costs_mono) simp
qed

lemma syncDesired_lookup_shrinks:
  "outcome (\<lambda>r. length (fst r) \<le> length ex) (\<lambda>_. True) (syncDesired tr c bp ds ex ms)"
proof (induction ds arbitrary: ex ms)
  case Nil
  show ?case by (simp add: outcome_ret)
next
  case (Cons d ds)
  have IH: "length ex' \<le> length ex \<Longrightarrow> outcome (\<lambda>r. length (fst r) \<le> length ex) (\<lambda>_. True) (syncDesired tr c bp ds ex' ms')" for ex' ms'
    by (rule outcome_conseq [OF Cons.IH]) auto
  have any: "outcome (\<lambda>_. True) (\<lambda>_. True) m" for m :: "('a, 'b) io" by (rule outcomeI) simp_all
  show ?case
    by (cases "map_of ex (pm_Username d)")
       (auto intro!: outcome_onResult [OF any] outcome_andThen [OF any] IH outcome_fail simp: length_delete_le)
qed

lemma update_length: "length (AList.update k v al) \<le> Suc (length al)"
  by (induction al) auto

lemma membersByName_length: "length (membersByName ms) \<le> length ms"
proof -
  have "length (foldl (\<lambda>m e. AList.update (em_Username e) e m) al ms) \<le> length al + length ms" for al
  proof (induction ms arbitrary: al)
    case (Cons m ms)
    from Cons.IH [of "AList.update (em_Username m) m al"] update_length [of "em_Username m" m al] show ?case by simp
  qed simp
  from this [of "[]"] show ?thesis by (simp add: membersByName_def)
qed

lemma costs_removeLeftover:
  assumes "\<And>v ks. length (tr_MapOrder tr v ks) = length ks"
  shows "costs (length ex) (removeLeftover tr c bp ex)"
proof -
  have one: "costs 1 (case map_of ex name of
         Some cur \<Rightarrow> wrapErr ''removing member %s: %w'' [em_Username cur] (deleteProjectMember tr c bp (em_ID cur))
       | None \<Rightarrow> ret ())" for name
    by (cases "map_of ex name")
       (simp_all only: option.case costs_wrapErr [OF costs_member_calls(3)] costs_mono [OF costs_pure(1) zero_le])
  have "costs (1 * length names) (forEach (\<lambda>name. case map_of ex name of
         Some cur \<Rightarrow> wrapErr ''removing member %s: %w'' [em_Username cur] (deleteProjectMember tr c bp (em_ID cur))
       | None \<Rightarrow> ret ()) names)" for names
    by (rule costs_forEach [OF one])
  from this [of "tr_MapOrder tr v (map fst ex)" for v] show ?thesis
    unfolding costs_def removeLeftover_def by (simp add: assms)
qed

lemma costs_member_loops:
  assumes "\<And>v ks. length (tr_MapOrder tr v ks) = length ks"
    and "andThen (syncDesired tr c bp ds ex ms) (\<lambda>(ex', missing). andThen (removeLeftover tr c bp ex') (\<lambda>_. ret missing)) s = (res, s')"
  shows "length (trace s') \<le> length (trace s) + length ds + length ex"
proof (cases "syncDesired tr c bp ds ex ms s")
  case (Pair r s1)
  have 1: "length (trace s1) \<le> length (trace s) + length ds" by (rule costsD [OF costs_syncDesired Pair])
  show ?thesis
  proof (cases r)
    case (Inl e)
    with 1 Pair assms(2) show ?thesis by (simp add: andThen_def)
  next
    case (Inr p)
    obtain ex' missing where p: "p = (ex', missing)" by fastforce
    have "length ex' \<le> length ex"
      using outcomeD(1) [OF syncDesired_lookup_shrinks] Pair Inr p by fastforce
    moreover have "costs (length ex' + 0) (andThen (removeLeftover tr c bp ex') (\<lambda>_. ret missing))"
      by (intro costs_andThen costs_removeLeftover assms(1) costs_pure)
    then have "length (trace s') \<le> length (trace s1) + length ex'"
      using costsD assms(2) Pair Inr p by (fastforce simp: andThen_def)
    ultimately show ?thesis using 1 by simp
  qed
qed

lemma http_do_answer:
  assumes "http_do tr c m path b s = (r, s1)" and "r = Inr resp"
  obtains v where "tr_Do tr (httpRequest c m path b) (world s) = (Inr resp, v)"
  using assms that
  by (cases "url_Parse (hc_baseURL c @ path)"; cases "tr_Do tr (httpRequest c m path b) (world s)";
      cases "fst (tr_Do tr (httpRequest c m path b) (world s))")
     (auto simp: http_do_def request_def fail_def Let_def)

section \<open>Properties\<close>

text \<open>
  C40: defaulting ends after a bounded number of requests: at most five candidate names are drawn (two draws each) and
  looked up, so at most fifteen requests are made, whatever the API server and the random source answer; and when all
  five names are taken the call fails instead of handing one out.\<close>

theorem defaulting_is_bounded:
  assumes "Default reader rnd ws s = (res, s')"
  shows "length (trace s') \<le> length (trace s) + 15"
proof -
  have "costs 15 (generateAvailableNamespaceName reader rnd)"
    using costs_tryNames [of namespaceNameAttempts reader rnd]
    by (simp add: generateAvailableNamespaceName_def namespaceNameAttempts_def)
  then have "costs (15 + 0 + 0) (Default reader rnd ws)"
    unfolding Default_def
    by (intro costs_andThen) (auto intro!: costs_pure costs_mono [OF costs_andThen [where b = 0]] costs_mono [OF costs_pure(1)])
  from costsD [OF this assms] show ?thesis by simp
qed

theorem defaulting_is_bounded_witness:
  "\<exists>res s'. Default mem_client mem_random unnamed_ws (start []) = (res, s') \<and> length (trace s') \<le> length (trace (start [])) + 15"
proof -
  obtain res s' where r: "Default mem_client mem_random unnamed_ws (start []) = (res, s')" by fastforce
  from defaulting_is_bounded [OF r] r show ?thesis by blast
qed

text \<open>
  C39: reconciling the members of a project takes one request for the list, at most one per desired member and at most
  one per listed member, whatever Harbor answers.\<close>

theorem member_sync_is_bounded:
  assumes "\<And>v ks. length (tr_MapOrder tr v ks) = length ks"
    and "http_ReconcileProjectMembers tr c project desired s = (res, s')"
  shows "\<exists>k. length (trace s') \<le> length (trace s) + 1 + length desired + k \<and>
    (k = 0 \<or> (\<exists>resp v ms. tr_Do tr (httpRequest c MethodGet (membersPath project) None) (world s) = (Inr resp, v) \<and>
       decodeMemberList (Body resp) = Inr ms \<and> k \<le> length ms))"
proof (cases "http_do tr c MethodGet (membersPath project) None s")
  case (Pair r s1)
  have 1: "length (trace s1) \<le> length (trace s) + 1" by (rule costsD [OF costs_http_do Pair])
  show ?thesis
  proof (cases "\<exists>resp ms. r = Inr resp \<and> StatusCode resp = StatusOK \<and> decodeMemberList (Body resp) = Inr ms")
    case True
    then obtain resp ms where resp: "r = Inr resp" "StatusCode resp = StatusOK" "decodeMemberList (Body resp) = Inr ms" by blast
    with assms(2) Pair have "length (trace s') \<le> length (trace s1) + length desired + length (membersByName ms)"
      by (intro costs_member_loops [OF assms(1)])
         (auto simp: http_ReconcileProjectMembers_def andThen_def wrapErr_def onResult_def ret_def Let_def)
    moreover from Pair resp(1) obtain v where "tr_Do tr (httpRequest c MethodGet (membersPath project) None) (world s) = (Inr resp, v)"
      by (rule http_do_answer)
    ultimately show ?thesis using 1 membersByName_length [of ms] resp(3)
      by (intro exI [of _ "length (membersByName ms)"]) auto
  next
    case False
    with assms(2) Pair have "trace s' = trace s1"
      by (cases r) (auto simp: http_ReconcileProjectMembers_def andThen_def wrapErr_def onResult_def ret_def fail_def Let_def
          split: sum.splits if_splits)
    with 1 show ?thesis by auto
  qed
qed


theorem member_sync_is_bounded_witness:
  "\<exists>k. length (trace (snd sample_sync)) \<le> length (trace sample_harbor) + 1 + length sample_roles + k \<and> k \<le> 2"
proof -
  have run: "http_ReconcileProjectMembers (harborTransport 10 sample_http ''t'') sample_http ''t'' sample_roles sample_harbor =
      (fst sample_sync, snd sample_sync)"
    by (simp add: sample_sync_def)
  have list: "tr_Do (harborTransport 10 sample_http ''t'') (httpRequest sample_http MethodGet (membersPath ''t'') None) (world sample_harbor) = (Inr resp, v) \<Longrightarrow>
      decodeMemberList (Body resp) = Inr ms \<Longrightarrow> length ms = 2" for resp v ms
    using serve_list [of "world sample_harbor" 10 sample_http "''t''"]
    by (auto simp: harborTransport_def sample_harbor_def int64_def valid_utf8_ascii)
  from member_sync_is_bounded [OF _ run] list show ?thesis by fastforce
qed

end
