(* ===== verification/Go_Memory.thy ===== *)
theory Go_Memory
  imports Workspace_Types
begin

text \<open>
  Go's memory, as far as the Workspace API types use it: structs whose pointer and slice fields hold addresses of
  typed cells. The locale \<open>deep_copier\<close> states what a deep copy of a value promises, and is closed under pointers,
  slices, pairs and structs; the generated methods of \<open>zz_generated.deepcopy.go\<close> (\<open>Deep_Copy\<close>) are built from these.
\<close>

named_theorems copier_rules \<open>deep copies of compound values\<close>

section \<open>Structs with addresses\<close>

type_synonym addr = nat

text \<open>A slice header; the capacity plays no part here. A nil slice or pointer is \<open>None\<close>.\<close>

record slice =
  sl_array :: addr
  sl_off :: nat
  sl_len :: nat

text \<open>A struct of another package: its plain fields, and the addresses it holds.\<close>

record foreign =
  fo_flat :: string
  fo_refs :: "addr list"

record TypeMeta =
  tm_kind :: string
  tm_apiVersion :: string

record goMember =
  gm_Role :: MemberRole
  gm_Subject :: string
  gm_Name :: "addr option"
  gm_ServiceAccount :: bool

record goIsolation =
  gi_Enabled :: bool
  gi_AllowedNamespaces :: "slice option"

record goSpec =
  gs_Namespace :: string
  gs_Members :: "slice option"
  gs_ResourceQuota :: "addr option"
  gs_LimitRange :: "addr option"
  gs_NetworkIsolation :: goIsolation

record goStatus =
  gt_ObservedGeneration :: int
  gt_NamespaceRef :: "addr option"
  gt_ResourceQuotaRef :: "addr option"
  gt_LimitRangeRef :: "addr option"
  gt_RoleBindingRefs :: "slice option"
  gt_NetworkPolicyRef :: "addr option"
  gt_ImagePullSecretRef :: "addr option"
  gt_HelmRepositoryRef :: "addr option"
  gt_Conditions :: "slice option"

record goWorkspace =
  gw_TypeMeta :: TypeMeta
  gw_ObjectMeta :: foreign
  gw_Spec :: goSpec
  gw_Status :: goStatus

record goWorkspaceList =
  gl_TypeMeta :: TypeMeta
  gl_ListMeta :: foreign
  gl_Items :: "slice option"

section \<open>Cells and the heap\<close>

datatype cell =
    StringC string | StringsC "string list"
  | MemberC goMember | MembersC "goMember list"
  | IsolationC goIsolation
  | QuotaC foreign | LimitsC foreign | ForeignC foreign
  | RefC ResourceReference | RefsC "ResourceReference list"
  | ConditionsC "Condition list"
  | SpecC goSpec | StatusC goStatus
  | WorkspaceC goWorkspace | WorkspacesC "goWorkspace list" | WorkspaceListC goWorkspaceList

text \<open>Addresses below \<open>h_next\<close> have been handed out; the collector never reuses one that is still held.\<close>

record heap =
  h_cells :: "addr \<Rightarrow> cell option"
  h_next :: addr

definition alloc :: "cell \<Rightarrow> heap \<Rightarrow> addr \<times> heap" where
  "alloc c h = (h_next h, h\<lparr>h_cells := (h_cells h)(h_next h := Some c), h_next := Suc (h_next h)\<rparr>)"

definition store_cell :: "addr \<Rightarrow> cell \<Rightarrow> heap \<Rightarrow> heap" where
  "store_cell a c h = h\<lparr>h_cells := (h_cells h)(a := Some c)\<rparr>"

definition deref :: "(cell \<Rightarrow> 'a option) \<Rightarrow> heap \<Rightarrow> addr option \<Rightarrow> 'a option" where
  "deref dest h p = Option.bind p (\<lambda>a. Option.bind (h_cells h a) dest)"

definition elems :: "(cell \<Rightarrow> 'a list option) \<Rightarrow> heap \<Rightarrow> slice \<Rightarrow> 'a list" where
  "elems dest h s = (case deref dest h (Some (sl_array s)) of
       None \<Rightarrow> [] | Some xs \<Rightarrow> take (sl_len s) (drop (sl_off s) xs))"

lemma alloc_simps [simp]:
  "fst (alloc c h) = h_next h" "h_next (snd (alloc c h)) = Suc (h_next h)"
  "h_cells (snd (alloc c h)) = (h_cells h)(h_next h := Some c)"
  "h_next (store_cell a c h) = h_next h" "h_cells (store_cell a c h) = (h_cells h)(a := Some c)"
  by (simp_all add: alloc_def store_cell_def)

text \<open>\<open>h'\<close> has everything \<open>h\<close> has, and perhaps new cells.\<close>

definition extends :: "heap \<Rightarrow> heap \<Rightarrow> bool" where
  "extends h h' \<longleftrightarrow> h_next h \<le> h_next h' \<and> (\<forall>a < h_next h. h_cells h' a = h_cells h a)"

text \<open>\<open>h'\<close> agrees with \<open>h\<close> on the cells in \<open>A\<close> and has handed out no fewer addresses.\<close>

definition same_on :: "addr set \<Rightarrow> heap \<Rightarrow> heap \<Rightarrow> bool" where
  "same_on A h h' \<longleftrightarrow> h_next h \<le> h_next h' \<and> (\<forall>a \<in> A. h_cells h' a = h_cells h a)"

lemma extends_refl [simp]: "extends h h"
  by (simp add: extends_def)

lemma extends_trans: "extends h h1 \<Longrightarrow> extends h1 h2 \<Longrightarrow> extends h h2"
  by (auto simp: extends_def)

lemma extends_alloc: "extends h (snd (alloc c h))"
  by (simp add: extends_def)

lemma extends_store: "extends h h' \<Longrightarrow> h_next h \<le> a \<Longrightarrow> extends h (store_cell a c h')"
  by (simp add: extends_def)

lemma extends_same_on: "extends h h' \<Longrightarrow> A \<subseteq> {..<h_next h} \<Longrightarrow> same_on A h h'"
  by (auto simp: extends_def same_on_def)

lemma extends_next: "extends h h' \<Longrightarrow> h_next h \<le> h_next h'"
  by (simp add: extends_def)

lemma same_on_refl [simp]: "same_on A h h"
  by (simp add: same_on_def)

lemma same_on_subset: "same_on B h h' \<Longrightarrow> A \<subseteq> B \<Longrightarrow> same_on A h h'"
  by (auto simp: same_on_def)

lemma same_on_trans: "same_on A h h1 \<Longrightarrow> same_on A h1 h2 \<Longrightarrow> same_on A h h2"
  by (auto simp: same_on_def)

lemma same_on_store: "a \<notin> A \<Longrightarrow> same_on A h (store_cell a c h)"
  by (auto simp: same_on_def)

section \<open>Copying\<close>

text \<open>
  \<open>DeepCopyInto\<close> is a function from the struct read to the struct written through \<open>out\<close>. The receiver of \<open>DeepCopy\<close>
  is the struct it points to, \<open>None\<close> for nil: \<open>out := new(T); in.DeepCopyInto(out); return out\<close>.
\<close>

type_synonym 'a copying = "'a \<Rightarrow> heap \<Rightarrow> 'a \<times> heap"

definition plain :: "'a copying" where
  "plain x h = (x, h)"

definition newCopy :: "('a \<Rightarrow> cell) \<Rightarrow> 'a \<Rightarrow> 'a copying \<Rightarrow> 'a option \<Rightarrow> heap \<Rightarrow> addr option \<times> heap" where
  "newCopy mk zero copy inp h = (case inp of
       None \<Rightarrow> (None, h)
     | Some x \<Rightarrow>
         (let (out, h1) = alloc (mk zero) h; (y, h2) = copy x h1
          in (Some out, store_cell out (mk y) h2)))"

text \<open>\<open>if in.F != nil { in, out := &in.F, &out.F; *out = new(T); (*in).DeepCopyInto(*out) }\<close>\<close>

definition copyPtr :: "('a \<Rightarrow> cell) \<Rightarrow> (cell \<Rightarrow> 'a option) \<Rightarrow> 'a \<Rightarrow> 'a copying \<Rightarrow> addr option copying" where
  "copyPtr mk dest zero copy p h = newCopy mk zero copy (deref dest h p) h"

definition storeElem :: "('a list \<Rightarrow> cell) \<Rightarrow> (cell \<Rightarrow> 'a list option) \<Rightarrow> addr \<Rightarrow> nat \<Rightarrow> 'a \<Rightarrow> heap \<Rightarrow> heap" where
  "storeElem mk dest b i y h = (case deref dest h (Some b) of
       None \<Rightarrow> h | Some ys \<Rightarrow> store_cell b (mk (ys[i := y])) h)"

text \<open>\<open>for i := range *in { (*in)[i].DeepCopyInto(&(*out)[i]) }\<close>, from index \<open>i\<close> on\<close>

fun copyElems :: "('a list \<Rightarrow> cell) \<Rightarrow> (cell \<Rightarrow> 'a list option) \<Rightarrow> 'a copying \<Rightarrow> addr \<Rightarrow> nat \<Rightarrow> 'a list \<Rightarrow> heap \<Rightarrow> heap" where
  "copyElems mk dest copy out i [] h = h"
| "copyElems mk dest copy out i (x # xs) h =
     (let (y, h1) = copy x h in copyElems mk dest copy out (Suc i) xs (storeElem mk dest out i y h1))"

definition copySlice ::
    "('a list \<Rightarrow> cell) \<Rightarrow> (cell \<Rightarrow> 'a list option) \<Rightarrow> 'a \<Rightarrow> 'a copying \<Rightarrow> slice option copying" where
  "copySlice mk dest zero copy s h = (case s of
       None \<Rightarrow> (None, h)
     | Some sl \<Rightarrow>
         (let (out, h1) = alloc (mk (replicate (sl_len sl) zero)) h
          in (Some \<lparr>sl_array = out, sl_off = 0, sl_len = sl_len sl\<rparr>,
              copyElems mk dest copy out 0 (elems dest h1 sl) h1)))"

text \<open>\<open>*out = make([]T, len(*in)); copy(*out, *in)\<close>: the elements hold no addresses.\<close>

definition copyFlat :: "('a list \<Rightarrow> cell) \<Rightarrow> (cell \<Rightarrow> 'a list option) \<Rightarrow> 'a \<Rightarrow> slice option copying" where
  "copyFlat mk dest zero s h = (case s of
       None \<Rightarrow> (None, h)
     | Some sl \<Rightarrow>
         (let (out, h1) = alloc (mk (replicate (sl_len sl) zero)) h; xs = elems dest h1 sl
          in (Some \<lparr>sl_array = out, sl_off = 0, sl_len = sl_len sl\<rparr>,
              store_cell out (mk (xs @ drop (length xs) (replicate (sl_len sl) zero))) h1)))"

section \<open>The contract of a deep copy\<close>

text \<open>
  \<open>val h x\<close> is what \<open>x\<close> means in memory \<open>h\<close>, \<open>owns h x\<close> the cells it is made of, \<open>typed h x\<close> that every address it
  holds leads to a cell of the right type. A deep copy of a typed value is typed, means the same, consists of new
  cells only, and leaves the old ones as they are; meaning and typing depend on the cells a value is made of only.
\<close>

locale deep_copier =
  fixes copy :: "'a copying" and val :: "heap \<Rightarrow> 'a \<Rightarrow> 'v" and owns :: "heap \<Rightarrow> 'a \<Rightarrow> addr set"
    and typed :: "heap \<Rightarrow> 'a \<Rightarrow> bool"
  assumes typed_owns: "typed h x \<Longrightarrow> owns h x \<subseteq> {..<h_next h}"
    and copy_extends: "typed h x \<Longrightarrow> copy x h = (y, h') \<Longrightarrow> extends h h'"
    and copy_typed: "typed h x \<Longrightarrow> copy x h = (y, h') \<Longrightarrow> typed h' y"
    and copy_val: "typed h x \<Longrightarrow> copy x h = (y, h') \<Longrightarrow> val h' y = val h x"
    and copy_fresh: "typed h x \<Longrightarrow> copy x h = (y, h') \<Longrightarrow> owns h' y \<subseteq> {h_next h..<h_next h'}"
    and typed_local: "typed h x \<Longrightarrow> same_on (owns h x) h h' \<Longrightarrow> typed h' x"
    and val_local: "typed h x \<Longrightarrow> same_on (owns h x) h h' \<Longrightarrow> val h' x = val h x"
    and owns_local: "typed h x \<Longrightarrow> same_on (owns h x) h h' \<Longrightarrow> owns h' x = owns h x"
begin

lemmas local_facts = typed_local val_local owns_local

lemma extended:
  assumes "typed h x" and "extends h h'"
  shows "typed h' x" and "val h' x = val h x" and "owns h' x = owns h x"
  using local_facts [OF assms(1) extends_same_on [OF assms(2) typed_owns [OF assms(1)]]] by auto

text \<open>The original and the copy have no cell in common, so a write to one of them never shows in the other.\<close>

lemma copy_apart:
  assumes "typed h x" and "copy x h = (y, h')"
  shows "owns h' x \<inter> owns h' y = {}"
  using copy_fresh [OF assms] extended(3) [OF assms(1) copy_extends [OF assms]] typed_owns [OF assms(1)]
  by fastforce

lemma isolated:
  assumes "typed h x" and "copy x h = (y, h')"
  shows "same_on (- owns h' y) h' k \<Longrightarrow> val k x = val h x"
    and "same_on (- owns h' x) h' k \<Longrightarrow> val k y = val h x"
proof -
  note X = extended [OF assms(1) copy_extends [OF assms]] and A = copy_apart [OF assms]
  show "val k x = val h x" if "same_on (- owns h' y) h' k"
    using val_local [OF X(1) same_on_subset [OF that]] A X(2) by auto
  show "val k y = val h x" if "same_on (- owns h' x) h' k"
    using val_local [OF copy_typed [OF assms] same_on_subset [OF that]] A copy_val [OF assms] by auto
qed

end

text \<open>\<open>*out = *in\<close> is a deep copy of a value without addresses.\<close>

lemma deep_copier_plain [copier_rules]: "deep_copier plain (\<lambda>_. f) (\<lambda>_ _. {}) (\<lambda>_ _. True)"
  by unfold_locales (simp_all add: plain_def)

section \<open>Pointers\<close>

definition ptr_val :: "(cell \<Rightarrow> 'a option) \<Rightarrow> (heap \<Rightarrow> 'a \<Rightarrow> 'v) \<Rightarrow> heap \<Rightarrow> addr option \<Rightarrow> 'v option" where
  "ptr_val dest val h p = map_option (val h) (deref dest h p)"

definition ptr_owns :: "(cell \<Rightarrow> 'a option) \<Rightarrow> (heap \<Rightarrow> 'a \<Rightarrow> addr set) \<Rightarrow> heap \<Rightarrow> addr option \<Rightarrow> addr set" where
  "ptr_owns dest owns h p = (case p of None \<Rightarrow> {} | Some a \<Rightarrow>
     insert a (case deref dest h p of None \<Rightarrow> {} | Some x \<Rightarrow> owns h x))"

definition ptr_typed :: "(cell \<Rightarrow> 'a option) \<Rightarrow> (heap \<Rightarrow> 'a \<Rightarrow> bool) \<Rightarrow> heap \<Rightarrow> addr option \<Rightarrow> bool" where
  "ptr_typed dest typed h p = (case p of None \<Rightarrow> True | Some a \<Rightarrow>
     a < h_next h \<and> (case deref dest h p of None \<Rightarrow> False | Some x \<Rightarrow> typed h x))"

lemma deref_simps [simp]:
  "deref dest h None = None" "deref dest h (Some a) = Option.bind (h_cells h a) dest"
  by (simp_all add: deref_def)

lemmas ptr_defs = ptr_val_def ptr_owns_def ptr_typed_def

locale pointee = deep_copier copy val owns typed
  for copy :: "'a copying" and val :: "heap \<Rightarrow> 'a \<Rightarrow> 'v" and owns typed +
  fixes mk :: "'a \<Rightarrow> cell" and dest :: "cell \<Rightarrow> 'a option" and zero :: 'a
  assumes dest_mk: "dest (mk x) = Some x"
begin

text \<open>\<open>DeepCopy\<close> of a struct: a pointer to a deep copy of it.\<close>

lemma newCopy_deep:
  assumes "typed h x" and "newCopy mk zero copy (Some x) h = (p, h')"
  obtains y where "p = Some (h_next h)" and "h_cells h' (h_next h) = Some (mk y)" and "typed h' y"
    and "val h' y = val h x" and "insert (h_next h) (owns h' y) \<subseteq> {h_next h..<h_next h'}" and "extends h h'"
proof -
  let ?h1 = "snd (alloc (mk zero) h)"
  obtain y h2 where y: "copy x ?h1 = (y, h2)" by fastforce
  have p: "p = Some (h_next h)" and h': "h' = store_cell (h_next h) (mk y) h2"
    using assms(2) y by (auto simp: newCopy_def alloc_def split: prod.splits)
  note X = extended [OF assms(1) extends_alloc [of h "mk zero"]]
  have e: "extends ?h1 h2" by (rule copy_extends [OF X(1) y])
  have o: "owns h2 y \<subseteq> {Suc (h_next h)..<h_next h2}" using copy_fresh [OF X(1) y] by simp
  then have "same_on (owns h2 y) h2 h'" unfolding h' by (intro same_on_store) auto
  note Y = local_facts [OF copy_typed [OF X(1) y] this]
  show ?thesis
  proof (rule that [OF p])
    show "extends h h'"
      unfolding h' by (rule extends_store [OF extends_trans [OF extends_alloc e]]) simp
    show "insert (h_next h) (owns h' y) \<subseteq> {h_next h..<h_next h'}"
      using Y(3) extends_next [OF e] o h' by auto
  qed (use Y X(2) copy_val [OF X(1) y] h' in auto)
qed

lemma newCopy_nil: "newCopy mk zero copy None h = (None, h)"
  by (simp add: newCopy_def)

end

sublocale pointee \<subseteq> ptr: deep_copier "copyPtr mk dest zero copy" "ptr_val dest val" "ptr_owns dest owns" "ptr_typed dest typed"
proof
  fix h p q h'
  assume t: "ptr_typed dest typed h p" and c: "copyPtr mk dest zero copy p h = (q, h')"
  have "extends h h' \<and> ptr_typed dest typed h' q \<and> ptr_val dest val h' q = ptr_val dest val h p \<and>
      ptr_owns dest owns h' q \<subseteq> {h_next h..<h_next h'}"
  proof (cases p)
    case None
    with c show ?thesis by (auto simp: copyPtr_def newCopy_nil ptr_defs)
  next
    case (Some a)
    with t obtain x where x: "deref dest h p = Some x" "typed h x"
      by (auto simp: ptr_typed_def split: option.splits)
    with c have "newCopy mk zero copy (Some x) h = (q, h')" by (simp add: copyPtr_def)
    from newCopy_deep [OF x(2) this] obtain y where y: "q = Some (h_next h)" "h_cells h' (h_next h) = Some (mk y)" "typed h' y"
      "val h' y = val h x" "insert (h_next h) (owns h' y) \<subseteq> {h_next h..<h_next h'}" "extends h h'" .
    with x show ?thesis by (simp add: ptr_defs dest_mk)
  qed
  then show "extends h h'" "ptr_typed dest typed h' q" "ptr_val dest val h' q = ptr_val dest val h p"
    "ptr_owns dest owns h' q \<subseteq> {h_next h..<h_next h'}" by auto
next
  fix h p h'
  assume t: "ptr_typed dest typed h p" and s: "same_on (ptr_owns dest owns h p) h h'"
  have "ptr_typed dest typed h' p \<and> ptr_val dest val h' p = ptr_val dest val h p \<and> ptr_owns dest owns h' p = ptr_owns dest owns h p"
  proof (cases p)
    case (Some a)
    with t obtain x where x: "deref dest h p = Some x" "typed h x" "a < h_next h"
      by (auto simp: ptr_typed_def split: option.splits)
    with Some s have d: "deref dest h' p = Some x" "same_on (owns h x) h h'" "h_next h \<le> h_next h'"
      by (auto simp: ptr_owns_def same_on_def)
    with Some x local_facts [OF x(2) d(2)] show ?thesis by (simp add: ptr_defs)
  qed (simp add: ptr_defs)
  then show "ptr_typed dest typed h' p" "ptr_val dest val h' p = ptr_val dest val h p"
    "ptr_owns dest owns h' p = ptr_owns dest owns h p" by auto
qed (auto simp: ptr_defs split: option.splits dest: typed_owns)


section \<open>Slices\<close>

definition slice_val :: "(cell \<Rightarrow> 'a list option) \<Rightarrow> (heap \<Rightarrow> 'a \<Rightarrow> 'v) \<Rightarrow> heap \<Rightarrow> slice option \<Rightarrow> 'v list" where
  "slice_val dest val h s = (case s of None \<Rightarrow> [] | Some sl \<Rightarrow> map (val h) (elems dest h sl))"

definition slice_owns :: "(cell \<Rightarrow> 'a list option) \<Rightarrow> (heap \<Rightarrow> 'a \<Rightarrow> addr set) \<Rightarrow> heap \<Rightarrow> slice option \<Rightarrow> addr set" where
  "slice_owns dest owns h s = (case s of None \<Rightarrow> {} | Some sl \<Rightarrow>
     insert (sl_array sl) (\<Union>x \<in> set (elems dest h sl). owns h x))"

text \<open>The array exists, the slice lies within it, and the elements are typed.\<close>

definition slice_typed :: "(cell \<Rightarrow> 'a list option) \<Rightarrow> (heap \<Rightarrow> 'a \<Rightarrow> bool) \<Rightarrow> heap \<Rightarrow> slice option \<Rightarrow> bool" where
  "slice_typed dest typed h s = (case s of None \<Rightarrow> True | Some sl \<Rightarrow>
     sl_array sl < h_next h \<and>
     (case deref dest h (Some (sl_array sl)) of None \<Rightarrow> False
      | Some xs \<Rightarrow> sl_off sl + sl_len sl \<le> length xs) \<and>
     list_all (typed h) (elems dest h sl))"

lemmas slice_defs = slice_val_def slice_owns_def slice_typed_def

lemma elems_cong: "h_cells h' (sl_array sl) = h_cells h (sl_array sl) \<Longrightarrow> elems dest h' sl = elems dest h sl"
  by (simp add: elems_def)

lemma elems_whole:
  "Option.bind (h_cells h b) dest = Some xs \<Longrightarrow> length xs = n \<Longrightarrow> elems dest h \<lparr>sl_array = b, sl_off = 0, sl_len = n\<rparr> = xs"
  by (simp add: elems_def)

lemma elems_length: "slice_typed dest typed h (Some sl) \<Longrightarrow> length (elems dest h sl) = sl_len sl"
  by (auto simp: slice_typed_def elems_def split: option.splits)

locale element = deep_copier copy val owns typed
  for copy :: "'a copying" and val :: "heap \<Rightarrow> 'a \<Rightarrow> 'v" and owns typed +
  fixes mk :: "'a list \<Rightarrow> cell" and dest :: "cell \<Rightarrow> 'a list option" and zero :: 'a
  assumes dest_mk: "dest (mk xs) = Some xs"
begin

text \<open>
  The copying loop. \<open>filled\<close>: the array at \<open>b\<close> holds \<open>ys\<close>, and its first \<open>i\<close> elements are finished copies, made of
  cells younger than the array.
\<close>

definition filled :: "heap \<Rightarrow> addr \<Rightarrow> nat \<Rightarrow> 'a list \<Rightarrow> bool" where
  "filled h b i ys \<longleftrightarrow> b < h_next h \<and> h_cells h b = Some (mk ys) \<and>
     (\<forall>y \<in> set (take i ys). typed h y \<and> owns h y \<subseteq> {Suc b..<h_next h})"

lemma filled_extends:
  assumes "filled h b i ys" and "extends h h'"
  shows "filled h' b i ys" and "map (val h') (take i ys) = map (val h) (take i ys)"
proof -
  have Y: "typed h' y" "val h' y = val h y" "owns h' y \<subseteq> {Suc b..<h_next h'}" if "y \<in> set (take i ys)" for y
    using assms(1) that extended [OF _ assms(2), of y] extends_next [OF assms(2)]
    unfolding filled_def by fastforce+
  show "filled h' b i ys" using assms Y by (auto simp: filled_def extends_def)
  show "map (val h') (take i ys) = map (val h) (take i ys)" using Y(2) by simp
qed

lemma filled_store:
  assumes "filled h b i ys" and "i < length ys" and "typed h y" and "owns h y \<subseteq> {Suc b..<h_next h}"
  defines "k \<equiv> store_cell b (mk (ys[i := y])) h"
  shows "filled k b (Suc i) (ys[i := y])"
    and "map (val k) (take (Suc i) (ys[i := y])) = map (val h) (take i ys) @ [val h y]"
proof -
  have z: "take (Suc i) (ys[i := y]) = take i ys @ [y]"
    using assms(2) by (simp add: take_Suc_conv_app_nth)
  have O: "typed h z \<and> owns h z \<subseteq> {Suc b..<h_next h}" if "z \<in> set (take i ys @ [y])" for z
    using assms(1,3,4) that unfolding filled_def by auto
  have Z: "typed k z" "val k z = val h z" "owns k z = owns h z" if "z \<in> set (take i ys @ [y])" for z
  proof -
    have "b \<notin> owns h z" using O [OF that] by auto
    with O [OF that] local_facts [OF _ same_on_store, of h z b "mk (ys[i := y])"]
    show "typed k z" "val k z = val h z" "owns k z = owns h z" unfolding k_def by auto
  qed
  show "filled k b (Suc i) (ys[i := y])"
    unfolding filled_def z using assms(1) O Z by (auto simp: filled_def k_def)
  show "map (val k) (take (Suc i) (ys[i := y])) = map (val h) (take i ys) @ [val h y]"
    unfolding z using Z(2) by simp
qed

lemma copyElems_fills:
  assumes "filled h b i ys" and "i + length xs = length ys" and "\<forall>x \<in> set xs. typed h x \<and> b \<notin> owns h x"
  shows "\<exists>zs. filled (copyElems mk dest copy b i xs h) b (length ys) zs \<and> length zs = length ys \<and>
     map (val (copyElems mk dest copy b i xs h)) zs = map (val h) (take i ys) @ map (val h) xs \<and>
     same_on ({..<h_next h} - {b}) h (copyElems mk dest copy b i xs h)"
  using assms
proof (induction xs arbitrary: h i ys)
  case Nil
  then show ?case by (auto intro!: exI [of _ ys])
next
  case (Cons x xs)
  obtain y h1 where y: "copy x h = (y, h1)" by fastforce
  have x: "typed h x" using Cons.prems(3) by simp
  note e = copy_extends [OF x y]
  note F = filled_extends [OF Cons.prems(1) e]
  have b: "b < h_next h" using Cons.prems(1) by (simp add: filled_def)
  have "owns h1 y \<subseteq> {Suc b..<h_next h1}" using copy_fresh [OF x y] b by (auto simp: subset_iff)
  note S = filled_store [OF F(1) _ copy_typed [OF x y] this]
  let ?k = "store_cell b (mk (ys[i := y])) h1"
  have k: "storeElem mk dest b i y h1 = ?k" using F(1) by (simp add: storeElem_def filled_def dest_mk)
  have o: "same_on ({..<h_next h} - {b}) h ?k"
    using e by (auto simp: extends_def same_on_def)
  have X: "typed ?k z \<and> val ?k z = val h z \<and> b \<notin> owns ?k z" if "z \<in> set xs" for z
  proof -
    have "owns h z \<subseteq> {..<h_next h} - {b}" "typed h z"
      using Cons.prems(3) that typed_owns [of h z] by auto
    then show ?thesis using local_facts [OF _ same_on_subset [OF o]] by auto
  qed
  have i: "i < length ys" using Cons.prems(2) by simp
  obtain zs where zs: "filled (copyElems mk dest copy b (Suc i) xs ?k) b (length (ys[i := y])) zs" "length zs = length (ys[i := y])"
    "map (val (copyElems mk dest copy b (Suc i) xs ?k)) zs = map (val ?k) (take (Suc i) (ys[i := y])) @ map (val ?k) xs"
    "same_on ({..<h_next ?k} - {b}) ?k (copyElems mk dest copy b (Suc i) xs ?k)"
    using Cons.IH [OF S(1) [OF i]] Cons.prems(2) X by fastforce
  have "same_on ({..<h_next h} - {b}) h (copyElems mk dest copy b (Suc i) xs ?k)"
    by (rule same_on_trans [OF o same_on_subset [OF zs(4)]]) (use extends_next [OF e] in auto)
  moreover have "map (val ?k) xs = map (val h) xs" using X by simp
  ultimately show ?case
    using zs S(2) [OF i] F(2) copy_val [OF x y] by (intro exI [of _ zs]) (simp add: y k)
qed

lemma copySlice_deep:
  assumes t: "slice_typed dest typed h (Some sl)" and c: "copySlice mk dest zero copy (Some sl) h = (s, h')"
  shows "extends h h' \<and> slice_typed dest typed h' s \<and> slice_val dest val h' s = slice_val dest val h (Some sl) \<and>
    slice_owns dest owns h' s \<subseteq> {h_next h..<h_next h'}"
proof -
  let ?b = "h_next h" and ?ys = "replicate (sl_len sl) zero"
  let ?h1 = "snd (alloc (mk ?ys) h)" and ?xs = "elems dest h sl"
  have xs: "elems dest ?h1 sl = ?xs" using t by (intro elems_cong) (auto simp: slice_typed_def)
  have s: "s = Some \<lparr>sl_array = ?b, sl_off = 0, sl_len = sl_len sl\<rparr>" and h': "h' = copyElems mk dest copy ?b 0 ?xs ?h1"
    using c xs by (auto simp: copySlice_def alloc_def split: prod.splits)
  have X: "typed ?h1 x \<and> ?b \<notin> owns ?h1 x \<and> val ?h1 x = val h x" if "x \<in> set ?xs" for x
    using t that extended [OF _ extends_alloc [of h "mk ?ys"], of x] typed_owns [of h x]
    by (auto simp: slice_typed_def list_all_iff)
  have "filled ?h1 ?b 0 ?ys" by (simp add: filled_def)
  from copyElems_fills [OF this, of ?xs] X elems_length [OF t]
  obtain zs where zs: "filled h' ?b (sl_len sl) zs" "length zs = sl_len sl" "map (val h') zs = map (val ?h1) ?xs"
    "same_on ({..<Suc ?b} - {?b}) ?h1 h'" unfolding h' by auto
  have e: "elems dest h' \<lparr>sl_array = ?b, sl_off = 0, sl_len = sl_len sl\<rparr> = zs"
    using zs(1,2) by (intro elems_whole) (simp_all add: filled_def dest_mk)
  have "extends h h'" using zs(4) by (auto simp: extends_def same_on_def)
  moreover have "map (val ?h1) ?xs = map (val h) ?xs" using X by simp
  ultimately show ?thesis
    using zs e s by (fastforce simp: slice_defs filled_def dest_mk list_all_iff)
qed

end

sublocale element \<subseteq> slice: deep_copier "copySlice mk dest zero copy" "slice_val dest val" "slice_owns dest owns" "slice_typed dest typed"
proof
  fix h s s' h'
  assume t: "slice_typed dest typed h s" and c: "copySlice mk dest zero copy s h = (s', h')"
  have "extends h h' \<and> slice_typed dest typed h' s' \<and> slice_val dest val h' s' = slice_val dest val h s \<and>
    slice_owns dest owns h' s' \<subseteq> {h_next h..<h_next h'}"
  proof (cases s)
    case (Some sl)
    with t c show ?thesis by (simp add: copySlice_deep)
  qed (use c in \<open>simp add: copySlice_def slice_defs\<close>)
  then show "extends h h'" "slice_typed dest typed h' s'" "slice_val dest val h' s' = slice_val dest val h s"
    "slice_owns dest owns h' s' \<subseteq> {h_next h..<h_next h'}" by auto
next
  fix h s h'
  assume t: "slice_typed dest typed h s" and o: "same_on (slice_owns dest owns h s) h h'"
  have "slice_typed dest typed h' s \<and> slice_val dest val h' s = slice_val dest val h s \<and> slice_owns dest owns h' s = slice_owns dest owns h s"
  proof (cases s)
    case (Some sl)
    with o have c: "h_cells h' (sl_array sl) = h_cells h (sl_array sl)" "h_next h \<le> h_next h'"
      by (auto simp: slice_owns_def same_on_def)
    have X: "typed h' x \<and> val h' x = val h x \<and> owns h' x = owns h x" if "x \<in> set (elems dest h sl)" for x
    proof -
      have "typed h x" "same_on (owns h x) h h'"
        using t o Some that same_on_subset [OF o, of "owns h x"] by (auto simp: slice_defs list_all_iff)
      then show ?thesis using local_facts by blast
    qed
    with t Some c elems_cong [OF c(1), of dest] show ?thesis by (auto simp: slice_defs list_all_iff)
  qed (simp add: slice_defs)
  then show "slice_typed dest typed h' s" "slice_val dest val h' s = slice_val dest val h s"
    "slice_owns dest owns h' s = slice_owns dest owns h s" by auto
qed (auto simp: slice_defs list_all_iff split: option.splits dest: typed_owns)


context element
begin

lemma slice_copier:
  "deep_copier (copySlice mk dest zero copy) (slice_val dest val) (slice_owns dest owns) (slice_typed dest typed)"
  by (rule slice.deep_copier_axioms)

end

context pointee
begin

lemma pointer_copier:
  "deep_copier (copyPtr mk dest zero copy) (ptr_val dest val) (ptr_owns dest owns) (ptr_typed dest typed)"
  by (rule ptr.deep_copier_axioms)

end

lemma deep_copier_pointer [copier_rules]:
  "deep_copier copy val owns typed \<Longrightarrow> (\<And>x. dest (mk x) = Some x) \<Longrightarrow>
     deep_copier (copyPtr mk dest zero copy) (ptr_val dest val) (ptr_owns dest owns) (ptr_typed dest typed)"
  by (rule pointee.pointer_copier) (intro pointee.intro pointee_axioms.intro)

lemma deep_copier_slice [copier_rules]:
  "deep_copier copy val owns typed \<Longrightarrow> (\<And>x. dest (mk x) = Some x) \<Longrightarrow>
     deep_copier (copySlice mk dest zero copy) (slice_val dest val) (slice_owns dest owns) (slice_typed dest typed)"
  by (rule element.slice_copier) (intro element.intro element_axioms.intro)

lemma deep_copier_cong:
  assumes "deep_copier f val owns typed" and "\<And>x h. typed h x \<Longrightarrow> g x h = f x h"
  shows "deep_copier g val owns typed"
proof
  note F = assms(1)
  fix h x y h'
  assume t: "typed h x" and "g x h = (y, h')"
  then have "f x h = (y, h')" by (simp add: assms(2))
  then show "extends h h'" "typed h' y" "val h' y = val h x" "owns h' y \<subseteq> {h_next h..<h_next h'}"
    by (rule deep_copier.copy_extends [OF F t] deep_copier.copy_typed [OF F t] deep_copier.copy_val [OF F t]
        deep_copier.copy_fresh [OF F t])+
qed (erule deep_copier.typed_owns [OF assms(1)] | erule (1) deep_copier.local_facts [OF assms(1)])+

text \<open>\<open>copy\<close> fills the new array in one go; for elements without addresses that is the same as the loop.\<close>

lemma copyElems_plain:
  assumes "\<And>ys. dest (mk ys) = Some ys" and "h_cells h b = Some (mk (us @ ys))" and "length xs = length ys"
  shows "copyElems mk dest plain b (length us) xs h = store_cell b (mk (us @ xs)) h"
  using assms(2,3)
proof (induction xs arbitrary: us ys h)
  case Nil
  then show ?case by (cases h) (simp add: store_cell_def fun_upd_idem)
next
  case (Cons x xs)
  then obtain y zs where ys: "ys = y # zs" by (cases ys) auto
  have "storeElem mk dest b (length us) x h = store_cell b (mk ((us @ [x]) @ zs)) h"
    using Cons.prems ys by (simp add: storeElem_def assms(1) list_update_append)
  with Cons.IH [of "store_cell b (mk ((us @ [x]) @ zs)) h" "us @ [x]" zs] Cons.prems ys
  show ?case by (simp add: plain_def store_cell_def)
qed

lemma copyFlat_copySlice:
  assumes "\<And>ys. dest (mk ys) = Some ys" and "slice_typed dest (\<lambda>_ _. True) h s"
  shows "copyFlat mk dest zero s h = copySlice mk dest zero plain s h"
proof (cases s)
  case (Some sl)
  let ?h1 = "snd (alloc (mk (replicate (sl_len sl) zero)) h)"
  have "slice_typed dest (\<lambda>_ _. True) ?h1 (Some sl)"
    using assms(2) Some by (auto simp: slice_typed_def list_all_iff)
  then have l: "length (elems dest ?h1 sl) = sl_len sl" by (rule elems_length)
  from copyElems_plain [of dest mk ?h1 "h_next h" "[]", OF assms(1)] l
  have "copyElems mk dest plain (h_next h) 0 (elems dest ?h1 sl) ?h1 = store_cell (h_next h) (mk (elems dest ?h1 sl)) ?h1"
    by simp
  with Some l show ?thesis by (simp add: copyFlat_def copySlice_def alloc_def)
qed (simp add: copyFlat_def copySlice_def)

lemma deep_copier_flat [copier_rules]:
  assumes "\<And>ys. dest (mk ys) = Some ys"
  shows "deep_copier (copyFlat mk dest zero) (slice_val dest (\<lambda>_. f)) (slice_owns dest (\<lambda>_ _. {})) (slice_typed dest (\<lambda>_ _. True))"
proof -
  have "element plain (\<lambda>_. f) (\<lambda>_ _. {}) (\<lambda>_ _. True) mk dest"
    by (intro element.intro deep_copier_plain element_axioms.intro assms)
  from element.slice_copier [OF this] show ?thesis
    by (rule deep_copier_cong) (rule copyFlat_copySlice [OF assms])
qed

section \<open>Several fields\<close>

text \<open>One field is copied after the other; the first copy stays intact while the second is made.\<close>

definition copyBoth :: "'a copying \<Rightarrow> 'b copying \<Rightarrow> ('a \<times> 'b) copying" where
  "copyBoth f g x h = (let (a, h1) = f (fst x) h; (b, h2) = g (snd x) h1 in ((a, b), h2))"

definition both_val :: "(heap \<Rightarrow> 'a \<Rightarrow> 'v) \<Rightarrow> (heap \<Rightarrow> 'b \<Rightarrow> 'w) \<Rightarrow> heap \<Rightarrow> 'a \<times> 'b \<Rightarrow> 'v \<times> 'w" where
  "both_val v w h x = (v h (fst x), w h (snd x))"

definition both_owns :: "(heap \<Rightarrow> 'a \<Rightarrow> addr set) \<Rightarrow> (heap \<Rightarrow> 'b \<Rightarrow> addr set) \<Rightarrow> heap \<Rightarrow> 'a \<times> 'b \<Rightarrow> addr set" where
  "both_owns v w h x = v h (fst x) \<union> w h (snd x)"

definition both_typed :: "(heap \<Rightarrow> 'a \<Rightarrow> bool) \<Rightarrow> (heap \<Rightarrow> 'b \<Rightarrow> bool) \<Rightarrow> heap \<Rightarrow> 'a \<times> 'b \<Rightarrow> bool" where
  "both_typed v w h x \<longleftrightarrow> v h (fst x) \<and> w h (snd x)"

lemmas both_defs = both_val_def both_owns_def both_typed_def

lemma same_on_Un: "same_on (A \<union> B) h h' \<longleftrightarrow> same_on A h h' \<and> same_on B h h'"
  by (auto simp: same_on_def)

lemma deep_copier_both [copier_rules]:
  assumes F: "deep_copier f v o1 t1" and G: "deep_copier g w o2 t2"
  shows "deep_copier (copyBoth f g) (both_val v w) (both_owns o1 o2) (both_typed t1 t2)"
proof
  fix h x y h'
  assume t: "both_typed t1 t2 h x" and c: "copyBoth f g x h = (y, h')"
  obtain a h1 where a: "f (fst x) h = (a, h1)" by fastforce
  obtain b where b: "g (snd x) h1 = (b, h')" and y: "y = (a, b)"
    using c a by (auto simp: copyBoth_def split: prod.splits)
  have tx: "t1 h (fst x)" and ty: "t2 h (snd x)" using t by (auto simp: both_typed_def)
  note e = deep_copier.copy_extends [OF F tx a]
  note Y = deep_copier.extended [OF G ty e]
  note e' = deep_copier.copy_extends [OF G Y(1) b]
  note A = deep_copier.extended [OF F deep_copier.copy_typed [OF F tx a] e']
  show "extends h h'" by (rule extends_trans [OF e e'])
  show "both_typed t1 t2 h' y" "both_val v w h' y = both_val v w h x"
    using A Y deep_copier.copy_typed [OF G Y(1) b] deep_copier.copy_val [OF F tx a] deep_copier.copy_val [OF G Y(1) b] y
    by (simp_all add: both_defs)
  show "both_owns o1 o2 h' y \<subseteq> {h_next h..<h_next h'}"
    using A(3) deep_copier.copy_fresh [OF F tx a] deep_copier.copy_fresh [OF G Y(1) b] extends_next [OF e] extends_next [OF e'] y
    by (fastforce simp: both_defs)
next
  fix h x h'
  assume "both_typed t1 t2 h x" and "same_on (both_owns o1 o2 h x) h h'"
  then show "both_typed t1 t2 h' x" "both_val v w h' x = both_val v w h x" "both_owns o1 o2 h' x = both_owns o1 o2 h x"
    using deep_copier.local_facts [OF F, of h "fst x" h'] deep_copier.local_facts [OF G, of h "snd x" h']
    by (simp_all add: both_defs same_on_Un)
next
  fix h x
  assume "both_typed t1 t2 h x"
  then show "both_owns o1 o2 h x \<subseteq> {..<h_next h}"
    using deep_copier.typed_owns [OF F, of h "fst x"] deep_copier.typed_owns [OF G, of h "snd x"] by (simp add: both_defs)
qed

text \<open>
  A struct: \<open>get\<close> are its fields that hold addresses, \<open>put\<close> the struct with these fields replaced, and \<open>build\<close> makes
  the value of the struct from the value of the fields.
\<close>

lemma deep_copier_struct:
  assumes F: "deep_copier f v own ty"
    and gp: "\<And>x a. get (put x a) = a" and bp: "\<And>x a. build (put x a) = build x"
    and copy: "\<And>x h. copy x h = (let (a, h') = f (get x) h in (put x a, h'))"
    and vals: "\<And>h x. val h x = build x (v h (get x))"
    and owns: "\<And>h x. owns h x = own h (get x)" and typed: "\<And>h x. typed h x = ty h (get x)"
  shows "deep_copier copy val owns typed"
proof
  fix h x y h'
  assume "typed h x" and "copy x h = (y, h')"
  then obtain a where t: "ty h (get x)" and a: "f (get x) h = (a, h')" and y: "y = put x a"
    by (auto simp: typed copy split: prod.splits)
  from deep_copier.copy_extends [OF F t a] deep_copier.copy_typed [OF F t a] deep_copier.copy_val [OF F t a]
    deep_copier.copy_fresh [OF F t a]
  show "extends h h'" "typed h' y" "val h' y = val h x" "owns h' y \<subseteq> {h_next h..<h_next h'}"
    by (simp_all add: y gp bp vals owns typed)
next
  fix h x h'
  assume "typed h x" "same_on (owns h x) h h'"
  with deep_copier.local_facts [OF F, of h "get x" h']
  show "typed h' x" "val h' x = val h x" "owns h' x = owns h x" by (simp_all add: vals owns typed)
qed (simp add: owns typed deep_copier.typed_owns [OF F])

end
