(* ===== verification/Deep_Copy.thy ===== *)
theory Deep_Copy
  imports Go_Memory
begin

text \<open>
  \<open>src/api/v1alpha1/zz_generated.deepcopy.go\<close>: the deep copies of the Workspace API types. The copies of types
  of other packages (\<open>ObjectMeta\<close>, \<open>ListMeta\<close>, \<open>Condition\<close>, the quota and limit range specifications) are parameters; the
  locale \<open>api_copiers\<close> says that they are deep copies, and every generated method then is one, too.
\<close>

section \<open>Parameters\<close>

record copiers =
  cp_ObjectMeta :: "foreign copying"
  cp_ListMeta :: "foreign copying"
  cp_ResourceQuotaSpec :: "foreign copying"
  cp_LimitRangeSpec :: "foreign copying"
  cp_Condition :: "Condition copying"

text \<open>How a struct of another package is to be read: its meaning, its cells, its typing.\<close>

record 'v view =
  vw_val :: "heap \<Rightarrow> foreign \<Rightarrow> 'v"
  vw_owns :: "heap \<Rightarrow> foreign \<Rightarrow> addr set"
  vw_typed :: "heap \<Rightarrow> foreign \<Rightarrow> bool"

record views =
  v_meta :: "ObjectMeta view"
  v_list :: "string view"
  v_quota :: "ResourceQuotaSpec view"
  v_limits :: "LimitRangeSpec view"

definition copies :: "foreign copying \<Rightarrow> 'v view \<Rightarrow> bool" where
  "copies f v \<longleftrightarrow> deep_copier f (vw_val v) (vw_owns v) (vw_typed v)"

abbreviation no_cells :: "heap \<Rightarrow> 'a \<Rightarrow> addr set" where
  "no_cells \<equiv> \<lambda>_ _. {}"

abbreviation always :: "heap \<Rightarrow> 'a \<Rightarrow> bool" where
  "always \<equiv> \<lambda>_ _. True"

abbreviation itself_val :: "heap \<Rightarrow> 'a \<Rightarrow> 'a" where
  "itself_val \<equiv> \<lambda>_ x. x"

section \<open>Reading cells\<close>

definition asString :: "cell \<Rightarrow> string option" where "asString c = (case c of StringC x \<Rightarrow> Some x | _ \<Rightarrow> None)"
definition asStrings :: "cell \<Rightarrow> string list option" where "asStrings c = (case c of StringsC x \<Rightarrow> Some x | _ \<Rightarrow> None)"
definition asMember :: "cell \<Rightarrow> goMember option" where "asMember c = (case c of MemberC x \<Rightarrow> Some x | _ \<Rightarrow> None)"
definition asMembers :: "cell \<Rightarrow> goMember list option" where "asMembers c = (case c of MembersC x \<Rightarrow> Some x | _ \<Rightarrow> None)"
definition asIsolation :: "cell \<Rightarrow> goIsolation option" where "asIsolation c = (case c of IsolationC x \<Rightarrow> Some x | _ \<Rightarrow> None)"
definition asQuota :: "cell \<Rightarrow> foreign option" where "asQuota c = (case c of QuotaC x \<Rightarrow> Some x | _ \<Rightarrow> None)"
definition asLimits :: "cell \<Rightarrow> foreign option" where "asLimits c = (case c of LimitsC x \<Rightarrow> Some x | _ \<Rightarrow> None)"
definition asRef :: "cell \<Rightarrow> ResourceReference option" where "asRef c = (case c of RefC x \<Rightarrow> Some x | _ \<Rightarrow> None)"
definition asRefs :: "cell \<Rightarrow> ResourceReference list option" where "asRefs c = (case c of RefsC x \<Rightarrow> Some x | _ \<Rightarrow> None)"
definition asConditions :: "cell \<Rightarrow> Condition list option" where
  "asConditions c = (case c of ConditionsC x \<Rightarrow> Some x | _ \<Rightarrow> None)"
definition asSpec :: "cell \<Rightarrow> goSpec option" where "asSpec c = (case c of SpecC x \<Rightarrow> Some x | _ \<Rightarrow> None)"
definition asStatus :: "cell \<Rightarrow> goStatus option" where "asStatus c = (case c of StatusC x \<Rightarrow> Some x | _ \<Rightarrow> None)"
definition asWorkspace :: "cell \<Rightarrow> goWorkspace option" where "asWorkspace c = (case c of WorkspaceC x \<Rightarrow> Some x | _ \<Rightarrow> None)"
definition asWorkspaces :: "cell \<Rightarrow> goWorkspace list option" where
  "asWorkspaces c = (case c of WorkspacesC x \<Rightarrow> Some x | _ \<Rightarrow> None)"
definition asWorkspaceList :: "cell \<Rightarrow> goWorkspaceList option" where
  "asWorkspaceList c = (case c of WorkspaceListC x \<Rightarrow> Some x | _ \<Rightarrow> None)"

lemmas as_defs = asString_def asStrings_def asMember_def asMembers_def asIsolation_def asQuota_def asLimits_def
  asRef_def asRefs_def asConditions_def asSpec_def asStatus_def asWorkspace_def asWorkspaces_def asWorkspaceList_def

section \<open>Zero values\<close>

definition zero_foreign :: foreign where "zero_foreign = \<lparr>fo_flat = [], fo_refs = []\<rparr>"
definition zero_ref :: ResourceReference where "zero_ref = \<lparr>ref_name = [], ref_namespace = []\<rparr>"
definition zero_typeMeta :: TypeMeta where "zero_typeMeta = \<lparr>tm_kind = [], tm_apiVersion = []\<rparr>"

definition zero_condition :: Condition where
  "zero_condition = \<lparr>cond_type = [], cond_status = ConditionUnknown, cond_reason = [], cond_message = Text [],
     cond_observedGeneration = 0, cond_lastTransitionTime = 0\<rparr>"

definition zero_goMember :: goMember where
  "zero_goMember = \<lparr>gm_Role = [], gm_Subject = [], gm_Name = None, gm_ServiceAccount = False\<rparr>"

definition zero_goIsolation :: goIsolation where
  "zero_goIsolation = \<lparr>gi_Enabled = False, gi_AllowedNamespaces = None\<rparr>"

definition zero_goSpec :: goSpec where
  "zero_goSpec = \<lparr>gs_Namespace = [], gs_Members = None, gs_ResourceQuota = None, gs_LimitRange = None,
     gs_NetworkIsolation = zero_goIsolation\<rparr>"

definition zero_goStatus :: goStatus where
  "zero_goStatus = \<lparr>gt_ObservedGeneration = 0, gt_NamespaceRef = None, gt_ResourceQuotaRef = None, gt_LimitRangeRef = None,
     gt_RoleBindingRefs = None, gt_NetworkPolicyRef = None, gt_ImagePullSecretRef = None, gt_HelmRepositoryRef = None,
     gt_Conditions = None\<rparr>"

definition zero_goWorkspace :: goWorkspace where
  "zero_goWorkspace = \<lparr>gw_TypeMeta = zero_typeMeta, gw_ObjectMeta = zero_foreign, gw_Spec = zero_goSpec, gw_Status = zero_goStatus\<rparr>"

definition zero_goWorkspaceList :: goWorkspaceList where
  "zero_goWorkspaceList = \<lparr>gl_TypeMeta = zero_typeMeta, gl_ListMeta = zero_foreign, gl_Items = None\<rparr>"

section \<open>The generated methods\<close>

definition NetworkIsolationSpec_DeepCopyInto :: "goIsolation copying" where
  "NetworkIsolationSpec_DeepCopyInto inp h =
     (let (allowed, h) = copyFlat StringsC asStrings [] (gi_AllowedNamespaces inp) h
      in (inp\<lparr>gi_AllowedNamespaces := allowed\<rparr>, h))"

definition NetworkIsolationSpec_DeepCopy :: "goIsolation option \<Rightarrow> heap \<Rightarrow> addr option \<times> heap" where
  "NetworkIsolationSpec_DeepCopy = newCopy IsolationC zero_goIsolation NetworkIsolationSpec_DeepCopyInto"

definition ResourceReference_DeepCopyInto :: "ResourceReference copying" where
  "ResourceReference_DeepCopyInto = plain"

definition ResourceReference_DeepCopy :: "ResourceReference option \<Rightarrow> heap \<Rightarrow> addr option \<times> heap" where
  "ResourceReference_DeepCopy = newCopy RefC zero_ref ResourceReference_DeepCopyInto"

definition WorkspaceMember_DeepCopyInto :: "goMember copying" where
  "WorkspaceMember_DeepCopyInto inp h =
     (let (name, h) = copyPtr StringC asString [] plain (gm_Name inp) h in (inp\<lparr>gm_Name := name\<rparr>, h))"

definition WorkspaceMember_DeepCopy :: "goMember option \<Rightarrow> heap \<Rightarrow> addr option \<times> heap" where
  "WorkspaceMember_DeepCopy = newCopy MemberC zero_goMember WorkspaceMember_DeepCopyInto"

definition WorkspaceSpec_DeepCopyInto :: "copiers \<Rightarrow> goSpec copying" where
  "WorkspaceSpec_DeepCopyInto P inp h =
     (let (members, h) = copySlice MembersC asMembers zero_goMember WorkspaceMember_DeepCopyInto (gs_Members inp) h;
          (quota, h) = copyPtr QuotaC asQuota zero_foreign (cp_ResourceQuotaSpec P) (gs_ResourceQuota inp) h;
          (limits, h) = copyPtr LimitsC asLimits zero_foreign (cp_LimitRangeSpec P) (gs_LimitRange inp) h;
          (isolation, h) = NetworkIsolationSpec_DeepCopyInto (gs_NetworkIsolation inp) h
      in (inp\<lparr>gs_Members := members, gs_ResourceQuota := quota, gs_LimitRange := limits,
              gs_NetworkIsolation := isolation\<rparr>, h))"

definition WorkspaceSpec_DeepCopy :: "copiers \<Rightarrow> goSpec option \<Rightarrow> heap \<Rightarrow> addr option \<times> heap" where
  "WorkspaceSpec_DeepCopy P = newCopy SpecC zero_goSpec (WorkspaceSpec_DeepCopyInto P)"

text \<open>\<open>if in.F != nil { *out = new(ResourceReference); **out = **in }\<close>\<close>

abbreviation copyRef :: "addr option copying" where
  "copyRef \<equiv> copyPtr RefC asRef zero_ref plain"

definition WorkspaceStatus_DeepCopyInto :: "copiers \<Rightarrow> goStatus copying" where
  "WorkspaceStatus_DeepCopyInto P inp h =
     (let (namespaceRef, h) = copyRef (gt_NamespaceRef inp) h;
          (quotaRef, h) = copyRef (gt_ResourceQuotaRef inp) h;
          (limitsRef, h) = copyRef (gt_LimitRangeRef inp) h;
          (bindingRefs, h) = copyFlat RefsC asRefs zero_ref (gt_RoleBindingRefs inp) h;
          (policyRef, h) = copyRef (gt_NetworkPolicyRef inp) h;
          (secretRef, h) = copyRef (gt_ImagePullSecretRef inp) h;
          (helmRef, h) = copyRef (gt_HelmRepositoryRef inp) h;
          (conditions, h) = copySlice ConditionsC asConditions zero_condition (cp_Condition P) (gt_Conditions inp) h
      in (inp\<lparr>gt_NamespaceRef := namespaceRef, gt_ResourceQuotaRef := quotaRef, gt_LimitRangeRef := limitsRef,
              gt_RoleBindingRefs := bindingRefs, gt_NetworkPolicyRef := policyRef, gt_ImagePullSecretRef := secretRef,
              gt_HelmRepositoryRef := helmRef, gt_Conditions := conditions\<rparr>, h))"

definition WorkspaceStatus_DeepCopy :: "copiers \<Rightarrow> goStatus option \<Rightarrow> heap \<Rightarrow> addr option \<times> heap" where
  "WorkspaceStatus_DeepCopy P = newCopy StatusC zero_goStatus (WorkspaceStatus_DeepCopyInto P)"

definition Workspace_DeepCopyInto :: "copiers \<Rightarrow> goWorkspace copying" where
  "Workspace_DeepCopyInto P inp h =
     (let (objectMeta, h) = cp_ObjectMeta P (gw_ObjectMeta inp) h;
          (spec, h) = WorkspaceSpec_DeepCopyInto P (gw_Spec inp) h;
          (status, h) = WorkspaceStatus_DeepCopyInto P (gw_Status inp) h
      in (inp\<lparr>gw_ObjectMeta := objectMeta, gw_Spec := spec, gw_Status := status\<rparr>, h))"

definition Workspace_DeepCopy :: "copiers \<Rightarrow> goWorkspace option \<Rightarrow> heap \<Rightarrow> addr option \<times> heap" where
  "Workspace_DeepCopy P = newCopy WorkspaceC zero_goWorkspace (Workspace_DeepCopyInto P)"

definition WorkspaceList_DeepCopyInto :: "copiers \<Rightarrow> goWorkspaceList copying" where
  "WorkspaceList_DeepCopyInto P inp h =
     (let (listMeta, h) = cp_ListMeta P (gl_ListMeta inp) h;
          (items, h) = copySlice WorkspacesC asWorkspaces zero_goWorkspace (Workspace_DeepCopyInto P) (gl_Items inp) h
      in (inp\<lparr>gl_ListMeta := listMeta, gl_Items := items\<rparr>, h))"

definition WorkspaceList_DeepCopy :: "copiers \<Rightarrow> goWorkspaceList option \<Rightarrow> heap \<Rightarrow> addr option \<times> heap" where
  "WorkspaceList_DeepCopy P = newCopy WorkspaceListC zero_goWorkspaceList (WorkspaceList_DeepCopyInto P)"

text \<open>\<open>runtime.Object\<close>: an interface value, nil or holding a pointer of a known type. A nil pointer gives the nil interface.\<close>

datatype runtimeObject = WorkspaceObject addr | WorkspaceListObject addr

definition Workspace_DeepCopyObject :: "copiers \<Rightarrow> goWorkspace option \<Rightarrow> heap \<Rightarrow> runtimeObject option \<times> heap" where
  "Workspace_DeepCopyObject P inp h =
     (case Workspace_DeepCopy P inp h of (Some c, h) \<Rightarrow> (Some (WorkspaceObject c), h) | (None, h) \<Rightarrow> (None, h))"

definition WorkspaceList_DeepCopyObject :: "copiers \<Rightarrow> goWorkspaceList option \<Rightarrow> heap \<Rightarrow> runtimeObject option \<times> heap" where
  "WorkspaceList_DeepCopyObject P inp h =
     (case WorkspaceList_DeepCopy P inp h of (Some c, h) \<Rightarrow> (Some (WorkspaceListObject c), h) | (None, h) \<Rightarrow> (None, h))"

section \<open>What a struct in memory means\<close>

text \<open>The value is the record of the functional model; nil and empty slices are the same list there.\<close>

definition member_val :: "heap \<Rightarrow> goMember \<Rightarrow> WorkspaceMember" where
  "member_val h m = \<lparr>m_role = gm_Role m, m_subject = gm_Subject m, m_name = ptr_val asString itself_val h (gm_Name m),
     m_serviceAccount = gm_ServiceAccount m\<rparr>"

definition member_owns :: "heap \<Rightarrow> goMember \<Rightarrow> addr set" where
  "member_owns h m = ptr_owns asString no_cells h (gm_Name m)"

definition member_typed :: "heap \<Rightarrow> goMember \<Rightarrow> bool" where
  "member_typed h m = ptr_typed asString always h (gm_Name m)"

definition isolation_val :: "heap \<Rightarrow> goIsolation \<Rightarrow> NetworkIsolationSpec" where
  "isolation_val h i = \<lparr>ni_enabled = gi_Enabled i, ni_allowedNamespaces = slice_val asStrings itself_val h (gi_AllowedNamespaces i)\<rparr>"

definition isolation_owns :: "heap \<Rightarrow> goIsolation \<Rightarrow> addr set" where
  "isolation_owns h i = slice_owns asStrings no_cells h (gi_AllowedNamespaces i)"

definition isolation_typed :: "heap \<Rightarrow> goIsolation \<Rightarrow> bool" where
  "isolation_typed h i = slice_typed asStrings always h (gi_AllowedNamespaces i)"

definition spec_val :: "views \<Rightarrow> heap \<Rightarrow> goSpec \<Rightarrow> WorkspaceSpec" where
  "spec_val V h s = \<lparr>spec_namespace = gs_Namespace s,
     spec_members = slice_val asMembers member_val h (gs_Members s),
     spec_resourceQuota = ptr_val asQuota (vw_val (v_quota V)) h (gs_ResourceQuota s),
     spec_limitRange = ptr_val asLimits (vw_val (v_limits V)) h (gs_LimitRange s),
     spec_networkIsolation = isolation_val h (gs_NetworkIsolation s)\<rparr>"

definition spec_owns :: "views \<Rightarrow> heap \<Rightarrow> goSpec \<Rightarrow> addr set" where
  "spec_owns V h s = slice_owns asMembers member_owns h (gs_Members s) \<union>
     (ptr_owns asQuota (vw_owns (v_quota V)) h (gs_ResourceQuota s) \<union>
     (ptr_owns asLimits (vw_owns (v_limits V)) h (gs_LimitRange s) \<union> isolation_owns h (gs_NetworkIsolation s)))"

definition spec_typed :: "views \<Rightarrow> heap \<Rightarrow> goSpec \<Rightarrow> bool" where
  "spec_typed V h s \<longleftrightarrow> slice_typed asMembers member_typed h (gs_Members s) \<and>
     ptr_typed asQuota (vw_typed (v_quota V)) h (gs_ResourceQuota s) \<and>
     ptr_typed asLimits (vw_typed (v_limits V)) h (gs_LimitRange s) \<and> isolation_typed h (gs_NetworkIsolation s)"

abbreviation ref_val :: "heap \<Rightarrow> addr option \<Rightarrow> ResourceReference option" where
  "ref_val \<equiv> ptr_val asRef itself_val"

definition status_val :: "heap \<Rightarrow> goStatus \<Rightarrow> WorkspaceStatus" where
  "status_val h s = \<lparr>st_observedGeneration = gt_ObservedGeneration s,
     st_namespaceRef = ref_val h (gt_NamespaceRef s), st_resourceQuotaRef = ref_val h (gt_ResourceQuotaRef s),
     st_limitRangeRef = ref_val h (gt_LimitRangeRef s),
     st_roleBindingRefs = slice_val asRefs itself_val h (gt_RoleBindingRefs s),
     st_networkPolicyRef = ref_val h (gt_NetworkPolicyRef s), st_imagePullSecretRef = ref_val h (gt_ImagePullSecretRef s),
     st_helmRepositoryRef = ref_val h (gt_HelmRepositoryRef s),
     st_conditions = slice_val asConditions itself_val h (gt_Conditions s)\<rparr>"

abbreviation ref_owns :: "heap \<Rightarrow> addr option \<Rightarrow> addr set" where
  "ref_owns \<equiv> ptr_owns asRef no_cells"

definition status_owns :: "heap \<Rightarrow> goStatus \<Rightarrow> addr set" where
  "status_owns h s = ref_owns h (gt_NamespaceRef s) \<union> (ref_owns h (gt_ResourceQuotaRef s) \<union> (ref_owns h (gt_LimitRangeRef s) \<union>
     (slice_owns asRefs no_cells h (gt_RoleBindingRefs s) \<union> (ref_owns h (gt_NetworkPolicyRef s) \<union>
     (ref_owns h (gt_ImagePullSecretRef s) \<union> (ref_owns h (gt_HelmRepositoryRef s) \<union>
     slice_owns asConditions no_cells h (gt_Conditions s)))))))"

abbreviation ref_typed :: "heap \<Rightarrow> addr option \<Rightarrow> bool" where
  "ref_typed \<equiv> ptr_typed asRef always"

definition status_typed :: "heap \<Rightarrow> goStatus \<Rightarrow> bool" where
  "status_typed h s \<longleftrightarrow> ref_typed h (gt_NamespaceRef s) \<and> ref_typed h (gt_ResourceQuotaRef s) \<and> ref_typed h (gt_LimitRangeRef s) \<and>
     slice_typed asRefs always h (gt_RoleBindingRefs s) \<and> ref_typed h (gt_NetworkPolicyRef s) \<and>
     ref_typed h (gt_ImagePullSecretRef s) \<and> ref_typed h (gt_HelmRepositoryRef s) \<and>
     slice_typed asConditions always h (gt_Conditions s)"

definition workspace_val :: "views \<Rightarrow> heap \<Rightarrow> goWorkspace \<Rightarrow> TypeMeta \<times> Workspace" where
  "workspace_val V h w = (gw_TypeMeta w, \<lparr>ws_meta = vw_val (v_meta V) h (gw_ObjectMeta w),
     ws_spec = spec_val V h (gw_Spec w), ws_status = status_val h (gw_Status w)\<rparr>)"

definition workspace_owns :: "views \<Rightarrow> heap \<Rightarrow> goWorkspace \<Rightarrow> addr set" where
  "workspace_owns V h w = vw_owns (v_meta V) h (gw_ObjectMeta w) \<union> (spec_owns V h (gw_Spec w) \<union> status_owns h (gw_Status w))"

definition workspace_typed :: "views \<Rightarrow> heap \<Rightarrow> goWorkspace \<Rightarrow> bool" where
  "workspace_typed V h w \<longleftrightarrow> vw_typed (v_meta V) h (gw_ObjectMeta w) \<and> spec_typed V h (gw_Spec w) \<and> status_typed h (gw_Status w)"

definition list_val :: "views \<Rightarrow> heap \<Rightarrow> goWorkspaceList \<Rightarrow> TypeMeta \<times> string \<times> (TypeMeta \<times> Workspace) list" where
  "list_val V h l = (gl_TypeMeta l, vw_val (v_list V) h (gl_ListMeta l), slice_val asWorkspaces (workspace_val V) h (gl_Items l))"

definition list_owns :: "views \<Rightarrow> heap \<Rightarrow> goWorkspaceList \<Rightarrow> addr set" where
  "list_owns V h l = vw_owns (v_list V) h (gl_ListMeta l) \<union> slice_owns asWorkspaces (workspace_owns V) h (gl_Items l)"

definition list_typed :: "views \<Rightarrow> heap \<Rightarrow> goWorkspaceList \<Rightarrow> bool" where
  "list_typed V h l \<longleftrightarrow> vw_typed (v_list V) h (gl_ListMeta l) \<and> slice_typed asWorkspaces (workspace_typed V) h (gl_Items l)"


section \<open>Every generated method is a deep copy\<close>

lemma member_copier [copier_rules]: "deep_copier WorkspaceMember_DeepCopyInto member_val member_owns member_typed"
proof (rule deep_copier_struct)
  show "deep_copier (copyPtr StringC asString [] plain) (ptr_val asString itself_val) (ptr_owns asString no_cells) (ptr_typed asString always)"
    by (intro copier_rules) (simp add: as_defs)
  show "WorkspaceMember_DeepCopyInto x h = (let (a, h') = copyPtr StringC asString [] plain (gm_Name x) h in (x\<lparr>gm_Name := a\<rparr>, h'))" for x h
    by (simp add: WorkspaceMember_DeepCopyInto_def)
  show "member_val h x = (\<lambda>x a. \<lparr>m_role = gm_Role x, m_subject = gm_Subject x, m_name = a, m_serviceAccount = gm_ServiceAccount x\<rparr>)
      x (ptr_val asString itself_val h (gm_Name x))" for h x
    by (simp add: member_val_def)
qed (simp_all add: member_owns_def member_typed_def)

lemma isolation_copier [copier_rules]:
  "deep_copier NetworkIsolationSpec_DeepCopyInto isolation_val isolation_owns isolation_typed"
proof (rule deep_copier_struct)
  show "deep_copier (copyFlat StringsC asStrings []) (slice_val asStrings itself_val) (slice_owns asStrings no_cells) (slice_typed asStrings always)"
    by (intro copier_rules) (simp add: as_defs)
  show "NetworkIsolationSpec_DeepCopyInto x h =
      (let (a, h') = copyFlat StringsC asStrings [] (gi_AllowedNamespaces x) h in (x\<lparr>gi_AllowedNamespaces := a\<rparr>, h'))" for x h
    by (simp add: NetworkIsolationSpec_DeepCopyInto_def)
  show "isolation_val h x = (\<lambda>x a. \<lparr>ni_enabled = gi_Enabled x, ni_allowedNamespaces = a\<rparr>)
      x (slice_val asStrings itself_val h (gi_AllowedNamespaces x))" for h x
    by (simp add: isolation_val_def)
qed (simp_all add: isolation_owns_def isolation_typed_def)

text \<open>
  The promises of the other packages: their \<open>DeepCopyInto\<close> methods are deep copies; a condition holds no address the
  operator can reach.
\<close>

locale api_copiers =
  fixes P :: copiers and V :: views
  assumes meta_copies: "copies (cp_ObjectMeta P) (v_meta V)"
    and list_copies: "copies (cp_ListMeta P) (v_list V)"
    and quota_copies: "copies (cp_ResourceQuotaSpec P) (v_quota V)"
    and limits_copies: "copies (cp_LimitRangeSpec P) (v_limits V)"
    and condition_copies: "deep_copier (cp_Condition P) itself_val no_cells always"
begin

lemmas foreign_copiers = meta_copies [unfolded copies_def] list_copies [unfolded copies_def]
  quota_copies [unfolded copies_def] limits_copies [unfolded copies_def] condition_copies

lemma spec_copier: "deep_copier (WorkspaceSpec_DeepCopyInto P) (spec_val V) (spec_owns V) (spec_typed V)"
proof (rule deep_copier_struct)
  let ?get = "\<lambda>x. (gs_Members x, gs_ResourceQuota x, gs_LimitRange x, gs_NetworkIsolation x)"
  let ?f = "copyBoth (copySlice MembersC asMembers zero_goMember WorkspaceMember_DeepCopyInto)
     (copyBoth (copyPtr QuotaC asQuota zero_foreign (cp_ResourceQuotaSpec P))
     (copyBoth (copyPtr LimitsC asLimits zero_foreign (cp_LimitRangeSpec P)) NetworkIsolationSpec_DeepCopyInto))"
  let ?v = "both_val (slice_val asMembers member_val) (both_val (ptr_val asQuota (vw_val (v_quota V)))
     (both_val (ptr_val asLimits (vw_val (v_limits V))) isolation_val))"
  let ?o = "both_owns (slice_owns asMembers member_owns) (both_owns (ptr_owns asQuota (vw_owns (v_quota V)))
     (both_owns (ptr_owns asLimits (vw_owns (v_limits V))) isolation_owns))"
  let ?t = "both_typed (slice_typed asMembers member_typed) (both_typed (ptr_typed asQuota (vw_typed (v_quota V)))
     (both_typed (ptr_typed asLimits (vw_typed (v_limits V))) isolation_typed))"
  show "deep_copier ?f ?v ?o ?t"
    by (intro copier_rules foreign_copiers) (simp_all add: as_defs)
  show "WorkspaceSpec_DeepCopyInto P x h = (let (a, h') = ?f (?get x) h in ((\<lambda>x (m, q, l, n).
      x\<lparr>gs_Members := m, gs_ResourceQuota := q, gs_LimitRange := l, gs_NetworkIsolation := n\<rparr>) x a, h'))" for x h
    by (simp add: WorkspaceSpec_DeepCopyInto_def copyBoth_def Let_def split_def)
  show "spec_val V h x = (\<lambda>x (m, q, l, n). \<lparr>spec_namespace = gs_Namespace x, spec_members = m, spec_resourceQuota = q,
      spec_limitRange = l, spec_networkIsolation = n\<rparr>) x (?v h (?get x))" for h x
    by (simp add: spec_val_def both_defs)
qed (auto simp: spec_owns_def spec_typed_def both_defs split: prod.splits)

lemma status_copier: "deep_copier (WorkspaceStatus_DeepCopyInto P) status_val status_owns status_typed"
proof (rule deep_copier_struct)
  let ?get = "\<lambda>x. (gt_NamespaceRef x, gt_ResourceQuotaRef x, gt_LimitRangeRef x, gt_RoleBindingRefs x,
     gt_NetworkPolicyRef x, gt_ImagePullSecretRef x, gt_HelmRepositoryRef x, gt_Conditions x)"
  let ?f = "copyBoth copyRef (copyBoth copyRef (copyBoth copyRef (copyBoth (copyFlat RefsC asRefs zero_ref)
     (copyBoth copyRef (copyBoth copyRef (copyBoth copyRef
     (copySlice ConditionsC asConditions zero_condition (cp_Condition P))))))))"
  let ?v = "both_val ref_val (both_val ref_val (both_val ref_val (both_val (slice_val asRefs itself_val)
     (both_val ref_val (both_val ref_val (both_val ref_val (slice_val asConditions itself_val)))))))"
  let ?o = "both_owns ref_owns (both_owns ref_owns (both_owns ref_owns (both_owns (slice_owns asRefs no_cells)
     (both_owns ref_owns (both_owns ref_owns (both_owns ref_owns (slice_owns asConditions no_cells)))))))"
  let ?t = "both_typed ref_typed (both_typed ref_typed (both_typed ref_typed (both_typed (slice_typed asRefs always)
     (both_typed ref_typed (both_typed ref_typed (both_typed ref_typed (slice_typed asConditions always)))))))"
  show "deep_copier ?f ?v ?o ?t"
    by (intro copier_rules foreign_copiers) (simp_all add: as_defs)
  show "WorkspaceStatus_DeepCopyInto P x h = (let (a, h') = ?f (?get x) h in ((\<lambda>x (n, q, l, b, p, s, r, c).
      x\<lparr>gt_NamespaceRef := n, gt_ResourceQuotaRef := q, gt_LimitRangeRef := l, gt_RoleBindingRefs := b, gt_NetworkPolicyRef := p,
        gt_ImagePullSecretRef := s, gt_HelmRepositoryRef := r, gt_Conditions := c\<rparr>) x a, h'))" for x h
    by (simp add: WorkspaceStatus_DeepCopyInto_def copyBoth_def Let_def split_def)
  show "status_val h x = (\<lambda>x (n, q, l, b, p, s, r, c). \<lparr>st_observedGeneration = gt_ObservedGeneration x, st_namespaceRef = n,
      st_resourceQuotaRef = q, st_limitRangeRef = l, st_roleBindingRefs = b, st_networkPolicyRef = p,
      st_imagePullSecretRef = s, st_helmRepositoryRef = r, st_conditions = c\<rparr>) x (?v h (?get x))" for h x
    by (simp add: status_val_def both_defs)
qed (auto simp: status_owns_def status_typed_def both_defs split: prod.splits)

lemma workspace_copier: "deep_copier (Workspace_DeepCopyInto P) (workspace_val V) (workspace_owns V) (workspace_typed V)"
proof (rule deep_copier_struct)
  let ?get = "\<lambda>x. (gw_ObjectMeta x, gw_Spec x, gw_Status x)"
  let ?f = "copyBoth (cp_ObjectMeta P) (copyBoth (WorkspaceSpec_DeepCopyInto P) (WorkspaceStatus_DeepCopyInto P))"
  let ?v = "both_val (vw_val (v_meta V)) (both_val (spec_val V) status_val)"
  show "deep_copier ?f ?v (both_owns (vw_owns (v_meta V)) (both_owns (spec_owns V) status_owns))
      (both_typed (vw_typed (v_meta V)) (both_typed (spec_typed V) status_typed))"
    by (intro deep_copier_both foreign_copiers spec_copier status_copier)
  show "Workspace_DeepCopyInto P x h = (let (a, h') = ?f (?get x) h in
      ((\<lambda>x (m, s, t). x\<lparr>gw_ObjectMeta := m, gw_Spec := s, gw_Status := t\<rparr>) x a, h'))" for x h
    by (simp add: Workspace_DeepCopyInto_def copyBoth_def Let_def split_def)
  show "workspace_val V h x = (\<lambda>x (m, s, t). (gw_TypeMeta x, \<lparr>ws_meta = m, ws_spec = s, ws_status = t\<rparr>)) x (?v h (?get x))" for h x
    by (simp add: workspace_val_def both_defs)
qed (auto simp: workspace_owns_def workspace_typed_def both_defs split: prod.splits)

lemma list_copier: "deep_copier (WorkspaceList_DeepCopyInto P) (list_val V) (list_owns V) (list_typed V)"
proof (rule deep_copier_struct)
  let ?get = "\<lambda>x. (gl_ListMeta x, gl_Items x)"
  let ?f = "copyBoth (cp_ListMeta P) (copySlice WorkspacesC asWorkspaces zero_goWorkspace (Workspace_DeepCopyInto P))"
  let ?v = "both_val (vw_val (v_list V)) (slice_val asWorkspaces (workspace_val V))"
  show "deep_copier ?f ?v (both_owns (vw_owns (v_list V)) (slice_owns asWorkspaces (workspace_owns V)))
      (both_typed (vw_typed (v_list V)) (slice_typed asWorkspaces (workspace_typed V)))"
    by (intro deep_copier_both deep_copier_slice foreign_copiers workspace_copier) (simp add: as_defs)
  show "WorkspaceList_DeepCopyInto P x h = (let (a, h') = ?f (?get x) h in
      ((\<lambda>x (m, i). x\<lparr>gl_ListMeta := m, gl_Items := i\<rparr>) x a, h'))" for x h
    by (simp add: WorkspaceList_DeepCopyInto_def copyBoth_def Let_def split_def)
  show "list_val V h x = (\<lambda>x (m, i). (gl_TypeMeta x, m, i)) x (?v h (?get x))" for h x
    by (simp add: list_val_def both_defs)
qed (auto simp: list_owns_def list_typed_def both_defs split: prod.splits)

end

sublocale api_copiers \<subseteq> specs: pointee "WorkspaceSpec_DeepCopyInto P" "spec_val V" "spec_owns V" "spec_typed V" SpecC asSpec zero_goSpec
  by (intro pointee.intro spec_copier pointee_axioms.intro) (simp add: as_defs)

sublocale api_copiers \<subseteq> statuses: pointee "WorkspaceStatus_DeepCopyInto P" status_val status_owns status_typed StatusC asStatus zero_goStatus
  by (intro pointee.intro status_copier pointee_axioms.intro) (simp add: as_defs)

sublocale api_copiers \<subseteq> workspaces:
    pointee "Workspace_DeepCopyInto P" "workspace_val V" "workspace_owns V" "workspace_typed V" WorkspaceC asWorkspace zero_goWorkspace
  by (intro pointee.intro workspace_copier pointee_axioms.intro) (simp add: as_defs)

sublocale api_copiers \<subseteq> lists:
    pointee "WorkspaceList_DeepCopyInto P" "list_val V" "list_owns V" "list_typed V" WorkspaceListC asWorkspaceList zero_goWorkspaceList
  by (intro pointee.intro list_copier pointee_axioms.intro) (simp add: as_defs)

interpretation members: pointee WorkspaceMember_DeepCopyInto member_val member_owns member_typed MemberC asMember zero_goMember
  by (intro pointee.intro member_copier pointee_axioms.intro) (simp add: as_defs)

interpretation isolations:
    pointee NetworkIsolationSpec_DeepCopyInto isolation_val isolation_owns isolation_typed IsolationC asIsolation zero_goIsolation
  by (intro pointee.intro isolation_copier pointee_axioms.intro) (simp add: as_defs)

lemma reference_copier: "deep_copier ResourceReference_DeepCopyInto itself_val no_cells always"
  unfolding ResourceReference_DeepCopyInto_def by (rule deep_copier_plain)

interpretation references: pointee ResourceReference_DeepCopyInto itself_val no_cells always RefC asRef zero_ref
  by (intro pointee.intro reference_copier pointee_axioms.intro) (simp add: as_defs)

context api_copiers
begin

lemmas workspace_DeepCopy = workspaces.newCopy_deep [folded Workspace_DeepCopy_def]
lemmas list_DeepCopy = lists.newCopy_deep [folded WorkspaceList_DeepCopy_def]
lemmas status_DeepCopy = statuses.newCopy_deep [folded WorkspaceStatus_DeepCopy_def]

end

section \<open>Foreign structs with one reference\<close>

text \<open>
  For witnesses: structs of other packages that hold at most one address, of a cell without further addresses (as
  \<open>ObjectMeta\<close> holds its label map). Their deep copy allocates that cell anew.
\<close>

definition asForeign :: "cell \<Rightarrow> foreign option" where "asForeign c = (case c of ForeignC x \<Rightarrow> Some x | _ \<Rightarrow> None)"

definition first_ref :: "foreign \<Rightarrow> addr option" where
  "first_ref x = (case fo_refs x of [] \<Rightarrow> None | a # _ \<Rightarrow> Some a)"

definition sample_copy :: "foreign copying" where
  "sample_copy x h = (let (a, h') = copyPtr ForeignC asForeign zero_foreign plain (first_ref x) h
     in (x\<lparr>fo_refs := (case a of None \<Rightarrow> [] | Some b \<Rightarrow> [b])\<rparr>, h'))"

definition sample_view :: "(string \<Rightarrow> string option \<Rightarrow> 'v) \<Rightarrow> 'v view" where
  "sample_view g = \<lparr>vw_val = (\<lambda>h x. g (fo_flat x) (ptr_val asForeign (\<lambda>_. fo_flat) h (first_ref x))),
     vw_owns = (\<lambda>h x. ptr_owns asForeign no_cells h (first_ref x)),
     vw_typed = (\<lambda>h x. ptr_typed asForeign always h (first_ref x))\<rparr>"

lemma sample_copies: "copies sample_copy (sample_view g)"
  unfolding copies_def
proof (rule deep_copier_struct)
  show "deep_copier (copyPtr ForeignC asForeign zero_foreign plain) (ptr_val asForeign (\<lambda>_. fo_flat)) (ptr_owns asForeign no_cells)
      (ptr_typed asForeign always)"
    by (intro copier_rules) (simp add: asForeign_def)
  show "sample_copy x h = (let (a, h') = copyPtr ForeignC asForeign zero_foreign plain (first_ref x) h
      in ((\<lambda>x a. x\<lparr>fo_refs := (case a of None \<Rightarrow> [] | Some b \<Rightarrow> [b])\<rparr>) x a, h'))" for x h
    by (simp add: sample_copy_def)
  show "vw_val (sample_view g) h x = (\<lambda>x a. g (fo_flat x) a) x (ptr_val asForeign (\<lambda>_. fo_flat) h (first_ref x))" for h x
    by (simp add: sample_view_def)
qed (simp_all add: sample_view_def first_ref_def split: option.splits)

definition foreign_meta :: "string \<Rightarrow> string option \<Rightarrow> ObjectMeta" where
  "foreign_meta n l = \<lparr>om_name = n, om_namespace = [], om_uid = ''uid-'' @ n,
     om_labels = (case l of None \<Rightarrow> fmempty | Some v \<Rightarrow> fmap_of_list [(''tier'', v)]), om_annotations = fmempty, om_owners = [],
     om_creationTimestamp = 1, om_deletionTimestamp = 0, om_generation = 2\<rparr>"

definition sample_copiers :: copiers where
  "sample_copiers = \<lparr>cp_ObjectMeta = sample_copy, cp_ListMeta = sample_copy, cp_ResourceQuotaSpec = sample_copy,
     cp_LimitRangeSpec = sample_copy, cp_Condition = plain\<rparr>"

definition sample_views :: views where
  "sample_views = \<lparr>v_meta = sample_view foreign_meta, v_list = sample_view (\<lambda>n _. n),
     v_quota = sample_view (\<lambda>n l. ResourceQuotaSpec (n @ (case l of None \<Rightarrow> [] | Some v \<Rightarrow> v))),
     v_limits = sample_view (\<lambda>n l. LimitRangeSpec (n @ (case l of None \<Rightarrow> [] | Some v \<Rightarrow> v)))\<rparr>"

interpretation sample_api: api_copiers sample_copiers sample_views
  by (rule api_copiers.intro) (simp_all add: sample_copiers_def sample_views_def sample_copies deep_copier_plain)

text \<open>A workspace in memory: a member with a display name, a quota, a label map, a reference and a condition.\<close>

definition sample_ready :: Condition where
  "sample_ready = \<lparr>cond_type = ''Ready'', cond_status = ConditionFalse, cond_reason = ''ReconcileError'', cond_message = Text ''boom'',
     cond_observedGeneration = 1, cond_lastTransitionTime = 3\<rparr>"

definition sample_cells :: "cell list" where
  "sample_cells = [StringC ''Alice'',
     MembersC [\<lparr>gm_Role = MemberRoleAdmin, gm_Subject = ''alice'', gm_Name = Some 0, gm_ServiceAccount = False\<rparr>],
     ForeignC \<lparr>fo_flat = ''gold'', fo_refs = []\<rparr>, QuotaC \<lparr>fo_flat = ''cpu=4'', fo_refs = []\<rparr>,
     RefC \<lparr>ref_name = ''team-alpha'', ref_namespace = []\<rparr>, ConditionsC [sample_ready]]"

definition sample_memory :: heap where
  "sample_memory = \<lparr>h_cells = (\<lambda>a. if a < 6 then Some (sample_cells ! a) else None), h_next = 6\<rparr>"

definition sample_goWorkspace :: goWorkspace where
  "sample_goWorkspace = zero_goWorkspace\<lparr>gw_ObjectMeta := \<lparr>fo_flat = ''alpha'', fo_refs = [2]\<rparr>,
     gw_Spec := zero_goSpec\<lparr>gs_Namespace := ''team-alpha'', gs_Members := Some \<lparr>sl_array = 1, sl_off = 0, sl_len = 1\<rparr>,
       gs_ResourceQuota := Some 3\<rparr>,
     gw_Status := zero_goStatus\<lparr>gt_NamespaceRef := Some 4, gt_Conditions := Some \<lparr>sl_array = 5, sl_off = 0, sl_len = 1\<rparr>\<rparr>\<rparr>"

lemmas typed_defs = workspace_typed_def spec_typed_def status_typed_def member_typed_def isolation_typed_def list_typed_def

lemma sample_typed: "workspace_typed sample_views sample_memory sample_goWorkspace"
  by (simp add: typed_defs sample_goWorkspace_def zero_goWorkspace_def zero_goSpec_def zero_goStatus_def zero_goIsolation_def
      sample_views_def sample_view_def first_ref_def ptr_typed_def slice_typed_def elems_def sample_memory_def sample_cells_def
      as_defs asForeign_def)

section \<open>Properties\<close>

text \<open>
  C22: \<open>DeepCopy\<close> of a workspace returns a new pointer to a well-typed workspace that means exactly the same, is made of new
  cells only, and leaves every cell that existed before as it was; nil gives nil. From then on the two never influence
  each other: whatever is written to cells of the copy, or to newer ones, the original still means what it
  meant; whatever is written to cells of the original, the copy still means what the original meant when it was made.
\<close>

theorem workspace_copy_is_deep:
  assumes "api_copiers P V" and "workspace_typed V h w" and "Workspace_DeepCopy P (Some w) h = (p, h')"
  shows "\<exists>a c. p = Some a \<and> h_cells h' a = Some (WorkspaceC c) \<and> workspace_val V h' c = workspace_val V h w \<and>
    workspace_typed V h' c \<and> insert a (workspace_owns V h' c) \<subseteq> {h_next h..<h_next h'} \<and> extends h h' \<and>
    (\<forall>k. same_on (- insert a (workspace_owns V h' c)) h' k \<longrightarrow> workspace_val V k w = workspace_val V h w) \<and>
    (\<forall>k. same_on (- workspace_owns V h' w) h' k \<longrightarrow> workspace_val V k c = workspace_val V h w) \<and>
    Workspace_DeepCopy P None h = (None, h)"
proof -
  note D = api_copiers.workspace_copier [OF assms(1)]
  obtain c where c: "p = Some (h_next h)" "h_cells h' (h_next h) = Some (WorkspaceC c)" "workspace_typed V h' c"
    "workspace_val V h' c = workspace_val V h w" "insert (h_next h) (workspace_owns V h' c) \<subseteq> {h_next h..<h_next h'}" "extends h h'"
    by (rule api_copiers.workspace_DeepCopy [OF assms])
  note X = deep_copier.extended [OF D assms(2) c(6)]
  have apart: "workspace_owns V h' w \<inter> insert (h_next h) (workspace_owns V h' c) = {}"
    using c(5) X(3) deep_copier.typed_owns [OF D assms(2)] by fastforce
  have "workspace_val V k w = workspace_val V h w" if "same_on (- insert (h_next h) (workspace_owns V h' c)) h' k" for k
    using deep_copier.val_local [OF D X(1) same_on_subset [OF that]] apart X(2) by auto
  moreover have "workspace_val V k c = workspace_val V h w" if "same_on (- workspace_owns V h' w) h' k" for k
    using deep_copier.val_local [OF D c(3) same_on_subset [OF that]] apart c(4) by auto
  moreover have "Workspace_DeepCopy P None h = (None, h)" by (simp add: Workspace_DeepCopy_def newCopy_def)
  ultimately show ?thesis using c by blast
qed

theorem workspace_copy_is_deep_witness:
  "\<exists>a c h'. Workspace_DeepCopy sample_copiers (Some sample_goWorkspace) sample_memory = (Some a, h') \<and> h_cells h' a = Some (WorkspaceC c) \<and>
     workspace_val sample_views (store_cell 5 (ConditionsC []) h') c = workspace_val sample_views sample_memory sample_goWorkspace \<and>
     workspace_val sample_views (store_cell 5 (ConditionsC []) h') sample_goWorkspace \<noteq> workspace_val sample_views sample_memory sample_goWorkspace"
proof -
  obtain p h' where d: "Workspace_DeepCopy sample_copiers (Some sample_goWorkspace) sample_memory = (p, h')" by fastforce
  have "5 \<in> workspace_owns sample_views h' sample_goWorkspace"
    by (simp add: workspace_owns_def status_owns_def slice_owns_def sample_goWorkspace_def)
  then have "same_on (- workspace_owns sample_views h' sample_goWorkspace) h' (store_cell 5 (ConditionsC []) h')"
    by (intro same_on_store) simp
  with workspace_copy_is_deep [OF sample_api.api_copiers_axioms sample_typed d] d show ?thesis
    by (fastforce simp: workspace_val_def status_val_def slice_val_def elems_def sample_goWorkspace_def as_defs
        sample_memory_def sample_cells_def)
qed

text \<open>
  C23: \<open>DeepCopyObject\<close> of a list of workspaces keeps memory well typed: the interface it returns is nil exactly when
  the receiver is, and otherwise holds a pointer to a well-typed list of the same workspaces in the same order, of which no
  cell existed before.
\<close>

theorem list_copy_object_typed:
  assumes "api_copiers P V" and "\<And>l. inp = Some l \<Longrightarrow> list_typed V h l"
    and "WorkspaceList_DeepCopyObject P inp h = (ob, h')"
  shows "case inp of
      None \<Rightarrow> ob = None \<and> h' = h
    | Some l \<Rightarrow> \<exists>a c. ob = Some (WorkspaceListObject a) \<and> h_cells h' a = Some (WorkspaceListC c) \<and> list_typed V h' c \<and>
        list_val V h' c = list_val V h l \<and> insert a (list_owns V h' c) \<subseteq> {h_next h..<h_next h'} \<and> extends h h'"
proof (cases inp)
  case None
  with assms(3) show ?thesis by (simp add: WorkspaceList_DeepCopyObject_def WorkspaceList_DeepCopy_def newCopy_def)
next
  case (Some l)
  obtain p k where d: "WorkspaceList_DeepCopy P (Some l) h = (p, k)" by fastforce
  obtain c where c: "p = Some (h_next h)" "h_cells k (h_next h) = Some (WorkspaceListC c)" "list_typed V k c"
    "list_val V k c = list_val V h l" "insert (h_next h) (list_owns V k c) \<subseteq> {h_next h..<h_next k}" "extends h k"
    by (rule api_copiers.list_DeepCopy [OF assms(1) assms(2) [OF Some] d])
  have "ob = Some (WorkspaceListObject (h_next h))" "h' = k"
    using assms(3) Some d c(1) by (simp_all add: WorkspaceList_DeepCopyObject_def)
  with Some c show ?thesis by auto
qed

definition sample_goList :: goWorkspaceList where
  "sample_goList = zero_goWorkspaceList\<lparr>gl_Items := Some \<lparr>sl_array = 6, sl_off = 0, sl_len = 1\<rparr>\<rparr>"

definition sample_list_memory :: heap where
  "sample_list_memory = snd (alloc (WorkspacesC [sample_goWorkspace]) sample_memory)"

lemma sample_list_typed: "list_typed sample_views sample_list_memory sample_goList"
proof -
  have "workspace_typed sample_views sample_list_memory sample_goWorkspace"
    unfolding sample_list_memory_def
    by (rule deep_copier.extended(1) [OF sample_api.workspace_copier sample_typed extends_alloc])
  moreover have "h_cells sample_list_memory 6 = Some (WorkspacesC [sample_goWorkspace])" "h_next sample_list_memory = 7"
    by (simp_all add: sample_list_memory_def sample_memory_def alloc_def)
  ultimately show ?thesis
    by (simp add: list_typed_def sample_goList_def zero_goWorkspaceList_def zero_foreign_def sample_views_def sample_view_def
        first_ref_def ptr_typed_def slice_typed_def elems_def as_defs)
qed

theorem list_copy_object_typed_witness:
  "\<exists>a c h'. WorkspaceList_DeepCopyObject sample_copiers (Some sample_goList) sample_list_memory = (Some (WorkspaceListObject a), h') \<and>
     h_cells h' a = Some (WorkspaceListC c) \<and> list_val sample_views h' c = list_val sample_views sample_list_memory sample_goList"
proof -
  obtain ob h' where d: "WorkspaceList_DeepCopyObject sample_copiers (Some sample_goList) sample_list_memory = (ob, h')" by fastforce
  from list_copy_object_typed [OF sample_api.api_copiers_axioms _ d] sample_list_typed d show ?thesis by auto
qed

end
