(* ===== verification/Status_Memory.thy ===== *)
theory Status_Memory
  imports Controller Deep_Copy
begin

text \<open>
  The status code of \<open>src/internal/controller/workspace_controller.go\<close> on Go's memory. \<open>updateStatus\<close> and
  \<open>setReadyConditionFalse\<close> change conditions in place (\<open>meta.SetStatusCondition\<close>, \<open>slices.SortFunc\<close>) while they still need
  the old values: for the comparison that decides about the patch, and for the base the patch is computed
  from. The deep copies keep the two apart, so both hand the API server exactly what the functional model of \<open>Controller\<close>
  does.
\<close>

section \<open>Operations\<close>

text \<open>\<open>&ResourceReference{\<dots>}\<close>, or nil; and a slice built by \<open>append\<close> from nil\<close>

definition newRef :: "ResourceReference option \<Rightarrow> heap \<Rightarrow> addr option \<times> heap" where
  "newRef r h = (case r of None \<Rightarrow> (None, h) | Some x \<Rightarrow> let (a, h) = alloc (RefC x) h in (Some a, h))"

definition newRefs :: "ResourceReference list \<Rightarrow> heap \<Rightarrow> slice option \<times> heap" where
  "newRefs rs h = (if rs = [] then (None, h)
     else let (a, h) = alloc (RefsC rs) h in (Some \<lparr>sl_array = a, sl_off = 0, sl_len = length rs\<rparr>, h))"

text \<open>\<open>slices.SortFunc(newStatus.Conditions, \<dots>)\<close> sorts within the array of the slice.\<close>

definition sortConditions :: "slice option \<Rightarrow> heap \<Rightarrow> heap" where
  "sortConditions s h = (case s of None \<Rightarrow> h | Some sl \<Rightarrow>
     (case deref asConditions h (Some (sl_array sl)) of
        None \<Rightarrow> h
      | Some xs \<Rightarrow> store_cell (sl_array sl) (ConditionsC (take (sl_off sl) xs @
          sort_key cond_type (take (sl_len sl) (drop (sl_off sl) xs)) @ drop (sl_off sl + sl_len sl) xs)) h))"

text \<open>
  \<open>setCond\<close> is \<open>meta.SetStatusCondition(&conditions, c)\<close>. The result is the new status and memory; \<open>updateStatusMem\<close> adds
  the arguments of the patch, if there is one: the base and the changed workspace, as they read when the patch is computed.
\<close>

type_synonym set_condition = "slice option \<Rightarrow> Condition \<Rightarrow> heap \<Rightarrow> slice option \<times> heap"

definition assignStatus ::
    "set_condition \<Rightarrow> Workspace \<Rightarrow> string list \<Rightarrow> ResourceReference option \<Rightarrow> ResourceReference option \<Rightarrow> goStatus \<Rightarrow> heap \<Rightarrow>
     goStatus \<times> heap" where
  "assignStatus setCond w missing secretRef repoRef newStatus h =
     (let d = derivedStatus w;
          (namespaceRef, h) = newRef (st_namespaceRef d) h;
          (bindingRefs, h) = newRefs (st_roleBindingRefs d) h;
          (quotaRef, h) = newRef (st_resourceQuotaRef d) h;
          (limitsRef, h) = newRef (st_limitRangeRef d) h;
          (pullRef, h) = newRef secretRef h;
          (helmRef, h) = newRef repoRef h;
          (policyRef, h) = newRef (st_networkPolicyRef d) h;
          (conditions, h) = setCond (gt_Conditions newStatus) (finalCondition w missing) h;
          h = sortConditions conditions h
      in (\<lparr>gt_ObservedGeneration = om_generation (ws_meta w), gt_NamespaceRef = namespaceRef, gt_ResourceQuotaRef = quotaRef,
           gt_LimitRangeRef = limitsRef, gt_RoleBindingRefs = bindingRefs, gt_NetworkPolicyRef = policyRef,
           gt_ImagePullSecretRef = pullRef, gt_HelmRepositoryRef = helmRef, gt_Conditions = conditions\<rparr>, h))"

definition readWorkspace :: "views \<Rightarrow> heap \<Rightarrow> addr option \<Rightarrow> Workspace option" where
  "readWorkspace V h p = map_option (\<lambda>x. snd (workspace_val V h x)) (deref asWorkspace h p)"

definition updateStatusMem ::
    "copiers \<Rightarrow> views \<Rightarrow> set_condition \<Rightarrow> goWorkspace \<Rightarrow> string list \<Rightarrow> ResourceReference option \<Rightarrow> ResourceReference option \<Rightarrow>
     heap \<Rightarrow> (Workspace \<times> Workspace) option" where
  "updateStatusMem P V setCond w missing secretRef repoRef h =
     (let (p, h) = WorkspaceStatus_DeepCopy P (Some (gw_Status w)) h
      in case deref asStatus h p of
           None \<Rightarrow> None
         | Some copied \<Rightarrow>
             (let (newStatus, h) = assignStatus setCond (snd (workspace_val V h w)) missing secretRef repoRef copied h
              in if status_val h (gw_Status w) \<noteq> status_val h newStatus
                 then let (base, h) = Workspace_DeepCopy P (Some w) h; w = w\<lparr>gw_Status := newStatus\<rparr>
                      in map_option (\<lambda>b. (b, snd (workspace_val V h w))) (readWorkspace V h base)
                 else None))"

definition setReadyConditionFalseMem ::
    "copiers \<Rightarrow> views \<Rightarrow> set_condition \<Rightarrow> goWorkspace \<Rightarrow> string \<Rightarrow> message \<Rightarrow> heap \<Rightarrow> (Workspace \<times> Workspace) option" where
  "setReadyConditionFalseMem P V setCond w reason msg h =
     (let W = snd (workspace_val V h w);
          (base, h) = Workspace_DeepCopy P (Some w) h;
          (conditions, h) = setCond (gt_Conditions (gw_Status w)) (readyCondition W ConditionFalse reason msg) h;
          w = w\<lparr>gw_Status := (gw_Status w)\<lparr>gt_Conditions := conditions, gt_ObservedGeneration := om_generation (ws_meta W)\<rparr>\<rparr>
      in map_option (\<lambda>b. (b, snd (workspace_val V h w))) (readWorkspace V h base))"

section \<open>What SetStatusCondition may do\<close>

abbreviation conds_val :: "heap \<Rightarrow> slice option \<Rightarrow> Condition list" where
  "conds_val \<equiv> slice_val asConditions itself_val"

abbreviation conds_typed :: "heap \<Rightarrow> slice option \<Rightarrow> bool" where
  "conds_typed \<equiv> slice_typed asConditions always"

abbreviation conds_owns :: "heap \<Rightarrow> slice option \<Rightarrow> addr set" where
  "conds_owns \<equiv> slice_owns asConditions no_cells"

text \<open>It may write into the array of the slice, or allocate; what the slice then holds is a function of what it held.\<close>

locale condition_memory =
  fixes setCond :: set_condition and setVal :: "Condition list \<Rightarrow> Condition \<Rightarrow> Condition list"
  assumes set_typed: "conds_typed h cs \<Longrightarrow> setCond cs c h = (cs', h') \<Longrightarrow> conds_typed h' cs'"
    and set_val: "conds_typed h cs \<Longrightarrow> setCond cs c h = (cs', h') \<Longrightarrow> conds_val h' cs' = setVal (conds_val h cs) c"
    and set_owns: "conds_typed h cs \<Longrightarrow> setCond cs c h = (cs', h') \<Longrightarrow> conds_owns h' cs' \<subseteq> conds_owns h cs \<union> {h_next h..<h_next h'}"
    and set_frame: "conds_typed h cs \<Longrightarrow> setCond cs c h = (cs', h') \<Longrightarrow> same_on ({..<h_next h} - conds_owns h cs) h h'"

section \<open>Cells of different types are different\<close>

lemma conds_owns_eq: "conds_owns h cs = (case cs of None \<Rightarrow> {} | Some sl \<Rightarrow> {sl_array sl})"
  by (simp add: slice_owns_def split: option.splits)

lemma refs_owns_eq: "slice_owns asRefs no_cells h s = (case s of None \<Rightarrow> {} | Some sl \<Rightarrow> {sl_array sl})"
  by (simp add: slice_owns_def split: option.splits)

lemma ref_owns_eq: "ref_owns h p = (case p of None \<Rightarrow> {} | Some a \<Rightarrow> {a})"
  by (simp add: ptr_owns_def split: option.splits)

lemma ref_apart: "ref_typed h p \<Longrightarrow> conds_typed h cs \<Longrightarrow> ref_owns h p \<inter> conds_owns h cs = {}"
  by (auto simp: ptr_typed_def slice_typed_def conds_owns_eq ref_owns_eq as_defs split: option.splits cell.splits
      Option.bind_splits)

lemma refs_apart:
  "slice_typed asRefs always h s \<Longrightarrow> conds_typed h cs \<Longrightarrow> slice_owns asRefs no_cells h s \<inter> conds_owns h cs = {}"
  by (auto simp: slice_typed_def conds_owns_eq refs_owns_eq as_defs split: option.splits cell.splits Option.bind_splits)


section \<open>The new status\<close>

lemma ref_copier: "deep_copier copyRef ref_val ref_owns ref_typed"
  by (intro copier_rules) (simp add: as_defs)

lemma refs_copier: "deep_copier (copyFlat RefsC asRefs zero_ref) (slice_val asRefs itself_val) (slice_owns asRefs no_cells)
    (slice_typed asRefs always)"
  by (intro copier_rules) (simp add: as_defs)

lemma conds_copier: "deep_copier (copySlice ConditionsC asConditions zero_condition plain) conds_val conds_owns conds_typed"
  by (intro copier_rules) (simp add: as_defs)

lemma newRef_new:
  assumes "newRef r h = (p, h')"
  shows "extends h h'" and "ref_typed h' p" and "ref_val h' p = r"
  using assms by (auto simp: newRef_def alloc_def extends_def ptr_defs as_defs split: option.splits)

lemma newRefs_new:
  assumes "newRefs rs h = (p, h')"
  shows "extends h h'" and "slice_typed asRefs always h' p" and "slice_val asRefs itself_val h' p = rs"
  using assms by (auto simp: newRefs_def alloc_def extends_def slice_defs elems_def as_defs list_all_iff split: if_splits)

lemma sortConditions_sorts:
  assumes "conds_typed h cs"
  shows "conds_typed (sortConditions cs h) cs" and "conds_val (sortConditions cs h) cs = sort_key cond_type (conds_val h cs)"
    and "same_on (- conds_owns h cs) h (sortConditions cs h)"
proof -
  show "conds_typed (sortConditions cs h) cs"
    using assms by (auto simp: sortConditions_def slice_typed_def as_defs list_all_iff split: option.splits cell.splits)
  show "conds_val (sortConditions cs h) cs = sort_key cond_type (conds_val h cs)"
    using assms by (auto simp: sortConditions_def slice_defs elems_def as_defs split: option.splits cell.splits)
  show "same_on (- conds_owns h cs) h (sortConditions cs h)"
    by (auto simp: sortConditions_def conds_owns_eq split: option.splits intro!: same_on_store)
qed

text \<open>The references the code allocates, in its order; later allocations leave earlier ones alone.\<close>

lemma new_references:
  assumes "newRef r1 h = (p1, h1)" "newRefs rs h1 = (p2, h2)" "newRef r3 h2 = (p3, h3)" "newRef r4 h3 = (p4, h4)"
    "newRef r5 h4 = (p5, h5)" "newRef r6 h5 = (p6, h6)" "newRef r7 h6 = (p7, h7)"
  shows "extends h h7"
    and "\<forall>(p, r) \<in> {(p1, r1), (p3, r3), (p4, r4), (p5, r5), (p6, r6), (p7, r7)}. ref_typed h7 p \<and> ref_val h7 p = r"
    and "slice_typed asRefs always h7 p2" and "slice_val asRefs itself_val h7 p2 = rs"
proof -
  note N = assms(1,3-7) [THEN newRef_new(1)] newRefs_new(1) [OF assms(2)]
  have e6: "extends h6 h7" by (rule N(6))
  have e5: "extends h5 h7" by (rule extends_trans [OF N(5) e6])
  have e4: "extends h4 h7" by (rule extends_trans [OF N(4) e5])
  have e3: "extends h3 h7" by (rule extends_trans [OF N(3) e4])
  have e2: "extends h2 h7" by (rule extends_trans [OF N(2) e3])
  have e1: "extends h1 h7" by (rule extends_trans [OF N(7) e2])
  show "extends h h7" by (rule extends_trans [OF N(1) e1])
  have R: "ref_typed h7 p \<and> ref_val h7 p = r" if "newRef r k = (p, k')" "extends k' h7" for r k p k'
    using deep_copier.extended(1,2) [OF ref_copier newRef_new(2) [OF that(1)] that(2)] newRef_new(3) [OF that(1)] by simp
  show "\<forall>(p, r) \<in> {(p1, r1), (p3, r3), (p4, r4), (p5, r5), (p6, r6), (p7, r7)}. ref_typed h7 p \<and> ref_val h7 p = r"
    using R [OF assms(1) e1] R [OF assms(3) e3] R [OF assms(4) e4] R [OF assms(5) e5] R [OF assms(6) e6] R [OF assms(7)]
    by (simp add: extends_refl)
  show "slice_typed asRefs always h7 p2" "slice_val asRefs itself_val h7 p2 = rs"
    using deep_copier.extended(1,2) [OF refs_copier newRefs_new(2) [OF assms(2)] e2] newRefs_new(3) [OF assms(2)] by simp_all
qed

context condition_memory
begin

lemma set_sort:
  assumes t: "conds_typed h cs" and c: "setCond cs c h = (cs', h1)"
  shows "conds_typed (sortConditions cs' h1) cs'"
    and "conds_val (sortConditions cs' h1) cs' = sort_key cond_type (setVal (conds_val h cs) c)"
    and "same_on ({..<h_next h} - conds_owns h cs) h (sortConditions cs' h1)"
proof -
  note S = sortConditions_sorts [OF set_typed [OF t c]]
  show "conds_typed (sortConditions cs' h1) cs'" by (rule S(1))
  show "conds_val (sortConditions cs' h1) cs' = sort_key cond_type (setVal (conds_val h cs) c)"
    using S(2) set_val [OF t c] by simp
  have "{..<h_next h} - conds_owns h cs \<subseteq> - conds_owns h1 cs'" using set_owns [OF t c] by fastforce
  then show "same_on ({..<h_next h} - conds_owns h cs) h (sortConditions cs' h1)"
    by (rule same_on_trans [OF set_frame [OF t c] same_on_subset [OF S(3)]])
qed

text \<open>References survive any change that is confined to an array of conditions.\<close>

lemma refs_kept:
  assumes "same_on ({..<h_next h} - conds_owns h cs) h k" and "conds_typed h cs"
  shows "ref_typed h p \<Longrightarrow> ref_typed k p \<and> ref_val k p = ref_val h p"
    and "slice_typed asRefs always h s \<Longrightarrow>
      slice_typed asRefs always k s \<and> slice_val asRefs itself_val k s = slice_val asRefs itself_val h s"
proof -
  assume t: "ref_typed h p"
  have "ref_owns h p \<subseteq> {..<h_next h} - conds_owns h cs"
    using ref_apart [OF t assms(2)] deep_copier.typed_owns [OF ref_copier t] by auto
  then show "ref_typed k p \<and> ref_val k p = ref_val h p"
    using deep_copier.local_facts [OF ref_copier t same_on_subset [OF assms(1)]] by blast
next
  assume t: "slice_typed asRefs always h s"
  have "slice_owns asRefs no_cells h s \<subseteq> {..<h_next h} - conds_owns h cs"
    using refs_apart [OF t assms(2)] deep_copier.typed_owns [OF refs_copier t] by auto
  then show "slice_typed asRefs always k s \<and> slice_val asRefs itself_val k s = slice_val asRefs itself_val h s"
    using deep_copier.local_facts [OF refs_copier t same_on_subset [OF assms(1)]] by blast
qed

lemma assignStatus_assigns:
  assumes t: "conds_typed h (gt_Conditions n)" and a: "assignStatus setCond w ms sr rr n h = (n', h')"
  shows "status_val h' n' = (derivedStatus w)\<lparr>st_imagePullSecretRef := sr, st_helmRepositoryRef := rr,
      st_conditions := sort_key cond_type (setVal (conds_val h (gt_Conditions n)) (finalCondition w ms))\<rparr>"
    and "same_on ({..<h_next h} - conds_owns h (gt_Conditions n)) h h'"
    and "status_typed h' n'"
proof -
  let ?d = "derivedStatus w" and ?cs = "gt_Conditions n"
  obtain p1 h1 where 1: "newRef (st_namespaceRef ?d) h = (p1, h1)" by fastforce
  obtain p2 h2 where 2: "newRefs (st_roleBindingRefs ?d) h1 = (p2, h2)" by fastforce
  obtain p3 h3 where 3: "newRef (st_resourceQuotaRef ?d) h2 = (p3, h3)" by fastforce
  obtain p4 h4 where 4: "newRef (st_limitRangeRef ?d) h3 = (p4, h4)" by fastforce
  obtain p5 h5 where 5: "newRef sr h4 = (p5, h5)" by fastforce
  obtain p6 h6 where 6: "newRef rr h5 = (p6, h6)" by fastforce
  obtain p7 h7 where 7: "newRef (st_networkPolicyRef ?d) h6 = (p7, h7)" by fastforce
  obtain cs h8 where 8: "setCond ?cs (finalCondition w ms) h7 = (cs, h8)" by fastforce
  note N = new_references [OF 1 2 3 4 5 6 7]
  note e = N(1)
  note C = deep_copier.extended [OF conds_copier t e]
  note S = set_sort [OF C(1) 8]
  note K = refs_kept [OF S(3) C(1)]
  have r: "h' = sortConditions cs h8"
    "n' = \<lparr>gt_ObservedGeneration = om_generation (ws_meta w), gt_NamespaceRef = p1, gt_ResourceQuotaRef = p3,
       gt_LimitRangeRef = p4, gt_RoleBindingRefs = p2, gt_NetworkPolicyRef = p7,
       gt_ImagePullSecretRef = p5, gt_HelmRepositoryRef = p6, gt_Conditions = cs\<rparr>"
    using a by (simp_all add: assignStatus_def 1 2 3 4 5 6 7 8)
  note P = N(2-4) K(1) K(2) [OF N(3)]
  show "status_val h' n' = (derivedStatus w)\<lparr>st_imagePullSecretRef := sr, st_helmRepositoryRef := rr,
      st_conditions := sort_key cond_type (setVal (conds_val h ?cs) (finalCondition w ms))\<rparr>"
    using P S(2) C(2) unfolding r by (simp add: status_val_def) (simp add: derivedStatus_def)
  show "status_typed h' n'" using P S(1) unfolding r by (simp add: status_typed_def)
  have "{..<h_next h} - conds_owns h ?cs \<subseteq> {..<h_next h7} - conds_owns h7 ?cs"
    using extends_next [OF e] C(3) by auto
  moreover have "same_on ({..<h_next h} - conds_owns h ?cs) h h7"
    by (rule extends_same_on [OF e]) auto
  ultimately show "same_on ({..<h_next h} - conds_owns h ?cs) h h'"
    unfolding r using same_on_trans same_on_subset [OF S(3)] by blast
qed

end


section \<open>Against the functional model\<close>

lemma status_conds_owns: "conds_owns h (gt_Conditions n) \<subseteq> status_owns h n"
  by (auto simp: status_owns_def)

lemma status_conds_typed: "status_typed h n \<Longrightarrow> conds_typed h (gt_Conditions n)"
  by (simp add: status_typed_def)

lemma workspace_val_status:
  "snd (workspace_val V h (w\<lparr>gw_Status := n\<rparr>)) = (snd (workspace_val V h w))\<lparr>ws_status := status_val h n\<rparr>"
  by (simp add: workspace_val_def)

lemma workspace_typed_status: "workspace_typed V h w \<Longrightarrow> status_typed h n \<Longrightarrow> workspace_typed V h (w\<lparr>gw_Status := n\<rparr>)"
  by (simp add: workspace_typed_def)

text \<open>The base of a patch: a copy of the workspace, which later changes elsewhere do not reach.\<close>

lemma base_reads:
  assumes "api_copiers P V" and "workspace_typed V h w" and "Workspace_DeepCopy P (Some w) h = (b, h')"
    and "same_on {h_next h..<h_next h'} h' k"
  shows "readWorkspace V k b = Some (snd (workspace_val V h w))" and "extends h h'"
proof -
  obtain c where c: "b = Some (h_next h)" "h_cells h' (h_next h) = Some (WorkspaceC c)" "workspace_typed V h' c"
    "workspace_val V h' c = workspace_val V h w" "insert (h_next h) (workspace_owns V h' c) \<subseteq> {h_next h..<h_next h'}" "extends h h'"
    by (rule api_copiers.workspace_DeepCopy [OF assms(1-3)])
  have "workspace_val V k c = workspace_val V h' c"
    using c(5) by (intro deep_copier.val_local [OF api_copiers.workspace_copier [OF assms(1)] c(3)] same_on_subset [OF assms(4)]) simp
  moreover have "h_cells k (h_next h) = Some (WorkspaceC c)"
    using assms(4) c(2,5) by (simp add: same_on_def)
  ultimately show "readWorkspace V k b = Some (snd (workspace_val V h w))"
    using c(1,4) by (simp add: readWorkspace_def as_defs)
  show "extends h h'" by (rule c(6))
qed

text \<open>The workspace itself, while the new status is made from a copy of the old one.\<close>

lemma original_kept:
  assumes "api_copiers P V" and "workspace_typed V h w" and "extends h h1" and "same_on ({..<h_next h1} - A) h1 k"
    and "A \<subseteq> {h_next h..<h_next h1}"
  shows "workspace_val V h1 w = workspace_val V h w" and "workspace_val V k w = workspace_val V h w" and "workspace_typed V k w"
proof -
  note D = api_copiers.workspace_copier [OF assms(1)]
  note X = deep_copier.extended [OF D assms(2,3)]
  have "workspace_owns V h1 w \<subseteq> {..<h_next h1} - A"
    using deep_copier.typed_owns [OF D assms(2)] X(3) extends_next [OF assms(3)] assms(5) by fastforce
  note K = deep_copier.local_facts [OF D X(1) same_on_subset [OF assms(4) this]]
  show "workspace_val V h1 w = workspace_val V h w" by (rule X(2))
  show "workspace_val V k w = workspace_val V h w" using K(2) X(2) by simp
  show "workspace_typed V k w" by (rule K(1))
qed

lemma updateStatusMem_eq:
  assumes A: "api_copiers P V" and C: "condition_memory setCond (client_SetStatusCondition (r_Client r) now)"
    and t: "workspace_typed V h w" and W: "snd (workspace_val V h w) = W"
  shows "updateStatusMem P V setCond w ms sr rr h =
    (let st = newStatusFor r W ms sr rr now in if ws_status W \<noteq> st then Some (W, W\<lparr>ws_status := st\<rparr>) else None)"
proof -
  obtain p h1 where d: "WorkspaceStatus_DeepCopy P (Some (gw_Status w)) h = (p, h1)" by fastforce
  have "status_typed h (gw_Status w)" using t by (simp add: workspace_typed_def)
  from api_copiers.status_DeepCopy [OF A this d] obtain c where c: "p = Some (h_next h)"
    "h_cells h1 (h_next h) = Some (StatusC c)" "status_typed h1 c" "status_val h1 c = status_val h (gw_Status w)"
    "insert (h_next h) (status_owns h1 c) \<subseteq> {h_next h..<h_next h1}" "extends h h1" .
  obtain n h2 where n: "assignStatus setCond W ms sr rr c h1 = (n, h2)" by fastforce
  note N = condition_memory.assignStatus_assigns [OF C status_conds_typed [OF c(3)] n]
  have "conds_owns h1 (gt_Conditions c) \<subseteq> {h_next h..<h_next h1}" using status_conds_owns c(5) by blast
  note O = original_kept [OF A t c(6) N(2) this]
  let ?st = "newStatusFor r W ms sr rr now"
  have "st_conditions (ws_status W) = conds_val h1 (gt_Conditions c)"
    using c(4) W by (auto simp: workspace_val_def status_val_def)
  then have n2: "status_val h2 n = ?st"
    using N(1) by (simp add: newStatusFor_def Let_def derivedStatus_def)
  have old: "status_val h2 (gw_Status w) = ws_status W"
    using O(2) W by (auto simp: workspace_val_def)
  obtain b h3 where b: "Workspace_DeepCopy P (Some w) h2 = (b, h3)" by fastforce
  note B = base_reads [OF A O(3) b same_on_refl]
  have "workspace_val V h3 (w\<lparr>gw_Status := n\<rparr>) = workspace_val V h2 (w\<lparr>gw_Status := n\<rparr>)"
    by (rule deep_copier.extended(2) [OF api_copiers.workspace_copier [OF A] workspace_typed_status [OF O(3) N(3)] B(2)])
  then have "snd (workspace_val V h3 (w\<lparr>gw_Status := n\<rparr>)) = W\<lparr>ws_status := ?st\<rparr>"
    using workspace_val_status [where V = V and h = h2 and w = w and n = n] O(2) n2 W by simp
  then show ?thesis
    using d c(1,2) n O(1,2) W b B(1) n2 old by (simp add: updateStatusMem_def as_defs Let_def)
qed

text \<open>
  \<open>setReadyConditionFalse\<close> changes the conditions of the workspace itself. Go's types keep an array of conditions out of the
  metadata and the specification, which the model of the foreign structs has to be told.
\<close>

definition conditions_apart :: "views \<Rightarrow> heap \<Rightarrow> goWorkspace \<Rightarrow> bool" where
  "conditions_apart V h w \<longleftrightarrow>
     conds_owns h (gt_Conditions (gw_Status w)) \<inter> (vw_owns (v_meta V) h (gw_ObjectMeta w) \<union> spec_owns V h (gw_Spec w)) = {}"

lemma changed_conditions:
  assumes A: "api_copiers P V" and C: "condition_memory setCond setVal"
    and t: "workspace_typed V h w" and ap: "conditions_apart V h w" and s: "setCond (gt_Conditions (gw_Status w)) c h = (cs, k)"
  shows "snd (workspace_val V k (w\<lparr>gw_Status := (gw_Status w)\<lparr>gt_Conditions := cs, gt_ObservedGeneration := g\<rparr>\<rparr>)) =
    (let W = snd (workspace_val V h w) in
     W\<lparr>ws_status := (ws_status W)\<lparr>st_conditions := setVal (st_conditions (ws_status W)) c, st_observedGeneration := g\<rparr>\<rparr>)"
proof -
  let ?cs = "gt_Conditions (gw_Status w)"
  have ty: "vw_typed (v_meta V) h (gw_ObjectMeta w)" "spec_typed V h (gw_Spec w)" "status_typed h (gw_Status w)"
    using t by (auto simp: workspace_typed_def)
  note T = status_conds_typed [OF ty(3)]
  note F = condition_memory.set_frame [OF C T s]
  note M = api_copiers.meta_copies [OF A, unfolded copies_def] and S = api_copiers.spec_copier [OF A]
  have m: "vw_val (v_meta V) k (gw_ObjectMeta w) = vw_val (v_meta V) h (gw_ObjectMeta w)"
    using ap deep_copier.typed_owns [OF M ty(1)]
    by (intro deep_copier.val_local [OF M ty(1)] same_on_subset [OF F]) (auto simp: conditions_apart_def)
  have sp: "spec_val V k (gw_Spec w) = spec_val V h (gw_Spec w)"
    using ap deep_copier.typed_owns [OF S ty(2)]
    by (intro deep_copier.val_local [OF S ty(2)] same_on_subset [OF F]) (auto simp: conditions_apart_def)
  note R = condition_memory.refs_kept [OF C F T]
  show ?thesis
    using m sp R ty(3) condition_memory.set_val [OF C T s]
    by (simp add: workspace_val_def status_val_def status_typed_def)
qed

lemma setReadyConditionFalseMem_eq:
  assumes A: "api_copiers P V" and C: "condition_memory setCond (client_SetStatusCondition (r_Client r) now)"
    and t: "workspace_typed V h w" and W: "snd (workspace_val V h w) = W" and ap: "conditions_apart V h w"
  shows "setReadyConditionFalseMem P V setCond w reason msg h =
    Some (W, W\<lparr>ws_status := (ws_status W)\<lparr>st_conditions := client_SetStatusCondition (r_Client r) now (st_conditions (ws_status W))
      (readyCondition W ConditionFalse reason msg), st_observedGeneration := om_generation (ws_meta W)\<rparr>\<rparr>)"
proof -
  let ?cs = "gt_Conditions (gw_Status w)"
  obtain b h1 where b: "Workspace_DeepCopy P (Some w) h = (b, h1)" by fastforce
  note e = base_reads(2) [OF A t b same_on_refl]
  note D = api_copiers.workspace_copier [OF A]
  note X = deep_copier.extended [OF D t e]
  obtain cs k where s: "setCond ?cs (readyCondition W ConditionFalse reason msg) h1 = (cs, k)" by fastforce
  have ty: "vw_typed (v_meta V) h (gw_ObjectMeta w)" "spec_typed V h (gw_Spec w)" "status_typed h (gw_Status w)"
    using t by (auto simp: workspace_typed_def)
  have own: "conds_owns h1 ?cs = conds_owns h ?cs" "vw_owns (v_meta V) h1 (gw_ObjectMeta w) = vw_owns (v_meta V) h (gw_ObjectMeta w)"
    "spec_owns V h1 (gw_Spec w) = spec_owns V h (gw_Spec w)"
    using deep_copier.extended(3) [OF conds_copier status_conds_typed [OF ty(3)] e]
      deep_copier.extended(3) [OF api_copiers.meta_copies [OF A, unfolded copies_def] ty(1) e]
      deep_copier.extended(3) [OF api_copiers.spec_copier [OF A] ty(2) e] by simp_all
  then have ap1: "conditions_apart V h1 w" using ap by (simp add: conditions_apart_def)
  have t1: "conds_typed h1 ?cs" using X(1) by (simp add: workspace_typed_def status_typed_def)
  have "conds_owns h1 ?cs \<subseteq> {..<h_next h}"
    using own(1) deep_copier.typed_owns [OF conds_copier status_conds_typed [OF ty(3)]] by simp
  then have "same_on {h_next h..<h_next h1} h1 k"
    by (intro same_on_subset [OF condition_memory.set_frame [OF C t1 s]]) auto
  note B = base_reads(1) [OF A t b this]
  show ?thesis
    using b s B W X(2) changed_conditions [OF A C X(1) ap1 s]
    by (simp add: setReadyConditionFalseMem_def Let_def)
qed


section \<open>An executable SetStatusCondition\<close>

text \<open>
  In place when the type is present, else a new, longer array; the value is that of the in-memory API server's
  \<open>SetStatusCondition\<close>.
\<close>

definition memSetCondition :: "nat \<Rightarrow> set_condition" where
  "memSetCondition t cs c h =
     (let xs = conds_val h cs; ys = mem_setCondition t xs c;
          fresh = (let (a, h) = alloc (ConditionsC ys) h in (Some \<lparr>sl_array = a, sl_off = 0, sl_len = length ys\<rparr>, h))
      in case cs of
           None \<Rightarrow> fresh
         | Some sl \<Rightarrow>
             (case deref asConditions h (Some (sl_array sl)) of
                None \<Rightarrow> fresh
              | Some zs \<Rightarrow>
                  if length ys = length xs
                  then (cs, store_cell (sl_array sl)
                          (ConditionsC (take (sl_off sl) zs @ ys @ drop (sl_off sl + sl_len sl) zs)) h)
                  else fresh))"

lemma memSetCondition_fresh:
  "conds_typed (snd (alloc (ConditionsC ys) h)) (Some \<lparr>sl_array = h_next h, sl_off = 0, sl_len = length ys\<rparr>)"
  "conds_val (snd (alloc (ConditionsC ys) h)) (Some \<lparr>sl_array = h_next h, sl_off = 0, sl_len = length ys\<rparr>) = ys"
  by (simp_all add: slice_defs elems_def as_defs list_all_iff)

lemma memSetCondition_sets:
  assumes t: "conds_typed h cs" and c: "memSetCondition u cs c h = (cs', h')"
  shows "conds_typed h' cs' \<and> conds_val h' cs' = mem_setCondition u (conds_val h cs) c \<and>
    conds_owns h' cs' \<subseteq> conds_owns h cs \<union> {h_next h..<h_next h'} \<and> same_on ({..<h_next h} - conds_owns h cs) h h'"
proof (cases "\<exists>sl. cs = Some sl \<and> length (mem_setCondition u (conds_val h cs) c) = length (conds_val h cs)")
  case True
  then obtain sl where sl: "cs = Some sl" and l: "length (mem_setCondition u (conds_val h cs) c) = length (conds_val h cs)" by blast
  obtain zs where z: "h_cells h (sl_array sl) = Some (ConditionsC zs)" "sl_off sl + sl_len sl \<le> length zs" "sl_array sl < h_next h"
    using t sl by (auto simp: slice_typed_def as_defs split: option.splits cell.splits Option.bind_splits)
  have v: "conds_val h cs = take (sl_len sl) (drop (sl_off sl) zs)" using sl z by (simp add: slice_val_def elems_def as_defs)
  show ?thesis
    using c l sl z v
    by (auto simp: memSetCondition_def slice_defs elems_def as_defs list_all_iff intro!: same_on_store)
next
  case False
  let ?ys = "mem_setCondition u (conds_val h cs) c"
  have "cs' = Some \<lparr>sl_array = h_next h, sl_off = 0, sl_len = length ?ys\<rparr>" "h' = snd (alloc (ConditionsC ?ys) h)"
    using c False t by (auto simp: memSetCondition_def alloc_def slice_typed_def Let_def split: option.splits)
  then show ?thesis using memSetCondition_fresh [of ?ys h] by (auto simp: conds_owns_eq same_on_def)
qed

interpretation in_place: condition_memory "memSetCondition t" "mem_setCondition t" for t
  by unfold_locales (use memSetCondition_sets in blast)+

section \<open>Property\<close>

text \<open>
  C21: the status code is free of aliasing errors: run on Go's memory, with every deep copy, in-place change of
  conditions and in-place sort of the source, \<open>updateStatus\<close> patches exactly when the functional model does and
  with the same base and the same new workspace, and so does \<open>setReadyConditionFalse\<close>.
\<close>

theorem status_patches_match_model:
  assumes "api_copiers P V" and "condition_memory setCond (client_SetStatusCondition (r_Client r) now)"
    and "workspace_typed V h w" and "conditions_apart V h w" and "snd (workspace_val V h w) = W"
  shows "patchIfChanged r W (newStatusFor r W ms sr rr now) =
      (case updateStatusMem P V setCond w ms sr rr h of
         None \<Rightarrow> ret ()
       | Some (base, new) \<Rightarrow> andThen (wrapErr ''patching Workspace status: %w'' [] (kPatchStatus (r_Client r) base new)) (\<lambda>_.
           eventf W EventTypeNormal ''Reconciled'' (Text (''Workspace resources reconciled for namespace '' @ ws_namespace W)))) \<and>
    (\<exists>base new. setReadyConditionFalseMem P V setCond w reason msg h = Some (base, new) \<and>
       setReadyConditionFalse r W reason msg \<lparr>world = now, trace = tr\<rparr> = kPatchStatus (r_Client r) base new \<lparr>world = now, trace = tr\<rparr>)"
  using updateStatusMem_eq [OF assms(1-3,5), of ms sr rr] setReadyConditionFalseMem_eq [OF assms(1-3,5,4), of reason msg]
  by (simp add: patchIfChanged_def setReadyConditionFalse_def Let_def)

definition memory_reconciler :: "mem WorkspaceReconciler" where
  "memory_reconciler = \<lparr>r_Client = mem_client, r_Version = [], r_NewHarborClient = None,
     r_Transport = \<lparr>tr_Do = (\<lambda>_ s. (Inl ''down'', s)), tr_MapOrder = (\<lambda>_ ks. ks)\<rparr>\<rparr>"

definition memory_now :: mem where
  "memory_now = \<lparr>mem_objs = (\<lambda>_. None), mem_workspaces = [], mem_clock = 7, mem_clusterAdmins = []\<rparr>"

lemma sample_apart: "conditions_apart sample_views sample_memory sample_goWorkspace"
  by (simp add: conditions_apart_def conds_owns_eq spec_owns_def sample_goWorkspace_def zero_goWorkspace_def zero_goSpec_def
      zero_goStatus_def zero_goIsolation_def isolation_owns_def member_owns_def sample_views_def sample_view_def first_ref_def
      slice_owns_def ptr_owns_def elems_def sample_memory_def sample_cells_def as_defs asForeign_def)

theorem status_patches_match_model_witness:
  "updateStatusMem sample_copiers sample_views (memSetCondition 7) sample_goWorkspace [] None None sample_memory \<noteq> None \<and>
   (\<exists>base new. setReadyConditionFalseMem sample_copiers sample_views (memSetCondition 7) sample_goWorkspace ''ReconcileError''
        (Text ''x'') sample_memory = Some (base, new) \<and>
      setReadyConditionFalse memory_reconciler (snd (workspace_val sample_views sample_memory sample_goWorkspace)) ''ReconcileError''
        (Text ''x'') \<lparr>world = memory_now, trace = []\<rparr> =
      kPatchStatus mem_client base new \<lparr>world = memory_now, trace = []\<rparr>)"
proof
  let ?W = "snd (workspace_val sample_views sample_memory sample_goWorkspace)"
  have C: "condition_memory (memSetCondition 7) (client_SetStatusCondition (r_Client memory_reconciler) memory_now)"
    using in_place.condition_memory_axioms [of 7] by (simp add: memory_reconciler_def mem_client_def memory_now_def)
  have "st_observedGeneration (ws_status ?W) \<noteq> st_observedGeneration (newStatusFor memory_reconciler ?W [] None None memory_now)"
    by (simp add: newStatusFor_def derivedStatus_def Let_def workspace_val_def status_val_def sample_goWorkspace_def zero_goStatus_def
        sample_views_def sample_view_def foreign_meta_def)
  then show "updateStatusMem sample_copiers sample_views (memSetCondition 7) sample_goWorkspace [] None None sample_memory \<noteq> None"
    unfolding updateStatusMem_eq [OF sample_api.api_copiers_axioms C sample_typed refl] by (auto simp: Let_def)
  show "\<exists>base new. setReadyConditionFalseMem sample_copiers sample_views (memSetCondition 7) sample_goWorkspace ''ReconcileError''
        (Text ''x'') sample_memory = Some (base, new) \<and>
      setReadyConditionFalse memory_reconciler ?W ''ReconcileError'' (Text ''x'') \<lparr>world = memory_now, trace = []\<rparr> =
      kPatchStatus mem_client base new \<lparr>world = memory_now, trace = []\<rparr>"
    using status_patches_match_model [OF sample_api.api_copiers_axioms C sample_typed sample_apart refl]
    by (simp add: memory_reconciler_def)
qed

end
