(* ===== verification/Spec2Isabelle.thy ===== *)
theory Spec2Isabelle
  imports Manager Lifecycle Liveness Quiescence Bounds Status_Memory
begin

text \<open>
  The tenant operator: a Kubernetes operator that keeps one tenant per \<open>Workspace\<close> object. A workspace names a
  namespace, its members with their roles, and optionally a quota, a limit range and a network isolation rule; the
  operator keeps the cluster, and a project of the Harbor registry, in step with it.

  \<^bold>\<open>The program\<close> (all paths under \<open>src/\<close>)

  \<^item> \<open>api/v1alpha1\<close> declares the Workspace API and registers it with a scheme.
  \<^item> \<open>cmd/main.go\<close> parses the flags, builds the manager and registers the controller and the webhooks with it.
  \<^item> \<open>internal/webhook/v1alpha1\<close> sits in front of the API server: the mutating webhook picks a free namespace name and
    mirrors the members in labels, the validating webhook decides who may write which workspace. Both call
    \<open>internal/workspace/authorization.go\<close> and \<open>namespace.go\<close>.
  \<^item> \<open>internal/controller\<close> is run for every change the watches deliver. One run fetches the workspace and the Harbor
    credentials and calls, in a fixed order, the functions of \<open>internal/workspace\<close> that keep the namespace, the
    role bindings, the deployer identity, quota and limits, the network policy, the Harbor project with its pull
    Secret, and the Helm sources; then it patches the status.
  \<^item> \<open>internal/harbor/client.go\<close> is the REST client of the Harbor registry that \<open>internal/workspace/harbor.go\<close> uses.

  The parts share no memory. They communicate through the API server and Harbor, so the state of the model is one
  world, threaded through every operation. Within a part objects are passed by pointer and copied by the generated
  methods of \<open>api/v1alpha1/zz_generated.deepcopy.go\<close>; where a result depends on it, the code is modelled on Go's
  memory as well.

  \<^bold>\<open>How code becomes definitions\<close>

  An operation is a function of type \<open>('s, 'e, 'a) eff\<close> (\<open>Prelude\<close>): from a world (the opaque outside state \<open>'s\<close>
  and the trace of requests made so far) to an error or a result, and the next world. Every request of the code is a
  request of the model, in the order of the code, and every error return is a branch; the error texts, with the
  wrapping of \<open>fmt.Errorf\<close>, are kept because the code compares some of them by type. Everything is a total,
  executable function: no operation of the model can fail to return, and no fuel stands for a result.

  What is not in the repository is a parameter. The Kubernetes client is the record \<open>client\<close>, the HTTP transport the
  record \<open>transport\<close>, randomness the record \<open>random\<close>, the manager and the scheme of controller-runtime records of
  \<open>Manager\<close>. What their documentation promises is a locale, and each locale is interpreted: on the model's own
  operations where they provide the interface, on an executable in-memory server where an outside party does.

  \<^bold>\<open>Theories\<close>

  \<^item> \<open>Prelude\<close>: the effect type and four small program logics over it. \<open>emits P m\<close>: every request \<open>m\<close> makes satisfies
    \<open>P\<close>; \<open>hoare\<close>: pre- and postconditions on the world, for results and for errors; \<open>outcome\<close>: which results and which
    errors \<open>m\<close> can give; \<open>keeps\<close>: a view of the world \<open>m\<close> leaves alone. Their rules are collections that the
    component proofs run through.
  \<^item> \<open>Go_Text\<close>, \<open>Go_Json\<close>, \<open>Go_Url\<close>: the parts of Go's standard library the operator uses (string functions, path and
    query escaping, base64, JSON encoding and decoding with UTF-8 repair, \<open>url.Parse\<close>), with round trips against
    reference decoders. The JSON parser refuses values nested deeper than 10000 levels, as Go's scanner does.
  \<^item> \<open>Workspace_Types\<close> (\<open>workspace_types.go\<close>), \<open>Kube_Types\<close>: the records and the validation rules of the API.
  \<^item> \<open>Kube_Client\<close>: the client parameter and its wrappers. Locale \<open>kube_api\<close>: reads change nothing, writes change one
    object; \<open>kube_cluster\<close> adds that the calls about workspaces leave other objects alone, \<open>kube_api_up\<close> that no request fails for
    outside reasons, \<open>condition_api\<close> what \<open>meta.SetStatusCondition\<close> does. The in-memory API server interprets them all.
  \<^item> \<open>Helpers\<close> (\<open>labels.go\<close>, \<open>helpers.go\<close>, \<open>config.go\<close>) and the locale \<open>resource_component\<close>, the contract of
    everything the controller calls: it writes only its own objects, and when it succeeds they are as specified.
  \<^item> \<open>Namespaces\<close> (\<open>namespace.go\<close>), \<open>Rbac\<close> (\<open>rbac.go\<close>, \<open>service_account.go\<close>), \<open>Constraints\<close>
    (\<open>resource_constraints.go\<close>, \<open>network_isolation.go\<close>), \<open>Helm\<close> (\<open>helm_repository.go\<close>): the components, each an
    interpretation of \<open>resource_component\<close>. \<open>Constraints\<close> has an interpretation of \<open>optional_object\<close> for each of the
    three objects that exist only on demand, and evaluates the network policy it writes.
  \<^item> \<open>Harbor_Client\<close> (\<open>client.go\<close>): URL building, JSON bodies, status handling and the member and robot
    operations. Locales \<open>harbor_api\<close>, \<open>harbor_beside\<close>, \<open>transport_beside\<close>: what the synchronisation relies on.
  \<^item> \<open>Harbor_Server\<close>: the promises of Harbor's member endpoints (locale \<open>harbor_members\<close>), an in-memory Harbor that
    reads the URLs and bodies the client writes and keeps them, and what the client achieves against such a server.
  \<^item> \<open>Harbor_Sync\<close> (\<open>harbor.go\<close>): credentials, project, members, robot, pull Secret and default ServiceAccount.
  \<^item> \<open>Controller\<close> (\<open>workspace_controller.go\<close>): \<open>Reconcile\<close>, error handling and status. \<open>Watches\<close>: the event
    filters, the fan-out of operator-wide inputs (locale \<open>operator_input\<close>) and \<open>SetupWithManager\<close> (locale
    \<open>watch_dispatch\<close>). \<open>Liveness\<close>: progress on a \<open>healthy_cluster\<close>.
  \<^item> \<open>Authorization\<close> (\<open>authorization.go\<close>), \<open>Webhook\<close> (\<open>workspace_webhook.go\<close>; locales \<open>random_source\<close>,
    \<open>name_source\<close>): the admission decisions. \<open>Lifecycle\<close>: the stored workspaces under any sequence of requests, as a
    step relation over the webhooks, with the locale \<open>complete_listing\<close>.
  \<^item> \<open>Manager\<close> (\<open>main.go\<close>, \<open>groupversion_info.go\<close>): flag parsing, options, the start-up sequence, the scheme.
  \<^item> \<open>Go_Memory\<close>: a heap of typed cells with the structs of the API in it, pointers and slices as addresses into it. Locale
    \<open>deep_copier\<close>: what a deep copy promises (same meaning, new cells only, the old ones untouched); \<open>pointee\<close> and
    \<open>element\<close> carry it to pointers and slices. \<open>Deep_Copy\<close> (\<open>zz_generated.deepcopy.go\<close>): every generated
    method, each a \<open>deep_copier\<close>, with the copies of other packages' structs as parameters (locale \<open>api_copiers\<close>).
  \<^item> \<open>Status_Memory\<close>: \<open>updateStatus\<close> and \<open>setReadyConditionFalse\<close> once more, on that memory, with the in-place
    changes of conditions (locale \<open>condition_memory\<close>), and that they refine the functional ones of \<open>Controller\<close>.
  \<^item> \<open>Quiescence\<close>: when a reconcile finds its work done it leaves the objects as they are (locale \<open>quiet_cluster\<close>:
    \<open>CreateOrUpdate\<close> with an object that is already so changes nothing).
  \<^item> \<open>Bounds\<close>: the number of requests of the loops. \<open>Samples\<close>: the workspace the witnesses use.
  \<^item> This theory: what one whole reconcile run does, whatever the outside answers.

  \<^bold>\<open>What is shown\<close>

  \<^item> Tenant isolation: a run writes only the workspace, its events, its objects and its Harbor project; it never
    takes over a namespace of another owner; exactly the declared members hold exactly their roles; the network
    policy admits exactly the allowed peers. What one tenant has been given survives every reconcile of another.
  \<^item> Convergence: a run that reports success has established the tenant, and on a healthy cluster with Harbor up a
    run does succeed. The status says Ready only then. A second run writes no status and
    changes no object, so the control loop comes to rest.
  \<^item> Admission: what is admitted is well formed and owns its namespace, changes are judged by the stored object, and
    these are invariants of every reachable set of stored workspaces; namespaces are unique as long as creations do
    not overlap, and a reachable state shows that they need not be when creations overlap.
  \<^item> Harbor: against a server that keeps its promises the project ends with exactly the declared members, for any
    iteration order of Go's maps, as far as one page of the member list reaches; robots are
    refreshed only when the pull Secret is gone, and then only the workspace's own robot is deleted.
  \<^item> Memory: a deep copy and its original never influence each other, so the patches of the status are computed from
    the right base, and no write to a copy reaches the shared cache.
  \<^item> Errors: a permanent conflict is reported and not retried, every other error is returned for a retry.
  \<^item> Round trips and bounds: the docker configuration decodes to the robot's credentials, the flags to the options
    they were printed from; defaulting asks for at most \<open>namespaceNameAttempts\<close> = 5 names, and the member
    synchronisation makes one request, and at most one more per declared and per listed member.

  \<^bold>\<open>Not modelled\<close>

  \<^item> Aliasing outside the deep copies and the status code: everywhere else objects are values. The capacity of a slice is not part of
    the memory model; \<open>append\<close> to a nil slice, the only one used there, allocates.
  \<^item> The insides of controller-runtime, the API server, Flux and Harbor: parameters, as above.
  \<^item> Logging, contexts with their cancellation and timeouts, and metrics: they do not change what is requested. A
    timeout is a transport error of the parameter.
  \<^item> Interleaving of two reconcile runs: controller-runtime runs one reconcile per workspace at a time, and the runs
    of two workspaces touch different objects (shown for runs one after the other). Other writers between two requests of a run are covered by the theorems about
    its requests, which assume nothing of the answers, and excluded by the frame laws of \<open>kube_api\<close> in those about
    the objects it leaves. Overlapping admissions are steps of \<open>Lifecycle\<close>.
\<close>

section \<open>A canned Harbor\<close>

text \<open>
  For witnesses: a Harbor that has every project and no members or robots, accepts additions, and hands out one
  robot secret. It keeps no state, so it leaves the cluster beside it alone.
\<close>

definition jsonText :: "json \<Rightarrow> http_response" where
  "jsonText j = \<lparr>StatusCode = 200, Body = Marshal j\<rparr>"

definition canned_Do :: "http_request \<Rightarrow> 'x \<Rightarrow> (string + http_response) \<times> 'x" where
  "canned_Do q s =
     (Inr (case rq_method q of
        MethodHead \<Rightarrow> \<lparr>StatusCode = 200, Body = []\<rparr>
      | MethodGet \<Rightarrow>
          if HasPrefix (rev (rq_url q)) (rev ''/members'') then jsonText (JArr [])
          else if HasPrefix (rq_url q) (''https://harbor.local'' @ robotsPath) then jsonText (JArr [])
          else jsonText (JObj [(''project_id'', JInt 7)])
      | MethodPost \<Rightarrow> \<lparr>StatusCode = 201, Body = Marshal (JObj [(''name'', JStr ''robot$x''), (''secret'', JStr ''s3cr3t'')])\<rparr>
      | _ \<Rightarrow> \<lparr>StatusCode = 200, Body = []\<rparr>), s)"

definition canned_transport :: "'x transport" where
  "canned_transport = \<lparr>tr_Do = canned_Do, tr_MapOrder = (\<lambda>_ ks. ks)\<rparr>"

interpretation canned: transport_beside canned_transport "mem_lookup :: 'x mem_scheme \<Rightarrow> _"
  by unfold_locales (simp add: canned_transport_def canned_Do_def)

definition operator_secret :: Object where
  "operator_secret = \<lparr>o_meta = (zero_meta OperatorNamespace OperatorSecretName)\<lparr>om_creationTimestamp := 2\<rparr>,
     o_body = SecretB SecretTypeOpaque (fmap_of_list [(HarborURLKey, ''https://harbor.local''),
       (HarborRobotNameKey, ''robot$operator''), (HarborRobotSecretKey, ''pw'')])\<rparr>"

definition operator_world :: "(objref \<times> Object) list" where
  "operator_world = [(operatorSecretRef, operator_secret)]"

definition sample_reconciler :: "mem WorkspaceReconciler" where
  "sample_reconciler = \<lparr>r_Client = mem_client, r_Version = ''v1'', r_NewHarborClient = None, r_Transport = canned_transport\<rparr>"

lemma sample_reconciler_simps [simp]:
  "r_Client sample_reconciler = mem_client" "r_Version sample_reconciler = ''v1''"
  "r_NewHarborClient sample_reconciler = None" "r_Transport sample_reconciler = canned_transport"
  by (simp_all add: sample_reconciler_def)

lemma sample_harbor_sound: "harbor_sound sample_reconciler mem_lookup"
  by (rule harbor_sound_http) (simp_all add: canned.transport_beside_axioms)

section \<open>One reconcile\<close>

lemma reconcile_fetch:
  assumes "Reconcile r n s = (res, s')"
  obtains (absent) a v where "client_GetWorkspace (r_Client r) n (world s) = (Inl a, v)"
      and "trace s' = trace s @ [EvGetWorkspace n]" and "world s' = v"
      and "\<And>x. res = Inr x \<Longrightarrow> x = noRequeue"
    | (found) w v where "client_GetWorkspace (r_Client r) n (world s) = (Inr w, v)"
      and "reconcileFetched r w (s\<lparr>world := v, trace := trace s @ [EvGetWorkspace n]\<rparr>) = (res, s')"
proof (cases "client_GetWorkspace (r_Client r) n (world s)")
  case (Pair x v)
  with assms absent found show ?thesis
    by (cases x) (auto simp: Reconcile_def onResult_def kGetWorkspace_def apiCall_def request_def ret_def fail_def
        split: if_splits)
qed



definition fake_reconciler :: "mem WorkspaceReconciler" where
  "fake_reconciler = \<lparr>r_Client = mem_client, r_Version = ''v1'', r_NewHarborClient = Some (\<lambda>_ _ _. fake_harbor),
     r_Transport = canned_transport\<rparr>"

lemma fake_reconciler_simps [simp]:
  "r_Client fake_reconciler = mem_client" "r_Version fake_reconciler = ''v1''"
  by (simp_all add: fake_reconciler_def)

lemma fake_harbor_sound: "harbor_sound fake_reconciler view"
  unfolding harbor_sound_def harborClient_def fake_reconciler_def
  by (auto intro: fake.harbor_beside_axioms)

lemma fake_run_succeeds: "\<not> isl (fst (Reconcile fake_reconciler ''sample'' (start operator_world)))"
  by code_simp

lemma fake_resources_succeed: "\<not> isl (fst (reconcileResources fake_reconciler sample_ws (start operator_world)))"
  by code_simp

lemma fake_resources_ready:
  assumes "reconcileResources fake_reconciler sample_ws (start operator_world) = (Inr ms, s1)"
  shows "tenant_ready sample_ws ''v1'' (mem_lookup (world s1))"
  using hoareD [OF hoare_reconcileResources [of fake_reconciler mem_lookup, OF _ fake_harbor_sound] refl assms]
  by (simp add: mem_server.kube_api_axioms)

lemma mem_updateStatus_ok:
  assumes "r_Client r = mem_client"
  obtains s' where "updateStatus r w ms s = (Inr (), s')"
proof -
  have o: "\<exists>x s1. observedRef r k n ns t = (Inr x, s1)" for k n ns t
    using assms by (auto simp: observedRef_def onResult_def kGet_def apiCall_def request_def mem_client_def mem_Get_def
        ret_def fail_def split: option.splits)
  have p: "\<exists>s1. patchIfChanged r w st t = (Inr (), s1)" for st t
    using assms by (auto simp: patchIfChanged_def andThen_def wrapErr_def onResult_def kPatchStatus_def apiCall_def request_def
        mem_client_def ret_def eventf_def)
  obtain x s1 where 1: "observedRef r SecretK ImagePullSecretName (ws_namespace w) s = (Inr x, s1)" using o by blast
  obtain y s2 where 2: "observedRef r HelmRepositoryK HelmRepositoryName (ws_namespace w) s1 = (Inr y, s2)" using o by blast
  obtain s3 where 3: "patchIfChanged r w (newStatusFor r w ms x y (world s2)) s2 = (Inr (), s3)" using p by blast
  show ?thesis by (rule that [of s3]) (simp add: updateStatus_def andThen_def 1 2 3)
qed

section \<open>The state a reconcile leaves\<close>

context kube_cluster
begin

lemma keeps_patchIfChanged: "r_Client r = c \<Longrightarrow> keeps store (patchIfChanged r w st)"
  unfolding patchIfChanged_def eventf_def by (intro keeps_rules) (simp_all add: keeps_workspace_calls)

lemma keeps_updateStatus: "r_Client r = c \<Longrightarrow> keeps store (updateStatus r w ms)"
proof -
  assume c: "r_Client r = c"
  have "keeps store (\<lambda>s. patchIfChanged r w (f s) s)" for f
    using keeps_patchIfChanged [OF c] unfolding keeps_def by blast
  then show ?thesis
    unfolding updateStatus_def observedRef_def by (intro keeps_andThen keeps_rules) (simp_all add: c keeps_kGet)
qed

lemma keeps_setReadyConditionFalse: "r_Client r = c \<Longrightarrow> keeps store (setReadyConditionFalse r w reason msg)"
  unfolding setReadyConditionFalse_def Let_def using keeps_workspace_calls(3) by (auto simp: keeps_def)

lemma keeps_handleReconcileError: "r_Client r = c \<Longrightarrow> keeps store (handleReconcileError r w err)"
  unfolding handleReconcileError_def Let_def eventf_def
  by (intro keeps_rules keeps_setReadyConditionFalse) auto

end

lemma handled_only_conflict:
  "handleReconcileError r w err s = (Inr res, s') \<Longrightarrow> AsNamespaceConflict err \<noteq> None"
  by (auto simp: handleReconcileError_def onResult_def andThen_def fail_def ret_def eventf_def request_def Let_def
      split: if_splits prod.splits sum.splits)

lemma fetched_cases:
  assumes "reconcileFetched r w s = (res, s')" and "mapGet (ws_labels w) LabelWorkspaceNamespace = ws_namespace w"
  obtains (failed) e s1 where "reconcileResources r w s = (Inl e, s1)" and "handleReconcileError r w e s1 = (res, s')"
    | (completed) ms s1 res1 where "reconcileResources r w s = (Inr ms, s1)" and "updateStatus r w ms s1 = (res1, s')"
      and "res = (case res1 of Inl e \<Rightarrow> Inl e
             | Inr _ \<Rightarrow> Inr (if ms = [] then noRequeue else \<lparr>RequeueAfter = missingHarborMembersRequeue\<rparr>))"
proof -
  obtain a s1 where a: "reconcileResources r w s = (a, s1)" by fastforce
  show ?thesis
  proof (cases a)
    case (Inl e)
    with a assms show ?thesis by (intro failed) (auto simp: reconcileFetched_def onResult_def)
  next
    case (Inr ms)
    obtain b s2 where b: "updateStatus r w ms s1 = (b, s2)" by fastforce
    with a Inr assms show ?thesis
      by (intro completed [of ms s1 b]) (auto simp: reconcileFetched_def onResult_def andThen_def ret_def
        split: sum.splits if_splits)
  qed
qed

text \<open>
  A run on a workspace that was found: the fetch leaves the objects alone, the resources are reconciled, and what
  follows (status, error handling, the backfilled label) leaves them alone again.
\<close>

lemma found_run:
  assumes "client_GetWorkspace (r_Client r) n (world s) = (Inr w, v)" and "Reconcile r n s = (res, s')"
  shows "reconcileFetched r w (s\<lparr>world := v, trace := trace s @ [EvGetWorkspace n]\<rparr>) = (res, s')"
  using assms by (cases rule: reconcile_fetch [OF assms(2)]) auto

lemma run_leaves:
  assumes cluster: "kube_cluster (r_Client r) store" and get: "client_GetWorkspace (r_Client r) n (world s) = (Inr w, v)"
    and run: "Reconcile r n s = (res, s')" and pre: "P v"
    and H: "hoare P (reconcileResources r w) (\<lambda>_ v. Q (store v)) (\<lambda>_ v. Q (store v))" and Q: "Q (store (world s))"
  shows "Q (store (world s'))"
proof (cases "mapGet (ws_labels w) LabelWorkspaceNamespace = ws_namespace w")
  case False
  then have "keeps store (reconcileFetched r w)"
    unfolding reconcileFetched_def by (simp, intro keeps_rules kube_cluster.keeps_workspace_calls [OF cluster])
  from keepsD [OF this found_run [OF get run]] kube_cluster.get_workspace_frame [OF cluster get] Q show ?thesis by simp
next
  case True
  from found_run [OF get run] True show ?thesis
  proof (cases rule: fetched_cases)
    case (failed e s1)
    with hoare_errD [OF H _ failed(1)] pre keepsD [OF kube_cluster.keeps_handleReconcileError [OF cluster refl]]
    show ?thesis by simp
  next
    case (completed ms s1 res1)
    with hoareD [OF H _ completed(1)] pre keepsD [OF kube_cluster.keeps_updateStatus [OF cluster refl]] show ?thesis by simp
  qed
qed

lemma successful_run_leaves:
  assumes cluster: "kube_cluster (r_Client r) store" and sound: "harbor_sound r store"
    and get: "client_GetWorkspace (r_Client r) n (world s) = (Inr w, v)"
    and label: "mapGet (ws_labels w) LabelWorkspaceNamespace = ws_namespace w"
    and free: "\<And>ob. store (world s) (namespaceRef (ws_namespace w)) = Some ob \<Longrightarrow> \<not> foreign w ob"
    and run: "Reconcile r n s = (Inr res, s')"
    and H: "hoare (\<lambda>v. store v = store (world s)) (reconcileResources r w) (\<lambda>_ v. Q (store v)) (\<lambda>_ _. True)"
  shows "Q (store (world s'))"
proof -
  note api = kube_cluster.axioms(1) [OF cluster]
  note v = kube_cluster.get_workspace_frame [OF cluster get]
  from found_run [OF get run] label show ?thesis
  proof (cases rule: fetched_cases)
    case (failed e s1)
    have "AsNamespaceConflict e \<noteq> None" by (rule handled_only_conflict [OF failed(2)])
    with hoare_errD [OF hoare_conflict_foreign [OF api sound kube_api.created_store [OF api], of v w] _ failed(1)]
    show ?thesis using free v by auto
  next
    case (completed ms s1 res1)
    with hoareD [OF H _ completed(1)] v keepsD [OF kube_cluster.keeps_updateStatus [OF cluster refl]] show ?thesis by simp
  qed
qed

text \<open>
  C2: whatever happens during a reconcile (errors, refused writes, a namespace conflict), the only objects of the
  cluster it can have changed are the workspace's namespace and objects inside it.
\<close>

theorem reconcile_changes_only_own_objects:
  assumes "kube_cluster (r_Client r) store" and "harbor_sound r store"
    and "client_GetWorkspace (r_Client r) n (world s) = (Inr w, v)"
    and "Reconcile r n s = (res, s')"
  shows "only_changes {r. own_ref w r} (store (world s)) (store (world s'))"
proof (rule run_leaves [where P = "\<lambda>v. store v = store (world s)", OF assms(1,3,4)])
  show "hoare (\<lambda>v. store v = store (world s)) (reconcileResources r w)
      (\<lambda>_ v. only_changes {r. own_ref w r} (store (world s)) (store v)) (\<lambda>_ v. only_changes {r. own_ref w r} (store (world s)) (store v))"
    by (rule hoare_conseq [OF hoare_reconcileResources [OF kube_cluster.axioms(1) [OF assms(1)] assms(2)]]) simp_all
qed (use kube_cluster.get_workspace_frame [OF assms(1,3)] in simp_all)

theorem reconcile_changes_only_own_objects_witness:
  "\<exists>res s'. Reconcile fake_reconciler ''sample'' (start operator_world) = (res, s') \<and>
     mem_lookup (world s') operatorSecretRef = Some (mem_persist 0 operator_secret)"
proof -
  obtain res s' where r: "Reconcile fake_reconciler ''sample'' (start operator_world) = (res, s')" by fastforce
  have g: "client_GetWorkspace (r_Client fake_reconciler) ''sample'' (world (start operator_world)) = (Inr sample_ws, mem_world operator_world)"
    by (simp add: mem_client_def mem_GetWorkspace_def)
  have "\<not> own_ref sample_ws operatorSecretRef" by (simp add: own_ref_def operatorSecretRef_def go_consts)
  then have "mem_lookup (world s') operatorSecretRef = mem_lookup (mem_world operator_world) operatorSecretRef"
    using reconcile_changes_only_own_objects [of fake_reconciler mem_lookup, OF _ fake_harbor_sound g r]
    by (auto simp: mem_cluster.kube_cluster_axioms dest: only_changesD)
  with r show ?thesis by (simp add: operator_world_def)
qed

lemma fake_run_free:
  "client_GetWorkspace mem_client ''sample'' (mem_world operator_world) = (Inr sample_ws, mem_world operator_world)"
  "mapGet (ws_labels sample_ws) LabelWorkspaceNamespace = ws_namespace sample_ws"
  "map_of operator_world (namespaceRef ''team-alpha'') = None"
  by (simp_all add: mem_client_def mem_GetWorkspace_def sample_ws_def sample_meta_def sample_spec_def operator_world_def operatorSecretRef_def)

text \<open>
  C3: a reconcile that reports success leaves everything the specification asks for. If the namespace was not
  someone else's and the workspace carries its namespace label, then after a run without error the namespace, the
  Harbor pull access, the Helm sources, the role bindings, the deployer, the quota, the limit range and the network
  policy all are as specified at the same time: no component undoes another's work.
\<close>

theorem reconcile_establishes_tenant:
  assumes "kube_cluster (r_Client r) store" and "harbor_sound r store"
    and "client_GetWorkspace (r_Client r) n (world s) = (Inr w, v)"
    and "mapGet (ws_labels w) LabelWorkspaceNamespace = ws_namespace w"
    and "\<And>ob. store (world s) (namespaceRef (ws_namespace w)) = Some ob \<Longrightarrow> \<not> foreign w ob"
    and "Reconcile r n s = (Inr res, s')"
  shows "tenant_ready w (r_Version r) (store (world s'))"
  by (rule successful_run_leaves [where Q = "tenant_ready w (r_Version r)",
        OF assms hoare_conseq [OF hoare_reconcileResources [OF kube_cluster.axioms(1) [OF assms(1)] assms(2)]]]) auto

theorem reconcile_establishes_tenant_witness:
  "\<exists>res s'. Reconcile fake_reconciler ''sample'' (start operator_world) = (Inr res, s') \<and>
     tenant_ready sample_ws ''v1'' (mem_lookup (world s'))"
proof -
  obtain res s' where r: "Reconcile fake_reconciler ''sample'' (start operator_world) = (Inr res, s')"
    using fake_run_succeeds by (rule run_okE)
  from reconcile_establishes_tenant [of fake_reconciler mem_lookup, OF _ fake_harbor_sound _ fake_run_free(2) _ r] r show ?thesis
    by (simp add: fake_run_free mem_cluster.kube_cluster_axioms)
qed

lemma fake_run_ready:
  assumes "Reconcile fake_reconciler ''sample'' (start operator_world) = (Inr res, s')"
  shows "tenant_ready sample_ws ''v1'' (mem_lookup (world s'))"
  by (rule successful_run_leaves [of fake_reconciler mem_lookup, OF _ fake_harbor_sound _ fake_run_free(2) _ assms hoare_conseq [OF
        hoare_reconcileResources [of fake_reconciler mem_lookup, OF _ fake_harbor_sound]]])
     (auto simp: fake_run_free mem_cluster.kube_cluster_axioms mem_server.kube_api_axioms)

text \<open>
  C4: one reconcile is enough. When the API server and Harbor answer, the operator Secret is complete and its URL
  parses, the workspace carries its namespace label, its namespace is not somebody else's and no object in it is
  controlled by somebody else, then \<open>Reconcile\<close> returns without error and everything the specification asks for is
  in place, whatever was there before.
\<close>

theorem healthy_cluster_converges:
  assumes "healthy_cluster (r_Client r) store" and "harbor_sound r store"
    and "client_GetWorkspace (r_Client r) n (world s) = (Inr w, v)"
    and "mapGet (ws_labels w) LabelWorkspaceNamespace = ws_namespace w"
    and "credentials_in (store (world s)) creds" and "url_Parse (hcr_URL creds) = Inr u" and "harbor_up (harborClient r creds)"
    and "unobstructed w (store (world s))"
    and "\<not> (\<exists>ob. store (world s) (namespaceRef (ws_namespace w)) = Some ob \<and> foreign w ob)"
  shows "\<exists>res s'. Reconcile r n s = (Inr res, s') \<and> tenant_ready w (r_Version r) (store (world s'))"
proof -
  note cluster = healthy_cluster.axioms(2) [OF assms(1)]
  note api = kube_cluster.axioms(1) [OF cluster]
  have v: "store v = store (world s)" by (rule kube_cluster.get_workspace_frame [OF cluster assms(3)])
  let ?s = "s\<lparr>world := v, trace := trace s @ [EvGetWorkspace n]\<rparr>"
  obtain ms s1 where run: "reconcileResources r w ?s = (Inr ms, s1)"
    using hoare_succeeds [OF up_reconcileResources [OF assms(1,2,7,6,5,8,9)], of ?s] v by auto
  obtain s2 where status: "updateStatus r w ms s1 = (Inr (), s2)"
    using hoare_succeeds [OF healthy_cluster.up_updateStatus [OF assms(1) refl, of w ms], of s1] by auto
  have "Reconcile r n s = (Inr (if ms = [] then noRequeue else \<lparr>RequeueAfter = missingHarborMembersRequeue\<rparr>), s2)"
    using assms(3,4) run status
    by (simp add: Reconcile_def reconcileFetched_def onResult_def andThen_def ret_def kGetWorkspace_def apiCall_def request_def)
  moreover have "tenant_ready w (r_Version r) (store (world s1))"
    using hoareD [OF hoare_reconcileResources [OF api assms(2), of "store v" w] _ run] by simp
  ultimately show ?thesis using keepsD [OF kube_cluster.keeps_updateStatus [OF cluster refl] status] by auto
qed

theorem healthy_cluster_converges_witness:
  "\<exists>res s'. Reconcile fake_reconciler ''sample'' (start operator_world) = (Inr res, s') \<and>
     tenant_ready sample_ws ''v1'' (mem_lookup (world s'))"
proof -
  have g: "client_GetWorkspace (r_Client fake_reconciler) ''sample'' (world (start operator_world)) = (Inr sample_ws, mem_world operator_world)"
    by (simp add: mem_client_def mem_GetWorkspace_def)
  have l: "mapGet (ws_labels sample_ws) LabelWorkspaceNamespace = ws_namespace sample_ws"
    by (simp add: sample_ws_def sample_meta_def sample_spec_def)
  have free: "own_ref sample_ws r \<Longrightarrow> mem_lookup (world (start operator_world)) r = None" for r
    by (auto simp: operator_world_def operatorSecretRef_def own_ref_def go_consts)
  have c: "credentials_in (mem_lookup (world (start operator_world)))
      \<lparr>hcr_URL = ''https://harbor.local'', hcr_RobotName = ''robot$operator'', hcr_RobotSecret = ''pw''\<rparr>" (is "credentials_in _ ?creds")
    by (simp add: credentials_in_def operator_world_def operator_secret_def mem_persist_def go_consts fmlookup_of_list)
  have u: "\<exists>u. url_Parse (hcr_URL ?creds) = Inr u"
    using url_Parse_plain [of "''https''" "''harbor.local''" "[]" "[]" "[]"] by (auto simp: plainHost_def isAlnum_def)
  have h: "harbor_up (harborClient fake_reconciler ?creds)"
    by (simp add: harbor_up_def harborClient_def fake_reconciler_def fake_harbor_def outcome_ret)
  have "\<exists>res s'. Reconcile fake_reconciler ''sample'' (start operator_world) = (Inr res, s') \<and>
     tenant_ready sample_ws (r_Version fake_reconciler) (mem_lookup (world s'))"
    using u by (elim exE, intro healthy_cluster_converges [of fake_reconciler mem_lookup, OF _ fake_harbor_sound g l c _ h])
      (use free in \<open>auto simp: mem_healthy.healthy_cluster_axioms unobstructed_def own_ref_def\<close>)
  then show ?thesis by simp
qed

lemma stable_tenant_ready:
  assumes "\<And>r. own_ref a r \<Longrightarrow> r \<notin> R" and "operatorSecretRef \<notin> R" and "operatorConfigRef \<notin> R"
  shows "stable R (tenant_ready a version)"
proof -
  have apart: "X \<inter> R = {}" if "X \<subseteq> {r. own_ref a r}" for X using that assms(1) by auto
  note O = own_scopes [of a, THEN apart]
  have pull: "imagePullSecretRef (ws_namespace a) \<notin> R" "defaultServiceAccountRef (ws_namespace a) \<notin> R"
    using O(2) by (auto simp: harbor_scope_def)
  have config: "{namespaceRef (ws_namespace a), operatorConfigRef} \<inter> R = {}" using O(1) assms(3) by auto
  have "stable R (\<lambda>\<sigma>. \<exists>creds. credentials_in \<sigma> creds \<and> helm_ok (hcr_URL creds) a version \<sigma>)"
    by (rule stableI) (blast dest: stableD [OF stable_credentials [OF assms(2)]] stableD [OF helm.stable_ok [OF O(3)]])
  moreover note tenant_namespace.stable_ok [OF config, of version] stable_pull_ready [OF pull]
    role_bindings.stable_ok [OF O(4), of version] deployer.stable_ok [OF O(5), of version]
    quota.stable_ok [OF O(6), of version] limits.stable_ok [OF O(7), of version] isolation.stable_ok [OF O(8), of version]
  ultimately show ?thesis
    unfolding tenant_ready_def by (intro stable_conj)
qed

text \<open>A workspace whose namespace belongs to someone else gets no further than its namespace.\<close>

lemma hoare_foreign_namespace:
  assumes api: "kube_api (r_Client r) store" and \<sigma>: "created \<sigma>" and "\<sigma> (namespaceRef (ws_namespace w)) = Some ob" and "foreign w ob"
  shows "hoare (\<lambda>v. store v = \<sigma>) (reconcileResources r w) (\<lambda>_ _. False) (\<lambda>_ v. store v = \<sigma>)"
  unfolding reconcileResources_def Let_def
  by (rule hoare_seq [OF hoare_conseq [OF kube_api.hoare_ReconcileNamespace [OF api \<sigma>]]],
      use assms(3,4) in \<open>auto simp: hoare_def\<close>)

text \<open>
  C5: tenants are safe from one another. What a workspace has been given stays in place through every reconcile of
  another workspace, successful or not: one with a namespace of its own, and also one that claims the
  same namespace (two overlapping creations can be admitted with one), as long as it is not an owner of that namespace.
\<close>

theorem ready_tenant_undisturbed:
  assumes cluster: "kube_cluster (r_Client r) store" and sound: "harbor_sound r store"
    and get: "client_GetWorkspace (r_Client r) n (world s) = (Inr w, v)" and valid: "valid_spec (ws_spec w)"
    and other: "\<And>ob. ws_namespace w = ws_namespace a \<Longrightarrow> store (world s) (namespaceRef (ws_namespace w)) = Some ob \<Longrightarrow>
      \<not> IsOwned (om_owners (o_meta ob)) (ws_uid w)"
    and ready: "tenant_ready a version (store (world s))" and run: "Reconcile r n s = (res, s')"
  shows "tenant_ready a version (store (world s'))"
proof (rule run_leaves [where P = "\<lambda>v. store v = store (world s)", OF cluster get run])
  note api = kube_cluster.axioms(1) [OF cluster]
  show "hoare (\<lambda>v. store v = store (world s)) (reconcileResources r w) (\<lambda>_ v. tenant_ready a version (store v))
      (\<lambda>_ v. tenant_ready a version (store v))"
  proof (cases "ws_namespace w = ws_namespace a")
    case True
    with ready obtain ob where ob: "store (world s) (namespaceRef (ws_namespace w)) = Some ob" "owned_by (ws_uid a) ob"
      by (auto simp: tenant_ready_def namespace_ok_def namespace_ready_def)
    then have f: "foreign w ob" using other [OF True] by (auto simp: foreign_def owned_by_def)
    show ?thesis
      by (rule hoare_conseq [OF hoare_foreign_namespace [OF api kube_api.created_store [OF api] ob(1) f]]) (use ready in auto)
  next
    case False
    have "ws_namespace w \<noteq> OperatorNamespace"
      using valid by (auto simp: valid_spec_def reserved_namespaces_def go_consts)
    then have "stable {r. own_ref w r} (tenant_ready a version)"
      using False by (intro stable_tenant_ready) (auto simp: own_ref_def operatorSecretRef_def operatorConfigRef_def)
    from stableD [OF this _ ready] show ?thesis
      by (intro hoare_conseq [OF hoare_reconcileResources [OF api sound]]) auto
  qed
qed (use ready kube_cluster.get_workspace_frame [OF cluster get] in simp_all)

definition intruder :: Workspace where
  "intruder = sample_ws\<lparr>ws_meta := (ws_meta sample_ws)\<lparr>om_name := ''intruder'', om_uid := ''uid-2''\<rparr>\<rparr>"

lemma sample_namespace_owners:
  "case mem_lookup (world (snd (Reconcile fake_reconciler ''sample'' (start operator_world)))) (namespaceRef (ws_namespace intruder)) of
     None \<Rightarrow> True | Some ob \<Rightarrow> \<not> IsOwned (om_owners (o_meta ob)) (ws_uid intruder)"
  by code_simp

theorem ready_tenant_undisturbed_witness:
  "\<exists>s' res2 t. snd (Reconcile fake_reconciler ''sample'' (start operator_world)) = s' \<and>
     Reconcile fake_reconciler ''intruder'' (s'\<lparr>world := (world s')\<lparr>mem_workspaces := [sample_ws, intruder]\<rparr>\<rparr>) = (res2, t) \<and>
     tenant_ready sample_ws ''v1'' (mem_lookup (world t))"
proof -
  obtain res s' where r: "Reconcile fake_reconciler ''sample'' (start operator_world) = (Inr res, s')"
    using fake_run_succeeds by (rule run_okE)
  let ?s = "s'\<lparr>world := (world s')\<lparr>mem_workspaces := [sample_ws, intruder]\<rparr>\<rparr>"
  have same: "mem_lookup (world ?s) = mem_lookup (world s')" by (simp add: mem_lookup_def fun_eq_iff)
  have ready: "tenant_ready sample_ws ''v1'' (mem_lookup (world ?s))"
    unfolding same by (rule fake_run_ready [OF r])
  have g: "client_GetWorkspace (r_Client fake_reconciler) ''intruder'' (world ?s) = (Inr intruder, world ?s)"
    by (simp add: mem_client_def mem_GetWorkspace_def intruder_def sample_ws_def sample_meta_def)
  have valid: "valid_spec (ws_spec intruder)" by code_simp
  obtain res2 t where t: "Reconcile fake_reconciler ''intruder'' ?s = (res2, t)" by fastforce
  have "tenant_ready sample_ws ''v1'' (mem_lookup (world t))"
    by (rule ready_tenant_undisturbed [of fake_reconciler mem_lookup, OF _ fake_harbor_sound g valid _ ready t])
       (use sample_namespace_owners r same in \<open>auto simp: mem_cluster.kube_cluster_axioms split: option.splits\<close>)
  with r t show ?thesis by auto
qed

text \<open>
  C6: the control loop comes to rest. After a reconcile that succeeded, and once Harbor knows the workspace's robot, a
  further reconcile of the same metadata and specification (the status may have been patched in between) changes no
  object of the cluster, whatever it returns. So it causes no further event of an owned object, and applies again after
  any number of runs.
\<close>

theorem second_reconcile_changes_nothing:
  assumes quiet: "quiet_cluster (r_Client r) store K" and sound: "harbor_sound r store"
    and known: "\<And>creds. robot_known K (harborClient r creds) (ws_namespace w)"
    and "client_GetWorkspace (r_Client r) n (world s) = (Inr w, v)"
    and label: "mapGet (ws_labels w) LabelWorkspaceNamespace = ws_namespace w"
    and "\<And>ob. store (world s) (namespaceRef (ws_namespace w)) = Some ob \<Longrightarrow> \<not> foreign w ob"
    and "Reconcile r n s = (Inr res, s')"
    and "client_GetWorkspace (r_Client r) n (world t) = (Inr w', v')" and same: "ws_meta w' = ws_meta w" "ws_spec w' = ws_spec w"
    and "store (world t) = store (world s')" and "K (world t)" and "Reconcile r n t = (res', t')"
  shows "store (world t') = store (world t)"
proof -
  note cluster = quiet_cluster.axioms(1) [OF quiet]
  obtain F where F: "hoare (\<lambda>_. True) (reconcileResources r w) (\<lambda>_ v. F (store v)) (\<lambda>_ _. True)"
    "rests store K F (reconcileResources r w)"
    by (rule quiet_cluster.resources_rest [OF quiet refl sound known])
  have "F (store (world s'))"
    by (rule successful_run_leaves [OF cluster sound assms(4) label assms(6,7) hoare_conseq [OF F(1)]]) simp_all
  then have R: "hoare (\<lambda>v. store v = store (world t) \<and> K v) (reconcileResources r w')
      (\<lambda>_ v. store v = store (world t)) (\<lambda>_ v. store v = store (world t))"
    using F(2) assms(11) quiet_cluster.resources_status_free [OF quiet refl same]
    by (auto simp: rests_def intro: hoare_conseq)
  have "store v' = store (world t) \<and> K v'"
    using kube_cluster.get_workspace_frame [OF cluster assms(8)] quiet_cluster.get_workspace_K [OF quiet assms(8)] assms(12) by simp
  with R show ?thesis
    using run_leaves [where P = "\<lambda>v. store v = store (world t) \<and> K v" and Q = "\<lambda>\<sigma>. \<sigma> = store (world t)", OF cluster assms(8,13)] by simp
qed

definition steady_reconciler :: "mem WorkspaceReconciler" where
  "steady_reconciler = fake_reconciler\<lparr>r_NewHarborClient := Some (\<lambda>_ _ _. fake_harbor\<lparr>EnsureRobot := \<lambda>_ _. ret None\<rparr>)\<rparr>"

lemma steady_run_succeeds: "\<not> isl (fst (Reconcile steady_reconciler ''sample'' (start operator_world)))"
  by code_simp

theorem second_reconcile_changes_nothing_witness:
  "\<exists>res s' res' t'. Reconcile steady_reconciler ''sample'' (start operator_world) = (Inr res, s') \<and>
     Reconcile steady_reconciler ''sample'' (s'\<lparr>world := (world s')\<lparr>mem_workspaces := [sample_ws]\<rparr>\<rparr>) = (res', t') \<and>
     mem_lookup (world t') = mem_lookup (world s')"
proof -
  obtain res s' where r: "Reconcile steady_reconciler ''sample'' (start operator_world) = (Inr res, s')"
    using steady_run_succeeds by (rule run_okE)
  let ?w = "(world s')\<lparr>mem_workspaces := [sample_ws]\<rparr>"
  obtain res' t' where r': "Reconcile steady_reconciler ''sample'' (s'\<lparr>world := ?w\<rparr>) = (res', t')" by fastforce
  have c: "r_Client steady_reconciler = mem_client" by (simp add: steady_reconciler_def)
  have h: "harborClient steady_reconciler creds = fake_harbor\<lparr>EnsureRobot := \<lambda>_ _. ret None\<rparr>" for creds
    by (simp add: steady_reconciler_def harborClient_def)
  have g: "client_GetWorkspace (r_Client steady_reconciler) ''sample'' (world (start operator_world)) = (Inr sample_ws, mem_world operator_world)"
    by (simp add: c mem_client_def mem_GetWorkspace_def)
  have g': "client_GetWorkspace (r_Client steady_reconciler) ''sample'' (world (s'\<lparr>world := ?w\<rparr>)) = (Inr sample_ws, ?w)"
    by (simp add: c mem_client_def mem_GetWorkspace_def)
  have "mem_lookup (world t') = mem_lookup (world (s'\<lparr>world := ?w\<rparr>))"
  proof (rule second_reconcile_changes_nothing [of steady_reconciler mem_lookup "\<lambda>_. True", OF _ _ _ g _ _ r g' refl refl _ _ r'])
    show "quiet_cluster (r_Client steady_reconciler) mem_lookup (\<lambda>_. True)"
      using mem_quiet.quiet_cluster_axioms [where K = "\<lambda>_. True"] by (simp add: c)
    show "harbor_sound steady_reconciler mem_lookup"
      unfolding harbor_sound_def h by (blast intro: settled.harbor_beside_axioms)
    show "robot_known (\<lambda>_. True) (harborClient steady_reconciler creds) (ws_namespace sample_ws)" for creds
      by (simp add: robot_known_def h fake_harbor_def hoare_def ret_def)
    show "mapGet (ws_labels sample_ws) LabelWorkspaceNamespace = ws_namespace sample_ws"
      by (simp add: sample_ws_def sample_meta_def sample_spec_def)
    show "mem_lookup (world (s'\<lparr>world := ?w\<rparr>)) = mem_lookup (world s')" by (simp add: mem_lookup_def fun_eq_iff)
  qed (simp_all add: operator_world_def operatorSecretRef_def)
  then show ?thesis using r r' by (auto simp: mem_lookup_def fun_eq_iff)
qed

section \<open>Errors and status\<close>

lemma patchStatus_step:
  obtains u v where "client_PatchStatus c b w (world s) = (u, v)"
    and "kPatchStatus c b w s = ((case u of Inl a \<Rightarrow> Inl (APIError a) | Inr x \<Rightarrow> Inr x),
           s\<lparr>world := v, trace := trace s @ [EvPatchStatus (ws_name w) (ws_status w)]\<rparr>)"
  by (cases "client_PatchStatus c b w (world s)")
     (auto simp: kPatchStatus_def apiCall_def request_def split: sum.splits)

definition falseStatus :: "'s WorkspaceReconciler \<Rightarrow> Workspace \<Rightarrow> string \<Rightarrow> message \<Rightarrow> 's \<Rightarrow> WorkspaceStatus" where
  "falseStatus r w reason msg now = (ws_status w)\<lparr>
     st_conditions := client_SetStatusCondition (r_Client r) now (st_conditions (ws_status w))
       (readyCondition w ConditionFalse reason msg),
     st_observedGeneration := om_generation (ws_meta w)\<rparr>"

lemma setReadyConditionFalse_alt:
  "setReadyConditionFalse r w reason msg s =
     kPatchStatus (r_Client r) w (w\<lparr>ws_status := falseStatus r w reason msg (world s)\<rparr>) s"
  by (simp add: setReadyConditionFalse_def falseStatus_def Let_def)

text \<open>
  C18: errors are classified as intended. A namespace conflict is permanent: it is reported on the status and as
  one warning event and not handed back for backoff; a timed retry happens exactly when the status patch itself
  failed. A write conflict is handed back with no request at all. Every other error is handed back unchanged, after
  Ready=False and one warning event, whether or not the status patch succeeded.
\<close>

theorem errors_are_classified:
  assumes "condition_api (r_Client r)" and "distinct (map cond_type (st_conditions (ws_status w)))"
    and "handleReconcileError r w err s = (res, s')"
  shows "if AsNamespaceConflict err = None \<and> IsConflict err then res = Inl err \<and> s' = s
     else \<exists>reason st u v. trace s' = trace s @ [EvPatchStatus (ws_name w) st, EvRecord (ws_name w) EventTypeWarning reason (ErrorText err)] \<and>
       (\<exists>a \<in> set (st_conditions st). agrees a (readyCondition w ConditionFalse reason (ErrorText err))) \<and>
       client_PatchStatus (r_Client r) w (w\<lparr>ws_status := st\<rparr>) (world s) = (u, v) \<and>
       (if AsNamespaceConflict err = None then reason = ''ReconcileError'' \<and> res = Inl err
        else reason = ''NamespaceConflict'' \<and> res = Inr \<lparr>RequeueAfter = (if isl u then 30 else 0)\<rparr>)"
proof -
  have has: "\<exists>a \<in> set (st_conditions (falseStatus r w reason (ErrorText err) now)).
      agrees a (readyCondition w ConditionFalse reason (ErrorText err))" for reason now
    using condition_api.set_has [OF assms(1,2)] by (simp add: falseStatus_def)
  define reason where "reason = (if AsNamespaceConflict err = None then ''ReconcileError'' else ''NamespaceConflict'')"
  let ?st = "falseStatus r w reason (ErrorText err) (world s)"
  obtain u v where p: "client_PatchStatus (r_Client r) w (w\<lparr>ws_status := ?st\<rparr>) (world s) = (u, v)"
    and k: "setReadyConditionFalse r w reason (ErrorText err) s = ((case u of Inl a \<Rightarrow> Inl (APIError a) | Inr x \<Rightarrow> Inr x),
           s\<lparr>world := v, trace := trace s @ [EvPatchStatus (ws_name w) ?st]\<rparr>)"
    unfolding setReadyConditionFalse_alt
    by (rule patchStatus_step [of "r_Client r" w "w\<lparr>ws_status := ?st\<rparr>" s]) auto
  show ?thesis
  proof (cases "AsNamespaceConflict err = None \<and> IsConflict err")
    case True
    with assms(3) show ?thesis by (simp add: handleReconcileError_def fail_def)
  next
    case False
    with assms(3) k have "trace s' = trace s @ [EvPatchStatus (ws_name w) ?st, EvRecord (ws_name w) EventTypeWarning reason (ErrorText err)] \<and>
       (if AsNamespaceConflict err = None then res = Inl err else res = Inr \<lparr>RequeueAfter = (if isl u then 30 else 0)\<rparr>)"
      by (cases u) (auto simp: handleReconcileError_def onResult_def andThen_def fail_def ret_def eventf_def request_def
          Let_def reason_def noRequeue_def split: if_splits)
    then show ?thesis using False has p by (auto simp: reason_def split: if_splits)
  qed
qed

theorem errors_are_classified_witness:
  "\<exists>s'. handleReconcileError fake_reconciler sample_ws (APIError (Conflict ''stale'')) (start []) = (Inl (APIError (Conflict ''stale'')), s') \<and> s' = start []"
proof -
  obtain res s' where h: "handleReconcileError fake_reconciler sample_ws (APIError (Conflict ''stale'')) (start []) = (res, s')"
    by fastforce
  have "distinct (map cond_type (st_conditions (ws_status sample_ws)))"
    by (simp add: sample_ws_def empty_status_def)
  with errors_are_classified [OF _ _ h] h show ?thesis by (simp add: mem_conditions.condition_api_axioms)
qed

text \<open>The objects a status refers to.\<close>

definition optional_ref :: "kind \<Rightarrow> ResourceReference option \<Rightarrow> objref list" where
  "optional_ref k x = (case x of None \<Rightarrow> [] | Some rf \<Rightarrow> [(k, ref_namespace rf, ref_name rf)])"

definition advertised :: "WorkspaceStatus \<Rightarrow> objref list" where
  "advertised st =
     optional_ref NamespaceK (st_namespaceRef st) @ optional_ref ResourceQuotaK (st_resourceQuotaRef st) @
     optional_ref LimitRangeK (st_limitRangeRef st) @ optional_ref NetworkPolicyK (st_networkPolicyRef st) @
     optional_ref SecretK (st_imagePullSecretRef st) @ optional_ref HelmRepositoryK (st_helmRepositoryRef st) @
     map (\<lambda>rf. (RoleBindingK, ref_namespace rf, ref_name rf)) (st_roleBindingRefs st)"

definition observation :: "(objref \<Rightarrow> Object option) \<Rightarrow> kind \<Rightarrow> string \<Rightarrow> string \<Rightarrow> ResourceReference option" where
  "observation \<sigma> k ns n = (if \<sigma> (k, ns, n) = None then None else Some \<lparr>ref_name = n, ref_namespace = ns\<rparr>)"

context kube_cluster
begin

lemma observedRef_run:
  assumes "r_Client r = c" and "observedRef r k n ns s = (Inr x, s')"
  shows "x = observation (store (world s)) k ns n \<and> store (world s') = store (world s) \<and>
     trace s' = trace s @ [EvGet (k, ns, n)]"
proof (cases "client_Get c (k, ns, n) (world s)")
  case (Pair a v)
  then show ?thesis
    using assms get_frame [OF Pair] get_found [of "(k, ns, n)" "world s" _ v] get_absent [of "(k, ns, n)" "world s" _ v]
    by (cases a)
       (auto simp: observedRef_def onResult_def kGet_def apiCall_def request_def ret_def fail_def observation_def
         split: if_splits api_error.splits)
qed

lemma updateStatus_run:
  assumes c: "r_Client r = c" and "updateStatus r w ms s = (Inr u, s')"
  obtains now where "trace s' = trace s @ [EvGet (SecretK, ws_namespace w, ImagePullSecretName),
        EvGet (HelmRepositoryK, ws_namespace w, HelmRepositoryName)] @
      (let st = newStatusFor r w ms (observation (store (world s)) SecretK (ws_namespace w) ImagePullSecretName)
            (observation (store (world s)) HelmRepositoryK (ws_namespace w) HelmRepositoryName) now
       in if ws_status w = st then []
          else [EvPatchStatus (ws_name w) st, EvRecord (ws_name w) EventTypeNormal ''Reconciled''
                 (Text (''Workspace resources reconciled for namespace '' @ ws_namespace w))])"
proof -
  obtain x1 s1 x2 s2 where o1: "observedRef r SecretK ImagePullSecretName (ws_namespace w) s = (Inr x1, s1)"
    and o2: "observedRef r HelmRepositoryK HelmRepositoryName (ws_namespace w) s1 = (Inr x2, s2)"
    and p: "patchIfChanged r w (newStatusFor r w ms x1 x2 (world s2)) s2 = (Inr u, s')"
    using assms(2) by (auto simp: updateStatus_def andThen_def split: prod.splits sum.splits)
  note r1 = observedRef_run [OF c o1] and r2 = observedRef_run [OF c o2]
  let ?st = "newStatusFor r w ms x1 x2 (world s2)"
  obtain y v where k: "kPatchStatus (r_Client r) w (w\<lparr>ws_status := ?st\<rparr>) s2 =
      ((case y of Inl a \<Rightarrow> Inl (APIError a) | Inr x \<Rightarrow> Inr x), s2\<lparr>world := v, trace := trace s2 @ [EvPatchStatus (ws_name w) ?st]\<rparr>)"
    by (rule patchStatus_step [of "r_Client r" w "w\<lparr>ws_status := ?st\<rparr>" s2]) auto
  have "trace s' = trace s2 @ (if ws_status w = ?st then []
      else [EvPatchStatus (ws_name w) ?st, EvRecord (ws_name w) EventTypeNormal ''Reconciled''
                 (Text (''Workspace resources reconciled for namespace '' @ ws_namespace w))])"
    using p k by (cases y) (auto simp: patchIfChanged_def andThen_def wrapErr_def onResult_def fail_def ret_def eventf_def
        request_def split: if_splits)
  with r1 r2 show ?thesis by (intro that [of "world s2"]) (simp add: Let_def)
qed

end

lemma newStatusFor_conditions:
  assumes "condition_api (r_Client r)" and "distinct (map cond_type (st_conditions (ws_status w)))"
  shows "\<exists>a \<in> set (st_conditions (newStatusFor r w ms x y now)). agrees a (finalCondition w ms)"
    and "distinct (map cond_type (st_conditions (newStatusFor r w ms x y now)))"
    and "sorted (map cond_type (st_conditions (newStatusFor r w ms x y now)))"
proof -
  let ?cs = "client_SetStatusCondition (r_Client r) now (st_conditions (ws_status w)) (finalCondition w ms)"
  have e: "st_conditions (newStatusFor r w ms x y now) = sort_key cond_type ?cs"
    by (simp add: newStatusFor_def derivedStatus_def Let_def)
  show "\<exists>a \<in> set (st_conditions (newStatusFor r w ms x y now)). agrees a (finalCondition w ms)"
    using condition_api.set_has [OF assms] by (simp add: e)
  show "distinct (map cond_type (st_conditions (newStatusFor r w ms x y now)))"
    unfolding e using condition_api.set_distinct [OF assms, of now "finalCondition w ms"] by (simp add: distinct_map)
  show "sorted (map cond_type (st_conditions (newStatusFor r w ms x y now)))" by (simp add: e)
qed

lemma newStatusFor_settled:
  assumes "condition_api (r_Client r)" and "distinct (map cond_type (st_conditions (ws_status w)))"
  shows "newStatusFor r (w\<lparr>ws_status := newStatusFor r w ms x y now\<rparr>) ms x y now' = newStatusFor r w ms x y now"
proof -
  let ?st = "newStatusFor r w ms x y now"
  let ?w = "w\<lparr>ws_status := ?st\<rparr>"
  note n = newStatusFor_conditions [OF assms, of ms x y now]
  have "finalCondition ?w ms = finalCondition w ms" by (simp add: finalCondition_def readyCondition_def)
  with n(1) obtain a where "a \<in> set (st_conditions ?st)" "agrees a (finalCondition ?w ms)" by auto
  then have "client_SetStatusCondition (r_Client r) now' (st_conditions ?st) (finalCondition ?w ms) = st_conditions ?st"
    using condition_api.set_fix [OF assms(1) n(2)] by blast
  moreover have "sort_key cond_type (st_conditions ?st) = st_conditions ?st"
    by (rule sort_key_id_if_sorted [OF n(3)])
  moreover have "(derivedStatus ?w)\<lparr>st_imagePullSecretRef := x, st_helmRepositoryRef := y\<rparr> = ?st"
    by (simp add: newStatusFor_def derivedStatus_def roleBindingRefs_def Let_def)
  ultimately show ?thesis unfolding newStatusFor_def [of r ?w] Let_def by simp
qed

lemma tenant_ready_objects:
  assumes "tenant_ready w version \<sigma>" and "st = newStatusFor r w ms (observation \<sigma> SecretK (ws_namespace w) ImagePullSecretName)
            (observation \<sigma> HelmRepositoryK (ws_namespace w) HelmRepositoryName) now" and "x \<in> set (advertised st)"
  shows "\<sigma> x \<noteq> None"
proof -
  have b: "\<sigma> (RoleBindingK, ws_namespace w, RoleBindingName @ ''-'' @ role) \<noteq> None"
    if "role \<in> set AllMemberRoles" "role \<in> m_role ` set (ws_members w)" for role
  proof -
    have "binding_ok w version role (\<sigma> (roleBindingRef w role))"
      using assms(1) that(1) by (auto simp: tenant_ready_def bindings_ok_def list_all_iff)
    with that(2) show ?thesis by (force simp: binding_ok_def roleBindingRef_def filter_empty_conv split: if_splits)
  qed
  have n: "\<sigma> (namespaceRef (ws_namespace w)) \<noteq> None"
    using assms(1) by (auto simp: tenant_ready_def namespace_ok_def)
  have q: "\<sigma> (ResourceQuotaK, ws_namespace w, ResourceQuotaName) \<noteq> None" if "spec_resourceQuota (ws_spec w) \<noteq> None"
    using assms(1) that by (auto simp: tenant_ready_def optional_ok_def wantedQuota_def resourceQuotaRef_def)
  have l: "\<sigma> (LimitRangeK, ws_namespace w, LimitRangeName) \<noteq> None" if "spec_limitRange (ws_spec w) \<noteq> None"
    using assms(1) that by (auto simp: tenant_ready_def optional_ok_def wantedLimits_def limitRangeRef_def)
  have p: "\<sigma> (NetworkPolicyK, ws_namespace w, NetworkPolicyName) \<noteq> None" if "ni_enabled (spec_networkIsolation (ws_spec w))"
    using assms(1) that by (auto simp: tenant_ready_def optional_ok_def wantedPolicy_def networkPolicyRef_def)
  show ?thesis
    using assms(3) n q l p b unfolding assms(2)
    by (auto simp: advertised_def optional_ref_def newStatusFor_def derivedStatus_def Let_def observation_def roleBindingRefs_def
        split: if_splits)
qed

text \<open>
  C19: the status is truthful. When the tenant's objects are in place, a successful status update computes a status
  for the current generation that refers only to objects that exist, and whose Ready condition is True exactly when
  no Harbor member is pending; it patches the workspace once, with one event, when that status differs from the
  stored one, and otherwise only reads.
\<close>

theorem status_is_truthful:
  assumes "kube_cluster (r_Client r) store" and "condition_api (r_Client r)"
    and "distinct (map cond_type (st_conditions (ws_status w)))"
    and "tenant_ready w version (store (world s))" and "updateStatus r w ms s = (Inr u, s')"
  shows "\<exists>st gets. trace s' = trace s @ gets @ (if ws_status w = st then []
            else [EvPatchStatus (ws_name w) st, EvRecord (ws_name w) EventTypeNormal ''Reconciled''
                 (Text (''Workspace resources reconciled for namespace '' @ ws_namespace w))]) \<and>
      (\<forall>ev \<in> set gets. \<exists>x. ev = EvGet x) \<and>
      (\<forall>x \<in> set (advertised st). store (world s') x \<noteq> None) \<and>
      st_observedGeneration st = om_generation (ws_meta w) \<and>
      (\<exists>a \<in> set (st_conditions st). cond_type a = ''Ready'' \<and> (cond_status a = ConditionTrue \<longleftrightarrow> ms = []))"
proof -
  have k: "store (world s') = store (world s)"
    by (rule keepsD [OF kube_cluster.keeps_updateStatus [OF assms(1) refl] assms(5)])
  obtain now where t: "trace s' = trace s @ [EvGet (SecretK, ws_namespace w, ImagePullSecretName),
        EvGet (HelmRepositoryK, ws_namespace w, HelmRepositoryName)] @
      (let st = newStatusFor r w ms (observation (store (world s)) SecretK (ws_namespace w) ImagePullSecretName)
            (observation (store (world s)) HelmRepositoryK (ws_namespace w) HelmRepositoryName) now
       in if ws_status w = st then []
          else [EvPatchStatus (ws_name w) st, EvRecord (ws_name w) EventTypeNormal ''Reconciled''
                 (Text (''Workspace resources reconciled for namespace '' @ ws_namespace w))])"
    by (rule kube_cluster.updateStatus_run [OF assms(1) refl assms(5)])
  let ?st = "newStatusFor r w ms (observation (store (world s)) SecretK (ws_namespace w) ImagePullSecretName)
            (observation (store (world s)) HelmRepositoryK (ws_namespace w) HelmRepositoryName) now"
  obtain a where a: "a \<in> set (st_conditions ?st)" "agrees a (finalCondition w ms)"
    using newStatusFor_conditions(1) [OF assms(2,3)] by blast
  have "cond_type a = ''Ready'' \<and> (cond_status a = ConditionTrue \<longleftrightarrow> ms = [])"
    using agreesD [OF a(2)] by (simp add: finalCondition_def readyCondition_def ConditionTypeReady_def)
  moreover have "st_observedGeneration ?st = om_generation (ws_meta w)"
    by (simp add: newStatusFor_def derivedStatus_def Let_def)
  ultimately show ?thesis
    using t a(1) tenant_ready_objects [OF assms(4) refl, of _ r ms now] k
    by (intro exI [of _ ?st] exI [of _ "[EvGet (SecretK, ws_namespace w, ImagePullSecretName),
        EvGet (HelmRepositoryK, ws_namespace w, HelmRepositoryName)]"]) (auto simp: Let_def)
qed

theorem status_is_truthful_witness:
  "\<exists>s1 u s' st gets. updateStatus fake_reconciler sample_ws [] s1 = (Inr u, s') \<and> trace s' = trace s1 @ gets @
     [EvPatchStatus ''sample'' st, EvRecord ''sample'' EventTypeNormal ''Reconciled''
        (Text ''Workspace resources reconciled for namespace team-alpha'')] \<and>
     (\<exists>a \<in> set (st_conditions st). cond_type a = ''Ready'' \<and> cond_status a = ConditionTrue)"
proof -
  obtain ms s1 where r: "reconcileResources fake_reconciler sample_ws (start operator_world) = (Inr ms, s1)"
    using fake_resources_succeed by (rule run_okE)
  have t: "tenant_ready sample_ws ''v1'' (mem_lookup (world s1))" by (rule fake_resources_ready [OF r])
  have "\<not> isl (fst (updateStatus fake_reconciler sample_ws [] (snd (reconcileResources fake_reconciler sample_ws (start operator_world)))))"
    by code_simp
  with r have "\<not> isl (fst (updateStatus fake_reconciler sample_ws [] s1))" by simp
  then obtain u s' where up: "updateStatus fake_reconciler sample_ws [] s1 = (Inr u, s')" by (rule run_okE)
  have d: "distinct (map cond_type (st_conditions (ws_status sample_ws)))" by (simp add: sample_ws_def empty_status_def)
  have "kube_cluster (r_Client fake_reconciler) mem_lookup" "condition_api (r_Client fake_reconciler)"
    by (simp_all add: mem_cluster.kube_cluster_axioms mem_conditions.condition_api_axioms)
  from status_is_truthful [OF this d t up] obtain st gets where
    st: "trace s' = trace s1 @ gets @ (if ws_status sample_ws = st then []
            else [EvPatchStatus (ws_name sample_ws) st, EvRecord (ws_name sample_ws) EventTypeNormal ''Reconciled''
                 (Text (''Workspace resources reconciled for namespace '' @ ws_namespace sample_ws))])"
    and a: "\<exists>a \<in> set (st_conditions st). cond_type a = ''Ready'' \<and> cond_status a = ConditionTrue" by auto
  from a have "ws_status sample_ws \<noteq> st" by (auto simp: sample_ws_def empty_status_def)
  with st a up show ?thesis by auto
qed

text \<open>
  C20: the status settles. Once the computed status is stored, another update with the same pending members and the
  same objects, at any later time, neither patches nor emits an event.
\<close>

theorem status_settles:
  assumes "kube_cluster (r_Client r) store" and "condition_api (r_Client r)"
    and "distinct (map cond_type (st_conditions (ws_status w)))"
    and "updateStatus r w ms s = (Inr u, s')"
    and "EvPatchStatus (ws_name w) st \<in> set (drop (length (trace s)) (trace s'))"
    and "store (world t) = store (world s)"
    and "updateStatus r (w\<lparr>ws_status := st\<rparr>) ms t = (Inr u', t')"
  shows "trace t' = trace t @ [EvGet (SecretK, ws_namespace w, ImagePullSecretName),
           EvGet (HelmRepositoryK, ws_namespace w, HelmRepositoryName)]"
proof -
  let ?w = "w\<lparr>ws_status := st\<rparr>"
  let ?x = "observation (store (world s)) SecretK (ws_namespace w) ImagePullSecretName"
  let ?y = "observation (store (world s)) HelmRepositoryK (ws_namespace w) HelmRepositoryName"
  obtain now where st: "st = newStatusFor r w ms ?x ?y now"
    by (rule kube_cluster.updateStatus_run [OF assms(1) refl assms(4)])
       (use assms(5) in \<open>auto simp: Let_def split: if_splits\<close>)
  have settled: "newStatusFor r ?w ms ?x ?y now' = st" for now'
    unfolding st by (rule newStatusFor_settled [OF assms(2,3)])
  show ?thesis
    by (rule kube_cluster.updateStatus_run [OF assms(1) refl assms(7)]) (simp add: assms(6) Let_def settled)
qed

theorem status_settles_witness:
  "\<exists>st u' t'. updateStatus fake_reconciler (sample_ws\<lparr>ws_status := st\<rparr>) [''bob''] (start operator_world) = (Inr u', t') \<and>
     length (trace t') = 2"
proof -
  have d: "distinct (map cond_type (st_conditions (ws_status sample_ws)))" by (simp add: sample_ws_def empty_status_def)
  have c: "kube_cluster (r_Client fake_reconciler) mem_lookup" "condition_api (r_Client fake_reconciler)"
    by (simp_all add: mem_cluster.kube_cluster_axioms mem_conditions.condition_api_axioms)
  obtain s' where up: "updateStatus fake_reconciler sample_ws [''bob''] (start operator_world) = (Inr (), s')"
    by (rule mem_updateStatus_ok [of fake_reconciler]) auto
  have new: "newStatusFor fake_reconciler sample_ws [''bob''] x y now \<noteq> ws_status sample_ws" for x y now
    using newStatusFor_conditions(1) [OF c(2) d, of "[''bob'']" x y now] by (auto simp: sample_ws_def empty_status_def)
  obtain st where m: "EvPatchStatus (ws_name sample_ws) st \<in> set (drop (length (trace (start operator_world))) (trace s'))"
    by (rule kube_cluster.updateStatus_run [OF c(1) refl up]) (use new [symmetric] in \<open>auto simp: Let_def\<close>)
  obtain t' where up': "updateStatus fake_reconciler (sample_ws\<lparr>ws_status := st\<rparr>) [''bob''] (start operator_world) = (Inr (), t')"
    by (rule mem_updateStatus_ok [of fake_reconciler]) auto
  from status_settles [OF c d up m refl up'] have "length (trace t') = 2" by simp
  with up' show ?thesis by blast
qed

section \<open>What wakes the controller\<close>



end
